theory Spec2Isabelle
  imports Complex_Main
begin

section \<open>Ewald summation: the class Ewald2 of uniform/ewald2.h\<close>

text \<open>
  The embedding follows the member functions of \<^verbatim>\<open>Ewald2\<close> one by one.

  \<^item> \<^verbatim>\<open>real_t\<close> is modelled by \<^typ>\<open>real\<close>: every formula is read in exact
    arithmetic, without rounding, overflow to infinity or NaN.
  \<^item> A division whose divisor is zero has no real value (IEEE arithmetic gives an
    infinity or a NaN there); the model stops with the fault \<open>DivByZero\<close>.
  \<^item> \<^verbatim>\<open>int\<close> is the 32-bit signed integer; arithmetic that leaves its range is
    undefined behaviour in C++ and the model stops with the fault \<open>IntOverflow\<close>.
  \<^item> The conversion \<^verbatim>\<open>int(waves.size())\<close> of a size to \<^verbatim>\<open>int\<close> keeps the value modulo \<open>2\<^sup>3\<^sup>2\<close>.
  \<^item> \<^verbatim>\<open>sqrtf(3)\<close> is the single-precision constant, with its exact value.
  \<^item> A read or write outside an array is the fault \<open>OutOfRange\<close>.
  \<^item> The recursion over the cell tree is bounded by fuel; \<open>OutOfFuel\<close> says that
    the bound was reached.
  \<^item> \<^verbatim>\<open>erfc\<close> (the C library's complementary error function) and \<^verbatim>\<open>wrap\<close>
    (of types.h) are parameters of the functions that call them.
\<close>

subsection \<open>Faults and loops\<close>

datatype fault = IntOverflow | DivByZero | OutOfRange | OutOfFuel

text \<open>A counted loop over the values \<open>xs\<close> that updates a state and stops at the first fault.\<close>

primrec for_each :: "'a list \<Rightarrow> ('a \<Rightarrow> 's \<Rightarrow> fault + 's) \<Rightarrow> 's \<Rightarrow> fault + 's" where
  "for_each [] body s = Inr s"
| "for_each (x # xs) body s =
     (case body x s of Inl e \<Rightarrow> Inl e | Inr s' \<Rightarrow> for_each xs body s')"

text \<open>An iterator loop that rewrites each element of a vector in place, touching no other element.\<close>

primrec map_each :: "('a \<Rightarrow> fault + 'b) \<Rightarrow> 'a list \<Rightarrow> fault + 'b list" where
  "map_each f [] = Inr []"
| "map_each f (x # xs) =
     (case f x of Inl e \<Rightarrow> Inl e
      | Inr y \<Rightarrow> (case map_each f xs of Inl e \<Rightarrow> Inl e | Inr ys \<Rightarrow> Inr (y # ys)))"

text \<open>Reading element \<open>i\<close> of an array.\<close>

definition elem_at :: "'a list \<Rightarrow> nat \<Rightarrow> fault + 'a" where
  "elem_at xs i = (if i < length xs then Inr (xs ! i) else Inl OutOfRange)"

subsection \<open>Numbers\<close>

definition INT_MAX :: int where
  "INT_MAX = 2147483647"

definition INT_MIN :: int where
  "INT_MIN = - 2147483648"

text \<open>The result of an \<^verbatim>\<open>int\<close> operation whose mathematical value is \<open>i\<close>.\<close>

definition cint :: "int \<Rightarrow> fault + int" where
  "cint i = (if INT_MIN \<le> i \<and> i \<le> INT_MAX then Inr i else Inl IntOverflow)"

text \<open>Division of \<^verbatim>\<open>real_t\<close> values.\<close>

definition fdiv :: "real \<Rightarrow> real \<Rightarrow> fault + real" where
  "fdiv a b = (if b = 0 then Inl DivByZero else Inr (a / b))"

text \<open>The constants \<^verbatim>\<open>M_PI\<close> and \<^verbatim>\<open>M_2_SQRTPI\<close> of math.h.\<close>

definition M_PI :: real where
  "M_PI = pi"

definition M_2_SQRTPI :: real where
  "M_2_SQRTPI = 2 / sqrt pi"

subsection \<open>Vectors\<close>

text \<open>
  Modelled from the spec: the vector types \<^verbatim>\<open>vec3\<close> and \<^verbatim>\<open>vec4\<close> of types.h, which
  is not among the sources. They are three and four \<^verbatim>\<open>real_t\<close> components with
  componentwise arithmetic, and \<^verbatim>\<open>norm\<close> is the squared length (the spec's
  \<open>R\<^sup>2 = |dX|\<^sup>2\<close>; line 93 of ewald2.h names the result \<^verbatim>\<open>R2\<close>).
\<close>

type_synonym vec3 = "real \<times> real \<times> real"
type_synonym vec4 = "real \<times> real \<times> real \<times> real"

fun vsub :: "vec3 \<Rightarrow> vec3 \<Rightarrow> vec3" where
  "vsub (a0, a1, a2) (b0, b1, b2) = (a0 - b0, a1 - b1, a2 - b2)"

fun vadd :: "vec3 \<Rightarrow> vec3 \<Rightarrow> vec3" where
  "vadd (a0, a1, a2) (b0, b1, b2) = (a0 + b0, a1 + b1, a2 + b2)"

fun vmul :: "vec3 \<Rightarrow> vec3 \<Rightarrow> vec3" where
  "vmul (a0, a1, a2) (b0, b1, b2) = (a0 * b0, a1 * b1, a2 * b2)"

fun vscale :: "vec3 \<Rightarrow> real \<Rightarrow> vec3" where
  "vscale (a0, a1, a2) c = (a0 * c, a1 * c, a2 * c)"

fun norm_vec3 :: "vec3 \<Rightarrow> real" where
  "norm_vec3 (a0, a1, a2) = a0 * a0 + a1 * a1 + a2 * a2"

fun vadd4 :: "vec4 \<Rightarrow> vec4 \<Rightarrow> vec4" where
  "vadd4 (a0, a1, a2, a3) (b0, b1, b2, b3) = (a0 + b0, a1 + b1, a2 + b2, a3 + b3)"

subsection \<open>The data of the class\<close>

text \<open>The structure \<^verbatim>\<open>Wave\<close> (lines 9 to 13).\<close>

record Wave =
  K :: vec3
  REAL :: real
  IMAG :: real

text \<open>The private members of \<^verbatim>\<open>Ewald2\<close> (lines 18 to 22).\<close>

record Ewald2 =
  ksize :: int
  alpha :: real
  sigma :: real
  cutoff :: real
  cycle :: vec3

subsection \<open>initWaves (lines 62 to 86)\<close>

text \<open>
  The \<^verbatim>\<open>int\<close> expression \<^verbatim>\<open>l * l + m * m + n * n\<close>, evaluated left to right. It is the
  only arithmetic inside the loops that can leave the range of \<^verbatim>\<open>int\<close> first: a
  counter that could not be incremented has a square that overflows in the same
  iteration, and \<^verbatim>\<open>-kmax\<close> is taken of a non-negative \<^verbatim>\<open>kmax\<close> only.
\<close>

definition ksq_int :: "int \<Rightarrow> int \<Rightarrow> int \<Rightarrow> fault + int" where
  "ksq_int l m n =
     (case cint (l * l) of Inl e \<Rightarrow> Inl e
      | Inr ll \<Rightarrow>
     (case cint (m * m) of Inl e \<Rightarrow> Inl e
      | Inr mm \<Rightarrow>
     (case cint (ll + mm) of Inl e \<Rightarrow> Inl e
      | Inr lm \<Rightarrow>
     (case cint (n * n) of Inl e \<Rightarrow> Inl e
      | Inr nn \<Rightarrow> cint (lm + nn)))))"

text \<open>The body of the innermost loop (lines 73 to 81).\<close>

definition initWaves_body :: "int \<Rightarrow> int \<Rightarrow> int \<Rightarrow> int \<Rightarrow> Wave list \<Rightarrow> fault + Wave list" where
  "initWaves_body kmaxsq l m n waves =
     (case ksq_int l m n of Inl e \<Rightarrow> Inl e
      | Inr k \<Rightarrow>
          (let ksq = real_of_int k in
           if ksq \<le> real_of_int kmaxsq
           then Inr (waves @ [\<lparr>K = (real_of_int l, real_of_int m, real_of_int n),
                               REAL = 0, IMAG = 0\<rparr>])
           else Inr waves))"

definition initWaves :: "Ewald2 \<Rightarrow> fault + Wave list" where
  "initWaves E =
     (case cint (ksize E * ksize E) of Inl e \<Rightarrow> Inl e
      | Inr kmaxsq \<Rightarrow>
          (let kmax = ksize E in
           for_each [0..kmax] (\<lambda>l waves.
             let mmin = (if l = 0 then 0 else - kmax) in
             for_each [mmin..kmax] (\<lambda>m waves.
               let nmin = (if l = 0 \<and> m = 0 then 1 else - kmax) in
               for_each [nmin..kmax] (\<lambda>n waves. initWaves_body kmaxsq l m n waves) waves)
             waves)
           []))"

text \<open>Modelled from the spec: the wave set of section 4.1, in the spec's words.\<close>

definition wave_set :: "int \<Rightarrow> (int \<times> int \<times> int) set" where
  "wave_set k =
     {(l, m, n). l * l + m * m + n * n \<le> k * k \<and> (l, m, n) \<noteq> (0, 0, 0) \<and>
        0 \<le> l \<and> l \<le> k \<and>
        (l = 0 \<longrightarrow> 0 \<le> m \<and> m \<le> k) \<and>
        (l = 0 \<and> m = 0 \<longrightarrow> 0 < n)}"

text \<open>The full symmetric shell of radius \<open>k\<close>: every non-zero lattice point of the ball.\<close>

definition full_shell :: "int \<Rightarrow> (int \<times> int \<times> int) set" where
  "full_shell k = {(l, m, n). l * l + m * m + n * n \<le> k * k \<and> (l, m, n) \<noteq> (0, 0, 0)}"

text \<open>The lattice point of a wave as a \<^verbatim>\<open>vec3\<close>.\<close>

definition vec_of_int :: "int \<times> int \<times> int \<Rightarrow> vec3" where
  "vec_of_int v = (case v of (l, m, n) \<Rightarrow> (real_of_int l, real_of_int m, real_of_int n))"

text \<open>Two notions used in the proofs: a fresh wave, and the points in the order of the loops.\<close>

definition mkWave :: "int \<times> int \<times> int \<Rightarrow> Wave" where
  "mkWave v = \<lparr>K = vec_of_int v, REAL = 0, IMAG = 0\<rparr>"

definition lattice_list :: "int \<Rightarrow> (int \<times> int \<times> int) list" where
  "lattice_list k =
     concat (map (\<lambda>l. concat (map (\<lambda>m. concat (map (\<lambda>n.
        if l * l + m * m + n * n \<le> k * k then [(l, m, n)] else [])
        [(if l = 0 \<and> m = 0 then 1 else - k)..k]))
        [(if l = 0 then 0 else - k)..k]))
        [0..k])"

subsection \<open>dft (lines 26 to 40) and idft (lines 43 to 59)\<close>

text \<open>
  \<^verbatim>\<open>Jbodies\<close> and \<^verbatim>\<open>Ibodies\<close> are arrays of \<^verbatim>\<open>vec4\<close>: a source body is its position
  followed by its source strength, a target body its potential followed by the three
  force components. The two arrays are distinct.
\<close>

fun src4 :: "vec4 \<Rightarrow> real" where
  "src4 (x0, x1, x2, q) = q"

text \<open>The scale conversion \<^verbatim>\<open>scale[d] = 2 * M_PI / cycle[d]\<close>.\<close>

definition scale_of :: "vec3 \<Rightarrow> fault + vec3" where
  "scale_of c =
     (case c of (c0, c1, c2) \<Rightarrow>
     (case fdiv (2 * M_PI) c0 of Inl e \<Rightarrow> Inl e
      | Inr s0 \<Rightarrow>
     (case fdiv (2 * M_PI) c1 of Inl e \<Rightarrow> Inl e
      | Inr s1 \<Rightarrow>
     (case fdiv (2 * M_PI) c2 of Inl e \<Rightarrow> Inl e
      | Inr s2 \<Rightarrow> Inr (s0, s1, s2)))))"

text \<open>The phase \<^verbatim>\<open>th\<close> of a wave number at a body: it starts at 0 and gains one term per axis.\<close>

fun phase :: "vec3 \<Rightarrow> vec4 \<Rightarrow> vec3 \<Rightarrow> real" where
  "phase (k0, k1, k2) (x0, x1, x2, q) (s0, s1, s2) =
     0 + k0 * x0 * s0 + k1 * x1 * s1 + k2 * x2 * s2"

text \<open>
  Modelled from the spec: the phase of sections 4.2 and 4.4 in the spec's words,
  \<open>\<theta> = \<Sum>\<^sub>d K[d] * x[d] * (2\<pi> / cycle[d])\<close>, for a body \<open>J\<close> and the box lengths \<open>cycle\<close>.
\<close>

definition theta :: "vec3 \<Rightarrow> vec4 \<Rightarrow> vec3 \<Rightarrow> real" where
  "theta Kw J cycle' =
     (case (Kw, J, cycle') of ((k0, k1, k2), (x0, x1, x2, q), (c0, c1, c2)) \<Rightarrow>
        k0 * x0 * (2 * pi / c0) + k1 * x1 * (2 * pi / c1) + k2 * x2 * (2 * pi / c2))"

text \<open>
  Modelled from the spec: what section 4.4 adds to the target values of a body \<open>J\<close>, in
  the spec's words: the potential \<open>\<Sum>\<^sub>W (real * cos \<theta> + imag * sin \<theta>)\<close> and, for axis \<open>d\<close>, the
  force \<open>- (\<Sum>\<^sub>W dtmp * K[d])\<close> times the axis factor \<open>2\<pi> / cycle[d]\<close>, with
  \<open>dtmp = real * sin \<theta> - imag * cos \<theta>\<close>.
\<close>

definition idft_increment :: "Wave list \<Rightarrow> vec4 \<Rightarrow> vec3 \<Rightarrow> vec4" where
  "idft_increment waves J cycle' =
     (case cycle' of (c0, c1, c2) \<Rightarrow>
       ((\<Sum>W\<leftarrow>waves. REAL W * cos (theta (K W) J cycle') + IMAG W * sin (theta (K W) J cycle')),
        - (\<Sum>W\<leftarrow>waves. (REAL W * sin (theta (K W) J cycle') - IMAG W * cos (theta (K W) J cycle'))
              * fst (K W)) * (2 * pi / c0),
        - (\<Sum>W\<leftarrow>waves. (REAL W * sin (theta (K W) J cycle') - IMAG W * cos (theta (K W) J cycle'))
              * fst (snd (K W))) * (2 * pi / c1),
        - (\<Sum>W\<leftarrow>waves. (REAL W * sin (theta (K W) J cycle') - IMAG W * cos (theta (K W) J cycle'))
              * snd (snd (K W))) * (2 * pi / c2)))"

text \<open>One body added to a wave (lines 34 to 37).\<close>

definition dft_body :: "vec3 \<Rightarrow> vec4 list \<Rightarrow> nat \<Rightarrow> Wave \<Rightarrow> fault + Wave" where
  "dft_body scale Jbodies b W =
     (case elem_at Jbodies b of Inl e \<Rightarrow> Inl e
      | Inr J \<Rightarrow>
          (let th = phase (K W) J scale in
           Inr (W\<lparr>REAL := REAL W + src4 J * cos th, IMAG := IMAG W + src4 J * sin th\<rparr>)))"

text \<open>
  The conversion \<^verbatim>\<open>int(n)\<close> of an unsigned size \<open>n\<close>: the value that agrees with \<open>n\<close> modulo
  \<open>2\<^sup>3\<^sup>2\<close> and lies in the range of \<^verbatim>\<open>int\<close>. It is \<open>n\<close> itself up to \<open>INT_MAX\<close>, and negative from
  \<open>2\<^sup>3\<^sup>1\<close> to \<open>2\<^sup>3\<^sup>2 - 1\<close>.
\<close>

definition int_of_size :: "nat \<Rightarrow> int" where
  "int_of_size n = (int n + 2147483648) mod 4294967296 - 2147483648"

text \<open>The body of the loop over waves (lines 31 to 38): wave \<open>w\<close> is reset and gains every body.\<close>

definition dft_wave :: "vec3 \<Rightarrow> vec4 list \<Rightarrow> int \<Rightarrow> nat \<Rightarrow> Wave list \<Rightarrow> fault + Wave list" where
  "dft_wave scale Jbodies numBodies w waves =
     (case elem_at waves w of Inl e \<Rightarrow> Inl e
      | Inr W \<Rightarrow>
          (case for_each [0..<nat numBodies] (dft_body scale Jbodies) (W\<lparr>REAL := 0, IMAG := 0\<rparr>) of
             Inl e \<Rightarrow> Inl e
           | Inr W' \<Rightarrow> Inr (waves[w := W'])))"

text \<open>The loop over waves runs for \<^verbatim>\<open>w = 0\<close> while \<^verbatim>\<open>w < int(waves.size())\<close> (line 30).\<close>

definition dft :: "Ewald2 \<Rightarrow> Wave list \<Rightarrow> vec4 list \<Rightarrow> int \<Rightarrow> fault + Wave list" where
  "dft E waves Jbodies numBodies =
     (case scale_of (cycle E) of Inl e \<Rightarrow> Inl e
      | Inr scale \<Rightarrow>
          for_each [0..<nat (int_of_size (length waves))] (dft_wave scale Jbodies numBodies) waves)"

text \<open>One wave added to the target values \<^verbatim>\<open>TRG\<close> of a body (lines 50 to 54).\<close>

definition idft_wave :: "vec3 \<Rightarrow> vec4 list \<Rightarrow> nat \<Rightarrow> Wave \<Rightarrow> vec4 \<Rightarrow> fault + vec4" where
  "idft_wave scale Jbodies b W TRG =
     (case elem_at Jbodies b of Inl e \<Rightarrow> Inl e
      | Inr J \<Rightarrow>
          (case (K W, TRG) of ((k0, k1, k2), (t0, t1, t2, t3)) \<Rightarrow>
             (let th = phase (K W) J scale;
                  dtmp = REAL W * sin th - IMAG W * cos th
              in Inr (t0 + (REAL W * cos th + IMAG W * sin th),
                      t1 - dtmp * k0, t2 - dtmp * k1, t3 - dtmp * k2))))"

text \<open>The body of the loop over bodies (lines 48 to 57).\<close>

definition idft_body :: "vec3 \<Rightarrow> Wave list \<Rightarrow> vec4 list \<Rightarrow> nat \<Rightarrow> vec4 list \<Rightarrow> fault + vec4 list" where
  "idft_body scale waves Jbodies b Ibodies =
     (case for_each waves (idft_wave scale Jbodies b) (0, 0, 0, 0) of Inl e \<Rightarrow> Inl e
      | Inr TRG \<Rightarrow>
          (case (TRG, scale) of ((t0, t1, t2, t3), (s0, s1, s2)) \<Rightarrow>
             (case elem_at Ibodies b of Inl e \<Rightarrow> Inl e
              | Inr I \<Rightarrow> Inr (Ibodies[b := vadd4 I (t0, t1 * s0, t2 * s1, t3 * s2)]))))"

definition idft :: "Ewald2 \<Rightarrow> Wave list \<Rightarrow> vec4 list \<Rightarrow> vec4 list \<Rightarrow> int \<Rightarrow> fault + vec4 list" where
  "idft E waves Ibodies Jbodies numBodies =
     (case scale_of (cycle E) of Inl e \<Rightarrow> Inl e
      | Inr scale \<Rightarrow>
          for_each [0..<nat numBodies] (idft_body scale waves Jbodies) Ibodies)"

subsection \<open>wavePart (lines 160 to 177)\<close>

text \<open>The first constant, \<^verbatim>\<open>coef = 2 / sigma / cycle[0] / cycle[1] / cycle[2]\<close>.\<close>

definition wave_coef :: "Ewald2 \<Rightarrow> fault + real" where
  "wave_coef E =
     (case cycle E of (c0, c1, c2) \<Rightarrow>
     (case fdiv 2 (sigma E) of Inl e \<Rightarrow> Inl e
      | Inr a \<Rightarrow>
     (case fdiv a c0 of Inl e \<Rightarrow> Inl e
      | Inr b \<Rightarrow>
     (case fdiv b c1 of Inl e \<Rightarrow> Inl e
      | Inr c \<Rightarrow> fdiv c c2))))"

text \<open>The body of the loop over waves (lines 169 to 173).\<close>

definition wave_factor :: "vec3 \<Rightarrow> real \<Rightarrow> real \<Rightarrow> Wave \<Rightarrow> fault + Wave" where
  "wave_factor scale coef coef2 W =
     (let K' = vmul (K W) scale;
          K2 = norm_vec3 K'
      in case fdiv (coef * exp (- K2 * coef2)) K2 of Inl e \<Rightarrow> Inl e
         | Inr factor \<Rightarrow> Inr (W\<lparr>REAL := REAL W * factor, IMAG := IMAG W * factor\<rparr>))"

text \<open>The reciprocal filter: lines 164 to 174, between the two transforms.\<close>

definition wavePart_filter :: "Ewald2 \<Rightarrow> Wave list \<Rightarrow> fault + Wave list" where
  "wavePart_filter E waves =
     (case scale_of (cycle E) of Inl e \<Rightarrow> Inl e
      | Inr scale \<Rightarrow>
     (case wave_coef E of Inl e \<Rightarrow> Inl e
      | Inr coef \<Rightarrow>
     (case fdiv 1 (4 * alpha E * alpha E) of Inl e \<Rightarrow> Inl e
      | Inr coef2 \<Rightarrow> map_each (wave_factor scale coef coef2) waves)))"

text \<open>
  Modelled from the spec: the factor of section 4.3 in the spec's words. \<open>K2_scaled\<close> is
  \<open>K\<^sup>2 = |K|\<^sup>2\<close> for the wave number scaled componentwise by \<open>2\<pi> / cycle[d]\<close>, and the
  factor is \<open>coef * exp (- K\<^sup>2 / (4 * alpha\<^sup>2)) / K\<^sup>2\<close> with
  \<open>coef = 2 / (sigma * cycle_x * cycle_y * cycle_z)\<close>.
\<close>

definition K2_scaled :: "vec3 \<Rightarrow> vec3 \<Rightarrow> real" where
  "K2_scaled Kw cycle' =
     (case (Kw, cycle') of ((k0, k1, k2), (c0, c1, c2)) \<Rightarrow>
        (k0 * (2 * pi / c0))\<^sup>2 + (k1 * (2 * pi / c1))\<^sup>2 + (k2 * (2 * pi / c2))\<^sup>2)"

definition filter_factor :: "Ewald2 \<Rightarrow> vec3 \<Rightarrow> real" where
  "filter_factor E Kw =
     (case cycle E of (c0, c1, c2) \<Rightarrow>
        2 / (sigma E * c0 * c1 * c2)
          * exp (- K2_scaled Kw (cycle E) / (4 * (alpha E)\<^sup>2)) / K2_scaled Kw (cycle E))"

text \<open>The timer calls \<^verbatim>\<open>start\<close> and \<^verbatim>\<open>stop\<close> of timer.h touch no data of the class and are left out.\<close>

definition wavePart :: "Ewald2 \<Rightarrow> vec4 list \<Rightarrow> vec4 list \<Rightarrow> int \<Rightarrow> fault + vec4 list" where
  "wavePart E Ibodies Jbodies numBodies =
     (case initWaves E of Inl e \<Rightarrow> Inl e
      | Inr waves \<Rightarrow>
     (case dft E waves Jbodies numBodies of Inl e \<Rightarrow> Inl e
      | Inr waves \<Rightarrow>
     (case wavePart_filter E waves of Inl e \<Rightarrow> Inl e
      | Inr waves \<Rightarrow> idft E waves Ibodies Jbodies numBodies)))"

subsection \<open>Bodies and cells\<close>

text \<open>
  Modelled from the spec: the structures \<^verbatim>\<open>Body\<close> and \<^verbatim>\<open>Cell\<close> of types.h, which is
  not among the sources, with the fields that ewald2.h reads and writes. A body has a
  position \<open>X\<close>, a source strength \<open>SRC\<close>, the target values \<open>TRG\<close> (the potential
  followed by three force components) and the bookkeeping \<open>IBODY\<close>, \<open>ICELL\<close>,
  \<open>WEIGHT\<close>. A cell has a centre \<open>X\<close>, a radius \<open>R\<close>, \<open>NCHILD\<close> children starting at
  \<open>ICHILD\<close> in the vector of cells, and \<open>NBODY\<close> bodies starting at \<open>BODY\<close>.

  The body iterators of all cells point into one vector of bodies, the state that the
  real-space functions update; \<open>BODY\<close> is an index into it. A target cell and a source
  cell may share bodies.
\<close>

record Body =
  IBODY :: int
  ICELL :: nat
  WEIGHT :: real
  X :: vec3
  SRC :: real
  TRG :: vec4

record Cell =
  ICHILD :: nat
  NCHILD :: nat
  BODY :: nat
  NBODY :: nat
  X :: vec3
  R :: real

subsection \<open>P2P (lines 89 to 109)\<close>

text \<open>
  The body of the two loops (lines 92 to 106) for the target body \<open>Bi\<close> and the source
  body \<open>Bj\<close>: the new value of the target body.
\<close>

definition P2P_pair :: "(real \<Rightarrow> real) \<Rightarrow> Ewald2 \<Rightarrow> vec3 \<Rightarrow> Body \<Rightarrow> Body \<Rightarrow> fault + Body" where
  "P2P_pair erfc E Xperiodic Bi Bj =
     (let dX = vsub (vsub (Body.X Bi) (Body.X Bj)) Xperiodic;
          R2 = norm_vec3 dX
      in if 0 < R2 \<and> R2 < cutoff E * cutoff E then
           (let R2s = R2 * alpha E * alpha E;
                Rs = sqrt R2s
            in case fdiv 1 Rs of Inl e \<Rightarrow> Inl e
               | Inr invRs \<Rightarrow>
                   (let invR2s = invRs * invRs;
                        invR3s = invR2s * invRs;
                        dtmp = SRC Bj * (M_2_SQRTPI * exp (- R2s) * invR2s + erfc Rs * invR3s);
                        dtmp = dtmp * (alpha E * alpha E * alpha E)
                    in case (dX, TRG Bi) of ((d0, d1, d2), (t0, t1, t2, t3)) \<Rightarrow>
                         Inr (Bi\<lparr>TRG := (t0 + SRC Bj * erfc Rs * invRs * alpha E,
                                        t1 - d0 * dtmp, t2 - d1 * dtmp, t3 - d2 * dtmp)\<rparr>)))
         else Inr Bi)"

definition P2P :: "(real \<Rightarrow> real) \<Rightarrow> Ewald2 \<Rightarrow> Cell \<Rightarrow> Cell \<Rightarrow> vec3 \<Rightarrow> Body list \<Rightarrow> fault + Body list" where
  "P2P erfc E Ci Cj Xperiodic bodies =
     for_each [BODY Ci..<BODY Ci + NBODY Ci] (\<lambda>i bodies.
       for_each [BODY Cj..<BODY Cj + NBODY Cj] (\<lambda>j bodies.
         case elem_at bodies i of Inl e \<Rightarrow> Inl e
         | Inr Bi \<Rightarrow>
        (case elem_at bodies j of Inl e \<Rightarrow> Inl e
         | Inr Bj \<Rightarrow>
        (case P2P_pair erfc E Xperiodic Bi Bj of Inl e \<Rightarrow> Inl e
         | Inr Bi' \<Rightarrow> Inr (bodies[i := Bi']))))
       bodies)
     bodies"

text \<open>
  Modelled from the spec: the contribution of section 4.6 in the spec's words, for the
  distance vector \<open>dX\<close> and the source strength \<open>q\<close>: with \<open>R\<^sup>2 = |dX|\<^sup>2\<close> and \<open>Rs = R * alpha\<close>,
  the potential \<open>q * erfc Rs / (R * alpha) * alpha\<close> and the force \<open>- dX[d] * dtmp\<close> on axis
  \<open>d\<close>, where \<open>dtmp = q * (2/\<surd>\<pi> * exp (- Rs\<^sup>2) / Rs\<^sup>2 + erfc Rs / Rs\<^sup>3) * alpha\<^sup>3\<close>.
\<close>

definition P2P_contribution :: "(real \<Rightarrow> real) \<Rightarrow> Ewald2 \<Rightarrow> vec3 \<Rightarrow> real \<Rightarrow> vec4" where
  "P2P_contribution erfc E dX q =
     (case dX of (d0, d1, d2) \<Rightarrow>
        (let R = sqrt (norm_vec3 dX);
             Rs = R * alpha E;
             dtmp = q * (2 / sqrt pi * exp (- Rs\<^sup>2) / Rs\<^sup>2 + erfc Rs / Rs ^ 3) * alpha E ^ 3
         in (q * erfc Rs / (R * alpha E) * alpha E, - d0 * dtmp, - d1 * dtmp, - d2 * dtmp)))"

text \<open>
  What the source body \<open>Bj\<close> adds to the target values of the target body \<open>Bi\<close>: the
  contribution when \<open>0 < R\<^sup>2 < cutoff\<^sup>2\<close>, and nothing otherwise.
\<close>

definition P2P_increment :: "(real \<Rightarrow> real) \<Rightarrow> Ewald2 \<Rightarrow> vec3 \<Rightarrow> Body \<Rightarrow> Body \<Rightarrow> vec4" where
  "P2P_increment erfc E Xperiodic Bi Bj =
     (let dX = vsub (vsub (Body.X Bi) (Body.X Bj)) Xperiodic;
          R2 = norm_vec3 dX
      in if 0 < R2 \<and> R2 < (cutoff E)\<^sup>2 then P2P_contribution erfc E dX (SRC Bj)
         else (0, 0, 0, 0))"

text \<open>The target body \<open>Bi\<close> after the source bodies at the indices \<open>js\<close> of \<open>bodies\<close>.\<close>

definition P2P_target :: "(real \<Rightarrow> real) \<Rightarrow> Ewald2 \<Rightarrow> vec3 \<Rightarrow> Body list \<Rightarrow> nat list \<Rightarrow> Body \<Rightarrow> Body" where
  "P2P_target erfc E Xperiodic bodies js Bi =
     Bi\<lparr>TRG := foldl vadd4 (TRG Bi) (map (\<lambda>j. P2P_increment erfc E Xperiodic Bi (bodies ! j)) js)\<rparr>"

text \<open>The bodies \<open>cur\<close> have the positions and source strengths of \<open>bodies\<close>.\<close>

definition same_sources :: "Body list \<Rightarrow> Body list \<Rightarrow> bool" where
  "same_sources bodies cur \<longleftrightarrow>
     length cur = length bodies \<and>
     (\<forall>k < length bodies. Body.X (cur ! k) = Body.X (bodies ! k) \<and> SRC (cur ! k) = SRC (bodies ! k))"

subsection \<open>The functor Neighbor (lines 112 to 132) and realPart (lines 140 to 150)\<close>

text \<open>
  The constant \<^verbatim>\<open>sqrtf(3)\<close> of line 124: the square root of 3 in single precision, which is
  the \<^verbatim>\<open>float\<close> nearest to \<open>\<surd>3\<close>, \<open>14529495 / 2\<^sup>2\<^sup>3\<close>. It is below \<open>\<surd>3\<close>, by a little more than
  \<open>3 / 10\<^sup>8\<close>.
\<close>

definition sqrtf_3 :: real where
  "sqrtf_3 = 14529495 / 8388608"

text \<open>
  The test of line 124 for a target cell and a source cell, with the wrapped distance
  vector \<open>dX\<close>.
\<close>

definition cells_close :: "Ewald2 \<Rightarrow> Cell \<Rightarrow> Cell \<Rightarrow> vec3 \<Rightarrow> bool" where
  "cells_close E Ci Cj dX =
     (let R = sqrt (norm_vec3 dX) in R - Cell.R Ci - Cell.R Cj < sqrtf_3 * cutoff E)"

text \<open>
  \<^verbatim>\<open>operator()\<close> of the functor built from the target cell \<open>Ci\<close>, the source cell at
  index \<open>j\<close> of the vector \<open>jcells\<close> and the first source cell \<^verbatim>\<open>C0\<close>, the start of
  \<open>jcells\<close>. The call \<^verbatim>\<open>ewald2->P2P\<close> is the parameter \<open>p2p\<close>, a function on a state
  \<open>s\<close>: \<open>realPart\<close> passes \<open>P2P\<close> on the bodies, and the theorems also pass a
  function that records its arguments. The recursion follows the child indices of the
  cells, which a malformed vector of cells can make cyclic: it is bounded by fuel.
\<close>

fun Neighbor :: "nat \<Rightarrow> (Cell \<Rightarrow> Cell \<Rightarrow> vec3 \<Rightarrow> 's \<Rightarrow> fault + 's) \<Rightarrow> (vec3 \<Rightarrow> vec3 \<Rightarrow> vec3) \<Rightarrow>
    Ewald2 \<Rightarrow> Cell \<Rightarrow> Cell list \<Rightarrow> nat \<Rightarrow> 's \<Rightarrow> fault + 's" where
  "Neighbor 0 p2p wrap E Ci jcells j s = Inl OutOfFuel"
| "Neighbor (Suc fuel) p2p wrap E Ci jcells j s =
     (case elem_at jcells j of Inl e \<Rightarrow> Inl e
      | Inr Cj \<Rightarrow>
          (let dX = vsub (Cell.X Ci) (Cell.X Cj);
               dX = wrap dX (cycle E);
               Xperiodic = vsub (vsub (Cell.X Ci) (Cell.X Cj)) dX
           in if cells_close E Ci Cj dX then
                (case (if NCHILD Cj = 0 then p2p Ci Cj Xperiodic s else Inr s) of
                   Inl e \<Rightarrow> Inl e
                 | Inr s' \<Rightarrow>
                     for_each [ICHILD Cj..<ICHILD Cj + NCHILD Cj]
                       (\<lambda>CC s. Neighbor fuel p2p wrap E Ci jcells CC s) s')
              else Inr s))"

text \<open>The loop of \<^verbatim>\<open>realPart\<close> over the target cells, for any \<open>p2p\<close>.\<close>

definition realPart_cells :: "nat \<Rightarrow> (Cell \<Rightarrow> Cell \<Rightarrow> vec3 \<Rightarrow> 's \<Rightarrow> fault + 's) \<Rightarrow> (vec3 \<Rightarrow> vec3 \<Rightarrow> vec3) \<Rightarrow>
    Ewald2 \<Rightarrow> Cell list \<Rightarrow> Cell list \<Rightarrow> 's \<Rightarrow> fault + 's" where
  "realPart_cells fuel p2p wrap E cells jcells s =
     for_each cells (\<lambda>Ci s.
       if NCHILD Ci = 0 then Neighbor fuel p2p wrap E Ci jcells 0 s else Inr s)
     s"

definition realPart :: "nat \<Rightarrow> (real \<Rightarrow> real) \<Rightarrow> (vec3 \<Rightarrow> vec3 \<Rightarrow> vec3) \<Rightarrow> Ewald2 \<Rightarrow>
    Cell list \<Rightarrow> Cell list \<Rightarrow> Body list \<Rightarrow> fault + Body list" where
  "realPart fuel erfc wrap E cells jcells bodies =
     realPart_cells fuel (P2P erfc E) wrap E cells jcells bodies"

text \<open>The function that records a call of \<^verbatim>\<open>P2P\<close> instead of making it.\<close>

definition record_call :: "Cell \<Rightarrow> Cell \<Rightarrow> vec3 \<Rightarrow> (Cell \<times> Cell \<times> vec3) list \<Rightarrow> fault + (Cell \<times> Cell \<times> vec3) list" where
  "record_call Ci Cj Xperiodic calls = Inr (calls @ [(Ci, Cj, Xperiodic)])"

text \<open>Making a recorded call: \<open>replay p2p\<close> applied to the calls in their order.\<close>

definition replay :: "(Cell \<Rightarrow> Cell \<Rightarrow> vec3 \<Rightarrow> 's \<Rightarrow> fault + 's) \<Rightarrow> Cell \<times> Cell \<times> vec3 \<Rightarrow> 's \<Rightarrow> fault + 's" where
  "replay p2p call s = (case call of (Ci, Cj, Xperiodic) \<Rightarrow> p2p Ci Cj Xperiodic s)"

text \<open>
  The quantities of lines 120 to 124 for a target cell and a source cell: the wrapped
  distance vector, the periodic offset derived from it, and the test for close cells.
\<close>

definition wrapped_dX :: "(vec3 \<Rightarrow> vec3 \<Rightarrow> vec3) \<Rightarrow> Ewald2 \<Rightarrow> Cell \<Rightarrow> Cell \<Rightarrow> vec3" where
  "wrapped_dX wrap E Ci Cj = wrap (vsub (Cell.X Ci) (Cell.X Cj)) (cycle E)"

definition periodic_offset :: "(vec3 \<Rightarrow> vec3 \<Rightarrow> vec3) \<Rightarrow> Ewald2 \<Rightarrow> Cell \<Rightarrow> Cell \<Rightarrow> vec3" where
  "periodic_offset wrap E Ci Cj = vsub (vsub (Cell.X Ci) (Cell.X Cj)) (wrapped_dX wrap E Ci Cj)"

definition close_to :: "(vec3 \<Rightarrow> vec3 \<Rightarrow> vec3) \<Rightarrow> Ewald2 \<Rightarrow> Cell \<Rightarrow> Cell \<Rightarrow> bool" where
  "close_to wrap E Ci Cj \<longleftrightarrow>
     sqrt (norm_vec3 (wrapped_dX wrap E Ci Cj)) - Cell.R Ci - Cell.R Cj < sqrtf_3 * cutoff E"

text \<open>
  The source cells that the traversal from the cell at index \<open>root\<close> reaches for the
  target cell \<open>Ci\<close>: the root, and every child of a reached cell that is close to \<open>Ci\<close>.
\<close>

inductive visited :: "(vec3 \<Rightarrow> vec3 \<Rightarrow> vec3) \<Rightarrow> Ewald2 \<Rightarrow> Cell \<Rightarrow> Cell list \<Rightarrow> nat \<Rightarrow> nat \<Rightarrow> bool"
  for wrap E Ci jcells root where
  root: "visited wrap E Ci jcells root root"
| child: "visited wrap E Ci jcells root j \<Longrightarrow> j < length jcells \<Longrightarrow>
          close_to wrap E Ci (jcells ! j) \<Longrightarrow>
          ICHILD (jcells ! j) \<le> k \<Longrightarrow> k < ICHILD (jcells ! j) + NCHILD (jcells ! j) \<Longrightarrow>
          visited wrap E Ci jcells root k"

text \<open>
  The calls of \<^verbatim>\<open>P2P\<close> that the traversal from the cell at index \<open>j\<close> owes: one for every
  reached source cell that is close to \<open>Ci\<close> and a leaf, with the periodic offset of the
  pair.
\<close>

definition leaf_calls :: "(vec3 \<Rightarrow> vec3 \<Rightarrow> vec3) \<Rightarrow> Ewald2 \<Rightarrow> Cell \<Rightarrow> Cell list \<Rightarrow> nat \<Rightarrow> (Cell \<times> Cell \<times> vec3) set" where
  "leaf_calls wrap E Ci jcells j =
     {(Ci, jcells ! k, periodic_offset wrap E Ci (jcells ! k)) | k.
        visited wrap E Ci jcells j k \<and> k < length jcells \<and>
        close_to wrap E Ci (jcells ! k) \<and> NCHILD (jcells ! k) = 0}"

text \<open>
  A vector of cells in which the children of every cell lie inside the vector and after
  the cell, as in a tree stored parents first.
\<close>

definition children_follow :: "Cell list \<Rightarrow> bool" where
  "children_follow jcells \<longleftrightarrow>
     (\<forall>j < length jcells. NCHILD (jcells ! j) \<noteq> 0 \<longrightarrow>
        j < ICHILD (jcells ! j) \<and> ICHILD (jcells ! j) + NCHILD (jcells ! j) \<le> length jcells)"

subsection \<open>selfTerm (lines 153 to 157)\<close>

definition selfTerm :: "Ewald2 \<Rightarrow> Body list \<Rightarrow> Body list" where
  "selfTerm E bodies =
     map (\<lambda>B. case TRG B of (t0, t1, t2, t3) \<Rightarrow>
            B\<lparr>TRG := (t0 - M_2_SQRTPI * SRC B * alpha E, t1, t2, t3)\<rparr>)
       bodies"

subsection \<open>getDipole (lines 180 to 186) and dipoleCorrection (lines 189 to 197)\<close>

text \<open>
  \<^verbatim>\<open>getDipole\<close> takes the bodies by reference; the model returns the dipole together with
  the bodies as the function leaves them.
\<close>

definition getDipole :: "Body list \<Rightarrow> vec3 \<Rightarrow> vec3 \<times> Body list" where
  "getDipole bodies X0 =
     (fold (\<lambda>B dipole. vadd dipole (vscale (vsub (Body.X B) X0) (Re (complex_of_real (SRC B)))))
        bodies (0, 0, 0),
      bodies)"

text \<open>The body of the loop over bodies (lines 192 to 195), with the constant \<^verbatim>\<open>coef\<close>.\<close>

definition dipoleCorrection_body :: "real \<Rightarrow> vec3 \<Rightarrow> int \<Rightarrow> Body \<Rightarrow> fault + Body" where
  "dipoleCorrection_body coef dipole numBodies B =
     (case fdiv (coef * norm_vec3 dipole) (real_of_int numBodies) of Inl e \<Rightarrow> Inl e
      | Inr p \<Rightarrow>
     (case fdiv p (SRC B) of Inl e \<Rightarrow> Inl e
      | Inr p' \<Rightarrow>
         (case (TRG B, dipole) of ((t0, t1, t2, t3), (d0, d1, d2)) \<Rightarrow>
            Inr (B\<lparr>TRG := (t0 - p', t1 - coef * d0, t2 - coef * d1, t3 - coef * d2)\<rparr>))))"

definition dipoleCorrection :: "Body list \<Rightarrow> vec3 \<Rightarrow> int \<Rightarrow> vec3 \<Rightarrow> fault + Body list" where
  "dipoleCorrection bodies dipole numBodies cycle' =
     (case cycle' of (c0, c1, c2) \<Rightarrow>
     (case fdiv (4 * M_PI) (3 * c0 * c1 * c2) of Inl e \<Rightarrow> Inl e
      | Inr coef \<Rightarrow> map_each (dipoleCorrection_body coef dipole numBodies) bodies))"

text \<open>
  Modelled from the spec: the new value of a body under the dipole correction, in the
  words of section 4.7, with \<open>V = cycle_x * cycle_y * cycle_z\<close>.
\<close>

definition dipole_corrected :: "vec3 \<Rightarrow> int \<Rightarrow> vec3 \<Rightarrow> Body \<Rightarrow> Body" where
  "dipole_corrected dipole numBodies cycle' B =
     (case (TRG B, dipole, cycle') of ((t0, t1, t2, t3), (d0, d1, d2), (c0, c1, c2)) \<Rightarrow>
        B\<lparr>TRG := (t0 - 4 * pi / (3 * (c0 * c1 * c2)) * (d0 * d0 + d1 * d1 + d2 * d2)
                          / (real_of_int numBodies * SRC B),
                   t1 - 4 * pi / (3 * (c0 * c1 * c2)) * d0,
                   t2 - 4 * pi / (3 * (c0 * c1 * c2)) * d1,
                   t3 - 4 * pi / (3 * (c0 * c1 * c2)) * d2)\<rparr>)"

section \<open>Properties\<close>

subsection \<open>The wave set\<close>

lemma for_each_append:
  "for_each (xs @ ys) body s =
     (case for_each xs body s of Inl e \<Rightarrow> Inl e | Inr s' \<Rightarrow> for_each ys body s')"
  by (induction xs arbitrary: s) (auto split: sum.splits)

lemma for_each_collect:
  "(\<And>x s. x \<in> set xs \<Longrightarrow> body x s = Inr (s @ g x)) \<Longrightarrow>
   for_each xs body s = Inr (s @ concat (map g xs))"
  by (induction xs arbitrary: s) auto

lemma sq_le_bound:
  fixes l :: int
  assumes "\<bar>l\<bar> \<le> B"
  shows "l * l \<le> B * B" and "0 \<le> l * l"
proof -
  have "\<bar>l\<bar> * \<bar>l\<bar> \<le> B * B"
    using assms by (intro mult_mono) auto
  then show "l * l \<le> B * B" by (simp add: abs_mult_self_eq)
  show "0 \<le> l * l" by simp
qed

lemma cint_nonneg: "0 \<le> i \<Longrightarrow> i \<le> INT_MAX \<Longrightarrow> cint i = Inr i"
  by (simp add: cint_def INT_MIN_def)

lemma ksq_int_in_range:
  assumes "\<bar>l\<bar> \<le> B" "\<bar>m\<bar> \<le> B" "\<bar>n\<bar> \<le> B" "3 * (B * B) \<le> INT_MAX"
  shows "ksq_int l m n = Inr (l * l + m * m + n * n)"
proof -
  note b = sq_le_bound[OF assms(1)] sq_le_bound[OF assms(2)] sq_le_bound[OF assms(3)]
  have 1: "cint (l * l) = Inr (l * l)" using b assms(4) by (intro cint_nonneg) linarith+
  have 2: "cint (m * m) = Inr (m * m)" using b assms(4) by (intro cint_nonneg) linarith+
  have 3: "cint (l * l + m * m) = Inr (l * l + m * m)" using b assms(4) by (intro cint_nonneg) linarith+
  have 4: "cint (n * n) = Inr (n * n)" using b assms(4) by (intro cint_nonneg) linarith+
  have 5: "cint (l * l + m * m + n * n) = Inr (l * l + m * m + n * n)"
    using b assms(4) by (intro cint_nonneg) linarith+
  show ?thesis by (simp add: ksq_int_def 1 2 3 4 5)
qed

lemma initWaves_list:
  assumes k: "0 \<le> ksize E" and b: "3 * (ksize E * ksize E) \<le> INT_MAX"
  shows "initWaves E = Inr (map mkWave (lattice_list (ksize E)))"
proof -
  define k where "k = ksize E"
  have "0 \<le> k * k" by simp
  moreover have "k * k \<le> INT_MAX" using b \<open>0 \<le> k * k\<close> unfolding k_def by linarith
  ultimately have kk: "cint (k * k) = Inr (k * k)"
    by (rule cint_nonneg)
  have body: "initWaves_body (k * k) l m n waves =
       Inr (waves @ map mkWave (if l * l + m * m + n * n \<le> k * k then [(l, m, n)] else []))"
    if "\<bar>l\<bar> \<le> k" "\<bar>m\<bar> \<le> k" "\<bar>n\<bar> \<le> k" for l m n waves
    using ksq_int_in_range[OF that, of ] b
    by (simp add: initWaves_body_def k_def mkWave_def vec_of_int_def del: of_int_add of_int_mult)
  have inner: "for_each [(if l = 0 \<and> m = 0 then 1 else - k)..k] (\<lambda>n waves. initWaves_body (k * k) l m n waves) waves
      = Inr (waves @ concat (map (\<lambda>n. map mkWave (if l * l + m * m + n * n \<le> k * k then [(l, m, n)] else []))
            [(if l = 0 \<and> m = 0 then 1 else - k)..k]))"
    if "\<bar>l\<bar> \<le> k" "\<bar>m\<bar> \<le> k" for l m waves
  proof (rule for_each_collect)
    fix n s assume "n \<in> set [(if l = 0 \<and> m = 0 then 1 else - k)..k]"
    then have "\<bar>n\<bar> \<le> k" by (auto split: if_splits)
    with that show "initWaves_body (k * k) l m n s =
        Inr (s @ map mkWave (if l * l + m * m + n * n \<le> k * k then [(l, m, n)] else []))"
      by (intro body)
  qed
  have middle: "for_each [(if l = 0 then 0 else - k)..k] (\<lambda>m waves.
        let nmin = (if l = 0 \<and> m = 0 then 1 else - k) in
        for_each [nmin..k] (\<lambda>n waves. initWaves_body (k * k) l m n waves) waves) waves
      = Inr (waves @ concat (map (\<lambda>m. concat (map (\<lambda>n. map mkWave (if l * l + m * m + n * n \<le> k * k then [(l, m, n)] else []))
            [(if l = 0 \<and> m = 0 then 1 else - k)..k])) [(if l = 0 then 0 else - k)..k]))"
    if "\<bar>l\<bar> \<le> k" for l waves
  proof (rule for_each_collect)
    fix m s assume "m \<in> set [(if l = 0 then 0 else - k)..k]"
    then have "\<bar>m\<bar> \<le> k" by (auto split: if_splits)
    with that show "(let nmin = (if l = 0 \<and> m = 0 then 1 else - k) in
        for_each [nmin..k] (\<lambda>n waves. initWaves_body (k * k) l m n waves) s) =
        Inr (s @ concat (map (\<lambda>n. map mkWave (if l * l + m * m + n * n \<le> k * k then [(l, m, n)] else []))
            [(if l = 0 \<and> m = 0 then 1 else - k)..k]))"
      unfolding Let_def by (intro inner)
  qed
  have outer: "for_each [0..k] (\<lambda>l waves.
             let mmin = (if l = 0 then 0 else - k) in
             for_each [mmin..k] (\<lambda>m waves.
               let nmin = (if l = 0 \<and> m = 0 then 1 else - k) in
               for_each [nmin..k] (\<lambda>n waves. initWaves_body (k * k) l m n waves) waves)
             waves) [] =
     Inr ([] @ concat (map (\<lambda>l. concat (map (\<lambda>m. concat (map (\<lambda>n. map mkWave (if l * l + m * m + n * n \<le> k * k then [(l, m, n)] else []))
            [(if l = 0 \<and> m = 0 then 1 else - k)..k])) [(if l = 0 then 0 else - k)..k])) [0..k]))"
  proof (rule for_each_collect)
    fix l s assume "l \<in> set [0..k]"
    then have "\<bar>l\<bar> \<le> k" by auto
    then show "(let mmin = (if l = 0 then 0 else - k) in
             for_each [mmin..k] (\<lambda>m waves.
               let nmin = (if l = 0 \<and> m = 0 then 1 else - k) in
               for_each [nmin..k] (\<lambda>n waves. initWaves_body (k * k) l m n waves) waves)
             s) =
      Inr (s @ concat (map (\<lambda>m. concat (map (\<lambda>n. map mkWave (if l * l + m * m + n * n \<le> k * k then [(l, m, n)] else []))
            [(if l = 0 \<and> m = 0 then 1 else - k)..k])) [(if l = 0 then 0 else - k)..k]))"
      unfolding Let_def using middle[unfolded Let_def] by blast
  qed
  show ?thesis
    unfolding initWaves_def k_def[symmetric] kk using outer
    by (simp add: Let_def lattice_list_def map_concat comp_def cong: if_cong)
qed


lemma abs_le_of_sq_le:
  fixes m :: int
  assumes "m * m \<le> k * k" "0 \<le> k"
  shows "\<bar>m\<bar> \<le> k"
proof -
  have "m\<^sup>2 \<le> k\<^sup>2" using assms(1) by (simp add: power2_eq_square)
  then have "\<bar>m\<bar> \<le> \<bar>k\<bar>" by (simp add: abs_le_square_iff)
  with assms(2) show ?thesis by simp
qed

lemma set_lattice_list:
  assumes "0 \<le> k"
  shows "set (lattice_list k) = wave_set k"
proof -
  have *: "\<bar>m\<bar> \<le> k \<and> \<bar>n\<bar> \<le> k \<and> \<bar>l\<bar> \<le> k" if "l * l + m * m + n * n \<le> k * k" for l m n :: int
  proof -
    have "0 \<le> l * l" "0 \<le> m * m" "0 \<le> n * n" by simp_all
    with that have "l * l \<le> k * k" "m * m \<le> k * k" "n * n \<le> k * k" by linarith+
    then show ?thesis using assms by (simp add: abs_le_of_sq_le)
  qed
  show ?thesis
  proof (rule set_eqI)
    fix v :: "int \<times> int \<times> int"
    obtain l m n where v: "v = (l, m, n)" by (cases v) auto
    show "v \<in> set (lattice_list k) \<longleftrightarrow> v \<in> wave_set k"
    proof
      assume "v \<in> set (lattice_list k)"
      then show "v \<in> wave_set k"
        unfolding v lattice_list_def wave_set_def by (auto split: if_splits)
    next
      assume a: "v \<in> wave_set k"
      then have s: "l * l + m * m + n * n \<le> k * k" by (simp add: v wave_set_def)
      from *[OF s] a show "v \<in> set (lattice_list k)"
        unfolding v lattice_list_def wave_set_def by (auto split: if_splits)
    qed
  qed
qed

lemma distinct_concat_map:
  assumes "distinct xs"
    and "\<And>x. x \<in> set xs \<Longrightarrow> distinct (f x)"
    and "\<And>x y. x \<in> set xs \<Longrightarrow> y \<in> set xs \<Longrightarrow> x \<noteq> y \<Longrightarrow> set (f x) \<inter> set (f y) = {}"
  shows "distinct (concat (map f xs))"
  using assms
proof (induction xs)
  case Nil
  then show ?case by simp
next
  case (Cons a xs)
  have "set (f a) \<inter> set (f y) = {}" if "y \<in> set xs" for y
    using Cons.prems(1) Cons.prems(3)[of a y] that by auto
  moreover have "distinct (concat (map f xs))"
    using Cons by auto
  ultimately show ?case using Cons.prems(2)[of a] by auto
qed

lemma distinct_lattice_list: "distinct (lattice_list k)"
  unfolding lattice_list_def
  by (intro distinct_concat_map) (auto split: if_splits)

lemma lattice_list_0: "lattice_list 0 = []"
  by (simp add: lattice_list_def)

lemma lattice_list_1: "lattice_list 1 = [(0, 0, 1), (0, 1, 0), (1, 0, 0)]"
  by (simp add: lattice_list_def upto_rec1)

lemma inj_on_vec_of_int: "inj_on vec_of_int A"
  by (auto simp: inj_on_def vec_of_int_def)

lemma K_mkWave: "K (mkWave v) = vec_of_int v"
  by (simp add: mkWave_def)

lemma int_sq_le_1:
  fixes l :: int
  assumes "l * l \<le> 1"
  shows "l = - 1 \<or> l = 0 \<or> l = 1"
proof -
  have "\<bar>l\<bar> \<le> 1" using abs_le_of_sq_le[of l 1] assms by simp
  then show ?thesis by arith
qed

lemma full_shell_1:
  "full_shell 1 = {(1, 0, 0), (- 1, 0, 0), (0, 1, 0), (0, - 1, 0), (0, 0, 1), (0, 0, - 1)}"
proof (rule set_eqI)
  fix v :: "int \<times> int \<times> int"
  obtain l m n where v: "v = (l, m, n)" by (cases v) auto
  show "v \<in> full_shell 1 \<longleftrightarrow> v \<in> {(1, 0, 0), (- 1, 0, 0), (0, 1, 0), (0, - 1, 0), (0, 0, 1), (0, 0, - 1)}"
  proof
    assume "v \<in> full_shell 1"
    then have s: "l * l + m * m + n * n \<le> 1" and nz: "(l, m, n) \<noteq> (0, 0, 0)"
      by (simp_all add: v full_shell_def)
    have "0 \<le> l * l" "0 \<le> m * m" "0 \<le> n * n" by simp_all
    with s have "l * l \<le> 1" "m * m \<le> 1" "n * n \<le> 1" by linarith+
    then have "l = - 1 \<or> l = 0 \<or> l = 1" "m = - 1 \<or> m = 0 \<or> m = 1" "n = - 1 \<or> n = 0 \<or> n = 1"
      by (simp_all add: int_sq_le_1)
    then show "v \<in> {(1, 0, 0), (- 1, 0, 0), (0, 1, 0), (0, - 1, 0), (0, 0, 1), (0, 0, - 1)}"
      using s nz unfolding v by (elim disjE) simp_all
  next
    assume "v \<in> {(1, 0, 0), (- 1, 0, 0), (0, 1, 0), (0, - 1, 0), (0, 0, 1), (0, 0, - 1)}"
    then show "v \<in> full_shell 1" unfolding v full_shell_def by (elim insertE emptyE) simp_all
  qed
qed

lemma card_full_shell_1: "card (full_shell 1) = 6"
  by (simp add: full_shell_1)

lemma for_each_fault:
  assumes "x \<in> set xs" and "\<And>s. \<exists>e. body x s = Inl e"
  shows "\<exists>e. for_each xs body s = Inl e"
  using assms(1)
proof (induction xs arbitrary: s)
  case Nil
  then show ?case by simp
next
  case (Cons a xs)
  show ?case
  proof (cases "body a s")
    case (Inl e)
    then show ?thesis by simp
  next
    case (Inr s')
    with Cons.prems assms(2)[of s] have "x \<in> set xs" by auto
    from Cons.IH[OF this, of s'] Inr show ?thesis by simp
  qed
qed

lemma for_each_fault_kind:
  assumes "\<And>x s e. x \<in> set xs \<Longrightarrow> body x s = Inl e \<Longrightarrow> e = f"
    and "for_each xs body s = Inl e"
  shows "e = f"
  using assms
proof (induction xs arbitrary: s)
  case Nil
  then show ?case by simp
next
  case (Cons a xs)
  show ?case
  proof (cases "body a s")
    case (Inl e')
    with Cons.prems show ?thesis by auto
  next
    case (Inr s')
    with Cons.prems(2) have "for_each xs body s' = Inl e" by simp
    with Cons.IH[of s'] Cons.prems(1) show ?thesis by auto
  qed
qed

lemma cint_fault: "cint i = Inl e \<Longrightarrow> e = IntOverflow"
  by (auto simp: cint_def split: if_splits)

lemma ksq_int_fault: "ksq_int l m n = Inl e \<Longrightarrow> e = IntOverflow"
  by (auto simp: ksq_int_def split: sum.splits dest: cint_fault)

lemma initWaves_body_fault: "initWaves_body q l m n s = Inl e \<Longrightarrow> e = IntOverflow"
  by (auto simp: initWaves_body_def Let_def split: sum.splits if_splits dest: ksq_int_fault)

lemma initWaves_fault: "initWaves E = Inl e \<Longrightarrow> e = IntOverflow"
  unfolding initWaves_def Let_def
  apply (cases "cint (ksize E * ksize E)")
   apply (simp add: cint_fault)
  apply simp
  apply (erule for_each_fault_kind[rotated])
  apply (erule for_each_fault_kind[rotated])
  apply (erule for_each_fault_kind[rotated])
  apply (erule initWaves_body_fault)
  done

lemma cint_Inr: "cint i = Inr j \<Longrightarrow> j = i \<and> i \<le> INT_MAX"
  by (auto simp: cint_def split: if_splits)

lemma ksq_int_overflow:
  assumes "INT_MAX < l * l + m * m + n * n"
  shows "\<exists>e. ksq_int l m n = Inl e"
proof (cases "ksq_int l m n")
  case (Inl e)
  then show ?thesis by simp
next
  case (Inr r)
  then have "l * l + m * m + n * n \<le> INT_MAX"
    by (auto simp: ksq_int_def split: sum.splits dest!: cint_Inr)
  with assms show ?thesis by simp
qed

lemma initWaves_overflow:
  assumes k: "0 \<le> ksize E" and b: "INT_MAX < 3 * (ksize E * ksize E)"
  shows "initWaves E = Inl IntOverflow"
proof -
  define k where "k = ksize E"
  have k1: "1 \<le> k"
  proof (rule ccontr)
    assume "\<not> 1 \<le> k"
    with k have "k = 0" by (simp add: k_def)
    with b show False by (simp add: k_def INT_MAX_def)
  qed
  have "\<exists>e. initWaves E = Inl e"
  proof (cases "cint (k * k)")
    case (Inl e)
    then show ?thesis by (simp add: initWaves_def k_def)
  next
    case (Inr q)
    have body: "\<exists>e. initWaves_body q k k k s = Inl e" for s
      using ksq_int_overflow[of k k k] b by (auto simp: initWaves_body_def k_def)
    have inner: "\<exists>e. for_each [(if k = 0 \<and> k = 0 then 1 else - k)..k] (\<lambda>n waves. initWaves_body q k k n waves) s = Inl e" for s
      by (rule for_each_fault[where x = k]) (use k1 body in auto)
    have middle: "\<exists>e. for_each [(if k = 0 then 0 else - k)..k] (\<lambda>m waves.
        for_each [(if k = 0 \<and> m = 0 then 1 else - k)..k] (\<lambda>n waves. initWaves_body q k m n waves) waves) s = Inl e" for s
      by (rule for_each_fault[where x = k]) (use k1 inner in auto)
    have "\<exists>e. for_each [0..k] (\<lambda>l waves.
        for_each [(if l = 0 then 0 else - k)..k] (\<lambda>m waves.
        for_each [(if l = 0 \<and> m = 0 then 1 else - k)..k] (\<lambda>n waves. initWaves_body q l m n waves) waves) waves) [] = Inl e"
      by (rule for_each_fault[where x = k]) (use k1 middle in auto)
    then show ?thesis
      by (simp add: initWaves_def Inr k_def[symmetric] Let_def)
  qed
  then show ?thesis using initWaves_fault by blast
qed

text \<open>
  Claim C2, as amended. For every \<open>ksize\<close> with \<open>0 \<le> ksize\<close> and \<open>3 * ksize\<^sup>2 \<le> INT_MAX\<close>
  (that is \<open>ksize \<le> 26754\<close>), \<open>initWaves\<close> returns a list of waves whose wave numbers are
  exactly the integer vectors \<open>(l, m, n)\<close> of the spec's half lattice: \<open>l\<^sup>2 + m\<^sup>2 + n\<^sup>2 \<le> ksize\<^sup>2\<close>,
  not the zero vector, \<open>0 \<le> l \<le> ksize\<close>, \<open>0 \<le> m \<le> ksize\<close> when \<open>l = 0\<close>, and \<open>0 < n\<close> when
  \<open>l = 0\<close> and \<open>m = 0\<close>. No vector occurs twice, both amplitudes of every wave are zero,
  \<open>ksize = 0\<close> gives the empty list, and \<open>ksize = 1\<close> gives 3 waves, half of the 6 vectors
  of the full symmetric shell.
\<close>

theorem initWaves_half_lattice:
  assumes "0 \<le> ksize E" and "3 * (ksize E * ksize E) \<le> INT_MAX"
  shows "\<exists>waves. initWaves E = Inr waves \<and>
           K ` set waves = vec_of_int ` wave_set (ksize E) \<and>
           distinct (map K waves) \<and>
           (0, 0, 0) \<notin> K ` set waves \<and>
           (\<forall>W \<in> set waves. REAL W = 0 \<and> IMAG W = 0) \<and>
           (ksize E = 0 \<longrightarrow> waves = []) \<and>
           (ksize E = 1 \<longrightarrow> length waves = 3 \<and> 2 * length waves = card (full_shell 1))"
proof -
  let ?ws = "map mkWave (lattice_list (ksize E))"
  have 1: "initWaves E = Inr ?ws" using assms by (rule initWaves_list)
  have mk: "map K ?ws = map vec_of_int (lattice_list (ksize E))"
    by (simp add: comp_def K_mkWave)
  have 2: "K ` set ?ws = vec_of_int ` wave_set (ksize E)"
    using set_lattice_list[OF assms(1)] by (simp add: image_image K_mkWave)
  have 3: "distinct (map K ?ws)"
    unfolding mk by (simp add: distinct_map distinct_lattice_list inj_on_vec_of_int)
  have 4: "(0, 0, 0) \<notin> K ` set ?ws"
    unfolding 2 by (auto simp: wave_set_def vec_of_int_def)
  have 5: "\<forall>W \<in> set ?ws. REAL W = 0 \<and> IMAG W = 0"
    by (auto simp: mkWave_def)
  have 6: "ksize E = 0 \<longrightarrow> ?ws = []" by (simp add: lattice_list_0)
  have 7: "ksize E = 1 \<longrightarrow> length ?ws = 3 \<and> 2 * length ?ws = card (full_shell 1)"
    by (simp add: lattice_list_1 card_full_shell_1)
  from 1 2 3 4 5 6 7 show ?thesis by blast
qed


text \<open>The theorem at \<open>ksize = 1\<close>.\<close>

theorem initWaves_half_lattice_witness:
  "\<exists>waves. initWaves \<lparr>ksize = 1, alpha = 1, sigma = 1, cutoff = 1, cycle = (1, 1, 1)\<rparr> = Inr waves \<and>
     K ` set waves = vec_of_int ` wave_set 1 \<and> distinct (map K waves) \<and> length waves = 3"
proof -
  have "0 \<le> ksize \<lparr>ksize = 1, alpha = 1, sigma = 1, cutoff = 1, cycle = (1, 1, 1)\<rparr>"
    and "3 * (ksize \<lparr>ksize = 1, alpha = 1, sigma = 1, cutoff = 1, cycle = (1, 1, 1)\<rparr>
            * ksize \<lparr>ksize = 1, alpha = 1, sigma = 1, cutoff = 1, cycle = (1, 1, 1)\<rparr>) \<le> INT_MAX"
    by (simp_all add: INT_MAX_def)
  from initWaves_half_lattice[OF this] show ?thesis by simp blast
qed


text \<open>
  Claim C2 as stated, for every non-negative \<open>ksize\<close>, fails on 32-bit integers: with
  \<open>ksize = 26755\<close> the sum \<open>l * l + m * m + n * n\<close> leaves the range of \<^verbatim>\<open>int\<close> inside the
  loops, and with \<open>ksize = 46341\<close> already \<^verbatim>\<open>ksize * ksize\<close> does.
\<close>

theorem initWaves_overflow_counterexample:
  "initWaves \<lparr>ksize = 26755, alpha = 1, sigma = 1, cutoff = 1, cycle = (1, 1, 1)\<rparr> = Inl IntOverflow \<and>
   initWaves \<lparr>ksize = 46341, alpha = 1, sigma = 1, cutoff = 1, cycle = (1, 1, 1)\<rparr> = Inl IntOverflow"
  by (simp add: initWaves_overflow INT_MAX_def)

subsection \<open>selfTerm\<close>

lemma selfTerm_length: "length (selfTerm E bodies) = length bodies"
  by (simp add: selfTerm_def)

lemma selfTerm_nth:
  assumes "i < length bodies"
  shows "selfTerm E bodies ! i =
    (bodies ! i)\<lparr>TRG := (fst (TRG (bodies ! i)) - M_2_SQRTPI * SRC (bodies ! i) * alpha E,
                            snd (TRG (bodies ! i)))\<rparr>"
  using assms by (simp add: selfTerm_def case_prod_beta)

text \<open>
  Claim C9. \<open>selfTerm\<close> keeps the number of bodies, subtracts \<open>2/\<surd>\<pi> * q * alpha\<close> from the
  potential of every body, where \<open>q\<close> is the source strength of that body, and leaves
  its three force components, its position, its source strength and its bookkeeping
  as they were.
\<close>

theorem selfTerm_potential_only:
  "length (selfTerm E bodies) = length bodies \<and>
   (\<forall>i < length bodies.
      fst (TRG (selfTerm E bodies ! i)) = fst (TRG (bodies ! i)) - 2 / sqrt pi * SRC (bodies ! i) * alpha E \<and>
      snd (TRG (selfTerm E bodies ! i)) = snd (TRG (bodies ! i)) \<and>
      Body.X (selfTerm E bodies ! i) = Body.X (bodies ! i) \<and>
      SRC (selfTerm E bodies ! i) = SRC (bodies ! i) \<and>
      IBODY (selfTerm E bodies ! i) = IBODY (bodies ! i) \<and>
      ICELL (selfTerm E bodies ! i) = ICELL (bodies ! i) \<and>
      WEIGHT (selfTerm E bodies ! i) = WEIGHT (bodies ! i))"
proof (intro conjI allI impI)
  show "length (selfTerm E bodies) = length bodies" by (rule selfTerm_length)
next
  fix i assume i: "i < length bodies"
  note n = selfTerm_nth[OF i, of E]
  show "fst (TRG (selfTerm E bodies ! i)) = fst (TRG (bodies ! i)) - 2 / sqrt pi * SRC (bodies ! i) * alpha E"
    unfolding n by (simp add: M_2_SQRTPI_def)
  show "snd (TRG (selfTerm E bodies ! i)) = snd (TRG (bodies ! i))" unfolding n by simp
  show "Body.X (selfTerm E bodies ! i) = Body.X (bodies ! i)" unfolding n by simp
  show "SRC (selfTerm E bodies ! i) = SRC (bodies ! i)" unfolding n by simp
  show "IBODY (selfTerm E bodies ! i) = IBODY (bodies ! i)" unfolding n by simp
  show "ICELL (selfTerm E bodies ! i) = ICELL (bodies ! i)" unfolding n by simp
  show "WEIGHT (selfTerm E bodies ! i) = WEIGHT (bodies ! i)" unfolding n by simp
qed

text \<open>The theorem for one body with potential 5 and source strength 3, and \<open>alpha = 2\<close>.\<close>

theorem selfTerm_potential_only_witness:
  "TRG (selfTerm \<lparr>ksize = 1, alpha = 2, sigma = 1, cutoff = 1, cycle = (1, 1, 1)\<rparr>
          [\<lparr>IBODY = 0, ICELL = 0, WEIGHT = 1, X = (0, 0, 0), SRC = 3, TRG = (5, 6, 7, 8)\<rparr>] ! 0)
     = (5 - 2 / sqrt pi * 3 * 2, 6, 7, 8)"
proof -
  let ?E = "\<lparr>ksize = 1, alpha = 2, sigma = 1, cutoff = 1, cycle = (1, 1, 1)\<rparr>"
  let ?bs = "[\<lparr>IBODY = 0, ICELL = 0, WEIGHT = 1, X = (0, 0, 0), SRC = 3, TRG = (5, 6, 7, 8)\<rparr>]"
  have "0 < length ?bs" by simp
  with selfTerm_potential_only[of ?E ?bs]
  have "fst (TRG (selfTerm ?E ?bs ! 0)) = fst (TRG (?bs ! 0)) - 2 / sqrt pi * SRC (?bs ! 0) * alpha ?E"
    and "snd (TRG (selfTerm ?E ?bs ! 0)) = snd (TRG (?bs ! 0))"
    by blast+
  then show ?thesis by (simp add: prod_eq_iff)
qed

subsection \<open>Loops that rewrite each element\<close>

lemma map_each_Inr:
  "(\<And>x. x \<in> set xs \<Longrightarrow> f x = Inr (g x)) \<Longrightarrow> map_each f xs = Inr (map g xs)"
  by (induction xs) auto

lemma map_each_fault:
  assumes "x \<in> set xs" and "f x = Inl e"
    and "\<And>y e'. y \<in> set xs \<Longrightarrow> f y = Inl e' \<Longrightarrow> e' = e"
  shows "map_each f xs = Inl e"
  using assms
proof (induction xs)
  case Nil
  then show ?case by simp
next
  case (Cons a xs)
  show ?case
  proof (cases "f a")
    case (Inl e')
    then have "e' = e" using Cons.prems(3)[of a e'] by simp
    with Inl show ?thesis by simp
  next
    case (Inr y)
    with Cons.prems(1,2) have x: "x \<in> set xs" by auto
    have "map_each f xs = Inl e"
    proof (rule Cons.IH[OF x Cons.prems(2)])
      fix y e' assume "y \<in> set xs" "f y = Inl e'"
      then show "e' = e" using Cons.prems(3)[of y e'] by simp
    qed
    with Inr show ?thesis by simp
  qed
qed

lemma index_loop:
  assumes "n \<le> length xs"
    and "\<And>b ys. b < n \<Longrightarrow> length ys = length xs \<Longrightarrow> body b ys = Inr (ys[b := g b (ys ! b)])"
  shows "\<exists>ys. for_each [0..<n] body xs = Inr ys \<and> length ys = length xs \<and>
           (\<forall>b < length xs. ys ! b = (if b < n then g b (xs ! b) else xs ! b))"
  using assms
proof (induction n)
  case 0
  then show ?case by simp
next
  case (Suc n)
  from Suc.prems have "n \<le> length xs" by simp
  moreover have "\<And>b ys. b < n \<Longrightarrow> length ys = length xs \<Longrightarrow> body b ys = Inr (ys[b := g b (ys ! b)])"
    using Suc.prems(2) by simp
  ultimately obtain ys where ys: "for_each [0..<n] body xs = Inr ys" "length ys = length xs"
    "\<forall>b < length xs. ys ! b = (if b < n then g b (xs ! b) else xs ! b)"
    using Suc.IH by blast
  have step: "body n ys = Inr (ys[n := g n (ys ! n)])"
    using Suc.prems(2)[of n ys] ys(2) by simp
  have n: "n < length xs" using Suc.prems(1) by simp
  have "for_each [0..<Suc n] body xs = Inr (ys[n := g n (ys ! n)])"
    by (simp add: for_each_append ys(1) step)
  moreover have "length (ys[n := g n (ys ! n)]) = length xs" using ys(2) by simp
  moreover have "(ys[n := g n (ys ! n)]) ! b = (if b < Suc n then g b (xs ! b) else xs ! b)"
    if "b < length xs" for b
  proof (cases "b = n")
    case True
    then show ?thesis using ys(2,3) n by simp
  next
    case False
    then show ?thesis using ys(2,3) that by (simp add: less_Suc_eq)
  qed
  ultimately show ?case by blast
qed

lemma for_each_preserves:
  assumes "for_each xs body s = Inr s'" and "\<And>x t t'. body x t = Inr t' \<Longrightarrow> h t' = h t"
  shows "h s' = h s"
  using assms(1)
proof (induction xs arbitrary: s)
  case Nil
  then show ?case by simp
next
  case (Cons x xs)
  then obtain s1 where 1: "body x s = Inr s1" and 2: "for_each xs body s1 = Inr s'"
    by (auto split: sum.splits)
  from Cons.IH[OF 2] assms(2)[OF 1] show ?case by simp
qed

lemma fdiv_Inr: "b \<noteq> 0 \<Longrightarrow> fdiv a b = Inr (a / b)"
  by (simp add: fdiv_def)

lemma fdiv_zero: "fdiv a 0 = Inl DivByZero"
  by (simp add: fdiv_def)

lemma fdiv_fault: "fdiv a b = Inl e \<Longrightarrow> e = DivByZero"
  by (simp add: fdiv_def split: if_splits)

subsection \<open>getDipole and dipoleCorrection\<close>

lemma fold_dipole:
  "fold (\<lambda>B dipole. vadd dipole (vscale (vsub (Body.X B) (y0, y1, y2)) (Re (complex_of_real (SRC B)))))
      bodies (a0, a1, a2) =
     (a0 + (\<Sum>B\<leftarrow>bodies. (fst (Body.X B) - y0) * SRC B),
      a1 + (\<Sum>B\<leftarrow>bodies. (fst (snd (Body.X B)) - y1) * SRC B),
      a2 + (\<Sum>B\<leftarrow>bodies. (snd (snd (Body.X B)) - y2) * SRC B))"
proof (induction bodies arbitrary: a0 a1 a2)
  case Nil
  then show ?case by simp
next
  case (Cons B bodies)
  obtain x0 x1 x2 where x: "Body.X B = (x0, x1, x2)" by (cases "Body.X B") auto
  show ?case
    using Cons.IH by (simp add: x add.assoc)
qed

lemma dipoleCorrection_body_Inr:
  assumes "numBodies \<noteq> 0" and "SRC B \<noteq> 0"
  shows "dipoleCorrection_body (4 * M_PI / (3 * c0 * c1 * c2)) dipole numBodies B =
           Inr (dipole_corrected dipole numBodies (c0, c1, c2) B)"
proof -
  have n: "real_of_int numBodies \<noteq> 0" using assms(1) by simp
  obtain d0 d1 d2 where d: "dipole = (d0, d1, d2)" by (cases dipole) auto
  obtain t0 t1 t2 t3 where t: "TRG B = (t0, t1, t2, t3)" by (cases "TRG B") auto
  have c: "3 * c0 * c1 * c2 = 3 * (c0 * c1 * c2)" by simp
  show ?thesis
    unfolding dipoleCorrection_body_def fdiv_Inr[OF n] sum.case fdiv_Inr[OF assms(2)]
      dipole_corrected_def t d prod.case norm_vec3.simps M_PI_def c
    by simp
qed

lemma dipoleCorrection_body_fault:
  "dipoleCorrection_body coef dipole numBodies B = Inl e \<Longrightarrow> e = DivByZero"
  by (auto simp: dipoleCorrection_body_def split: sum.splits prod.splits dest: fdiv_fault)

lemma dipoleCorrection_body_zero_src:
  assumes "SRC B = 0"
  shows "dipoleCorrection_body coef dipole numBodies B = Inl DivByZero"
proof (cases "fdiv (coef * norm_vec3 dipole) (real_of_int numBodies)")
  case (Inl e)
  then show ?thesis using fdiv_fault[OF Inl] by (simp add: dipoleCorrection_body_def)
next
  case (Inr p)
  then show ?thesis by (simp add: dipoleCorrection_body_def assms fdiv_zero)
qed

lemma dipoleCorrection_Inr:
  assumes "c0 \<noteq> 0" "c1 \<noteq> 0" "c2 \<noteq> 0"
    and "numBodies \<noteq> 0" and "\<And>B. B \<in> set bodies \<Longrightarrow> SRC B \<noteq> 0"
  shows "dipoleCorrection bodies dipole numBodies (c0, c1, c2) =
           Inr (map (dipole_corrected dipole numBodies (c0, c1, c2)) bodies)"
proof -
  have V: "3 * c0 * c1 * c2 \<noteq> 0" using assms by simp
  show ?thesis
    unfolding dipoleCorrection_def prod.case fdiv_Inr[OF V] sum.case
    by (rule map_each_Inr) (simp add: dipoleCorrection_body_Inr assms(4,5))
qed

lemma dipoleCorrection_zero_src:
  assumes "B \<in> set bodies" and "SRC B = 0"
  shows "dipoleCorrection bodies dipole numBodies cyc = Inl DivByZero"
proof -
  obtain c0 c1 c2 where c: "cyc = (c0, c1, c2)" by (cases cyc) auto
  show ?thesis
  proof (cases "fdiv (4 * M_PI) (3 * c0 * c1 * c2)")
    case (Inl e)
    then show ?thesis using fdiv_fault[OF Inl] by (simp add: dipoleCorrection_def c)
  next
    case (Inr coef)
    have "map_each (dipoleCorrection_body coef dipole numBodies) bodies = Inl DivByZero"
      by (rule map_each_fault[OF assms(1)])
        (simp_all add: dipoleCorrection_body_zero_src assms(2) dipoleCorrection_body_fault)
    then show ?thesis by (simp add: dipoleCorrection_def c Inr)
  qed
qed

lemma dipoleCorrection_body_zero_count:
  "dipoleCorrection_body coef dipole 0 B = Inl DivByZero"
  by (simp add: dipoleCorrection_body_def fdiv_zero)

lemma dipoleCorrection_fault:
  "dipoleCorrection bodies dipole numBodies cyc = Inl e \<Longrightarrow> e = DivByZero"
proof -
  assume a: "dipoleCorrection bodies dipole numBodies cyc = Inl e"
  obtain c0 c1 c2 where c: "cyc = (c0, c1, c2)" by (cases cyc) auto
  show "e = DivByZero"
  proof (cases "fdiv (4 * M_PI) (3 * c0 * c1 * c2)")
    case (Inl e')
    with a show ?thesis using fdiv_fault[OF Inl] by (simp add: dipoleCorrection_def c)
  next
    case (Inr coef)
    with a have m: "map_each (dipoleCorrection_body coef dipole numBodies) bodies = Inl e"
      by (simp add: dipoleCorrection_def c)
    show ?thesis
    proof (rule ccontr)
      assume ne: "e \<noteq> DivByZero"
      have "map_each (dipoleCorrection_body coef dipole numBodies) bodies \<noteq> Inl e"
        using ne
      proof (induction bodies)
        case Nil
        then show ?case by simp
      next
        case (Cons B bodies)
        then show ?case
          by (auto split: sum.splits dest: dipoleCorrection_body_fault)
      qed
      with m show False by simp
    qed
  qed
qed

lemma dipoleCorrection_zero_cycle:
  assumes "c0 = 0 \<or> c1 = 0 \<or> c2 = 0"
  shows "dipoleCorrection bodies dipole numBodies (c0, c1, c2) = Inl DivByZero"
proof -
  have z: "3 * c0 * c1 * c2 = 0" using assms by auto
  show ?thesis unfolding dipoleCorrection_def prod.case z fdiv_zero by simp
qed

lemma dipoleCorrection_zero_count:
  assumes "bodies \<noteq> []"
  shows "dipoleCorrection bodies dipole 0 cyc = Inl DivByZero"
proof -
  obtain B bs where b: "bodies = B # bs" using assms by (cases bodies) auto
  have "\<exists>e. dipoleCorrection bodies dipole 0 cyc = Inl e"
    by (cases cyc) (auto simp: dipoleCorrection_def b dipoleCorrection_body_zero_count split: sum.splits)
  then show ?thesis using dipoleCorrection_fault by blast
qed

lemma dipoleCorrection_empty:
  assumes "c0 \<noteq> 0" "c1 \<noteq> 0" "c2 \<noteq> 0"
  shows "dipoleCorrection [] dipole numBodies (c0, c1, c2) = Inr []"
proof -
  have V: "3 * c0 * c1 * c2 \<noteq> 0" using assms by simp
  show ?thesis by (simp add: dipoleCorrection_def fdiv_Inr[OF V])
qed

text \<open>
  Claim C8. \<open>getDipole\<close> returns the sum over all bodies of (position - reference origin)
  times source strength and leaves the bodies as they are. \<open>dipoleCorrection\<close>, unless
  one of its divisors is zero, subtracts \<open>4\<pi>/(3V) * |dipole|\<^sup>2 / (count * q)\<close> from the
  potential of every body and \<open>4\<pi>/(3V) * dipole[d]\<close> from force axis \<open>d\<close>, where \<open>q\<close> is the
  source strength of the body and \<open>V = cycle_x * cycle_y * cycle_z\<close>; nothing else of a
  body changes. The divisors are the three box lengths and, when there is a body, the
  count and the source strength of every body.
\<close>

theorem getDipole_dipoleCorrection:
  "getDipole bodies (y0, y1, y2) =
     (((\<Sum>B\<leftarrow>bodies. (fst (Body.X B) - y0) * SRC B),
       (\<Sum>B\<leftarrow>bodies. (fst (snd (Body.X B)) - y1) * SRC B),
       (\<Sum>B\<leftarrow>bodies. (snd (snd (Body.X B)) - y2) * SRC B)), bodies) \<and>
   dipoleCorrection bodies dipole numBodies (c0, c1, c2) =
     (if c0 = 0 \<or> c1 = 0 \<or> c2 = 0 \<or> (bodies \<noteq> [] \<and> (numBodies = 0 \<or> (\<exists>B \<in> set bodies. SRC B = 0)))
      then Inl DivByZero
      else Inr (map (dipole_corrected dipole numBodies (c0, c1, c2)) bodies))"
proof
  show "getDipole bodies (y0, y1, y2) =
     (((\<Sum>B\<leftarrow>bodies. (fst (Body.X B) - y0) * SRC B),
       (\<Sum>B\<leftarrow>bodies. (fst (snd (Body.X B)) - y1) * SRC B),
       (\<Sum>B\<leftarrow>bodies. (snd (snd (Body.X B)) - y2) * SRC B)), bodies)"
    unfolding getDipole_def fold_dipole by simp
next
  consider (cyc) "c0 = 0 \<or> c1 = 0 \<or> c2 = 0"
    | (count) "c0 \<noteq> 0" "c1 \<noteq> 0" "c2 \<noteq> 0" "bodies \<noteq> []" "numBodies = 0"
    | (src) "c0 \<noteq> 0" "c1 \<noteq> 0" "c2 \<noteq> 0" "bodies \<noteq> []" "numBodies \<noteq> 0" "\<exists>B \<in> set bodies. SRC B = 0"
    | (empty) "c0 \<noteq> 0" "c1 \<noteq> 0" "c2 \<noteq> 0" "bodies = []"
    | (ok) "c0 \<noteq> 0" "c1 \<noteq> 0" "c2 \<noteq> 0" "bodies \<noteq> []" "numBodies \<noteq> 0" "\<forall>B \<in> set bodies. SRC B \<noteq> 0"
    by blast
  then show "dipoleCorrection bodies dipole numBodies (c0, c1, c2) =
     (if c0 = 0 \<or> c1 = 0 \<or> c2 = 0 \<or> (bodies \<noteq> [] \<and> (numBodies = 0 \<or> (\<exists>B \<in> set bodies. SRC B = 0)))
      then Inl DivByZero
      else Inr (map (dipole_corrected dipole numBodies (c0, c1, c2)) bodies))"
  proof cases
    case cyc
    then have c: "c0 = 0 \<or> c1 = 0 \<or> c2 = 0 \<or> (bodies \<noteq> [] \<and> (numBodies = 0 \<or> (\<exists>B \<in> set bodies. SRC B = 0)))"
      by blast
    show ?thesis unfolding if_P[OF c] by (rule dipoleCorrection_zero_cycle[OF cyc])
  next
    case count
    then have c: "c0 = 0 \<or> c1 = 0 \<or> c2 = 0 \<or> (bodies \<noteq> [] \<and> (numBodies = 0 \<or> (\<exists>B \<in> set bodies. SRC B = 0)))"
      by blast
    show ?thesis unfolding if_P[OF c] using dipoleCorrection_zero_count[OF count(4)] count(5) by simp
  next
    case src
    then have c: "c0 = 0 \<or> c1 = 0 \<or> c2 = 0 \<or> (bodies \<noteq> [] \<and> (numBodies = 0 \<or> (\<exists>B \<in> set bodies. SRC B = 0)))"
      by blast
    from src obtain B where "B \<in> set bodies" "SRC B = 0" by blast
    then show ?thesis unfolding if_P[OF c] by (rule dipoleCorrection_zero_src)
  next
    case empty
    then have c: "\<not> (c0 = 0 \<or> c1 = 0 \<or> c2 = 0 \<or> (bodies \<noteq> [] \<and> (numBodies = 0 \<or> (\<exists>B \<in> set bodies. SRC B = 0))))"
      by blast
    show ?thesis unfolding if_not_P[OF c] using dipoleCorrection_empty[OF empty(1,2,3)] empty(4) by simp
  next
    case ok
    then have c: "\<not> (c0 = 0 \<or> c1 = 0 \<or> c2 = 0 \<or> (bodies \<noteq> [] \<and> (numBodies = 0 \<or> (\<exists>B \<in> set bodies. SRC B = 0))))"
      by blast
    show ?thesis unfolding if_not_P[OF c]
      using ok by (intro dipoleCorrection_Inr) auto
  qed
qed

text \<open>
  The theorem for two bodies with source strengths 1 and 2 at \<open>(1, 0, 0)\<close> and
  \<open>(0, 1, 0)\<close>, the origin as reference, and the unit box.
\<close>

theorem getDipole_dipoleCorrection_witness:
  "getDipole [\<lparr>IBODY = 0, ICELL = 0, WEIGHT = 1, X = (1, 0, 0), SRC = 1, TRG = (0, 0, 0, 0)\<rparr>,
              \<lparr>IBODY = 1, ICELL = 0, WEIGHT = 1, X = (0, 1, 0), SRC = 2, TRG = (0, 0, 0, 0)\<rparr>] (0, 0, 0)
     = ((1, 2, 0),
        [\<lparr>IBODY = 0, ICELL = 0, WEIGHT = 1, X = (1, 0, 0), SRC = 1, TRG = (0, 0, 0, 0)\<rparr>,
         \<lparr>IBODY = 1, ICELL = 0, WEIGHT = 1, X = (0, 1, 0), SRC = 2, TRG = (0, 0, 0, 0)\<rparr>]) \<and>
   dipoleCorrection [\<lparr>IBODY = 0, ICELL = 0, WEIGHT = 1, X = (1, 0, 0), SRC = 1, TRG = (0, 0, 0, 0)\<rparr>,
              \<lparr>IBODY = 1, ICELL = 0, WEIGHT = 1, X = (0, 1, 0), SRC = 2, TRG = (0, 0, 0, 0)\<rparr>]
       (1, 2, 0) 2 (1, 1, 1)
     = Inr [\<lparr>IBODY = 0, ICELL = 0, WEIGHT = 1, X = (1, 0, 0), SRC = 1,
              TRG = (- (4 * pi / 3 * 5 / 2), - (4 * pi / 3), - (4 * pi / 3 * 2), 0)\<rparr>,
            \<lparr>IBODY = 1, ICELL = 0, WEIGHT = 1, X = (0, 1, 0), SRC = 2,
              TRG = (- (4 * pi / 3 * 5 / 4), - (4 * pi / 3), - (4 * pi / 3 * 2), 0)\<rparr>]"
  using getDipole_dipoleCorrection[of
      "[\<lparr>IBODY = 0, ICELL = 0, WEIGHT = 1, X = (1, 0, 0), SRC = 1, TRG = (0, 0, 0, 0)\<rparr>,
        \<lparr>IBODY = 1, ICELL = 0, WEIGHT = 1, X = (0, 1, 0), SRC = 2, TRG = (0, 0, 0, 0)\<rparr>]"
      0 0 0 "(1, 2, 0)" 2 1 1 1]
  by (simp add: dipole_corrected_def)

text \<open>
  Claim C10. When \<open>numBodies\<close> is not zero, no box length is zero and no body has source
  strength zero, \<open>dipoleCorrection\<close> divides by zero nowhere: it returns bodies. When a
  body has source strength zero, the potential update of that body divides by zero, and
  so does \<open>dipoleCorrection\<close>; one such input is a single body of source strength zero
  with count 1 in the unit box.
\<close>

theorem dipoleCorrection_division_by_zero:
  "(numBodies \<noteq> 0 \<and> c0 \<noteq> 0 \<and> c1 \<noteq> 0 \<and> c2 \<noteq> 0 \<and> (\<forall>B \<in> set bodies. SRC B \<noteq> 0) \<longrightarrow>
      (\<exists>bodies'. dipoleCorrection bodies dipole numBodies (c0, c1, c2) = Inr bodies')) \<and>
   (\<forall>B \<in> set bodies. SRC B = 0 \<longrightarrow>
      dipoleCorrection_body coef dipole numBodies B = Inl DivByZero \<and>
      dipoleCorrection bodies dipole numBodies (c0, c1, c2) = Inl DivByZero) \<and>
   dipoleCorrection [\<lparr>IBODY = 0, ICELL = 0, WEIGHT = 1, X = (1, 0, 0), SRC = 0, TRG = (0, 0, 0, 0)\<rparr>]
      (1, 0, 0) 1 (1, 1, 1) = Inl DivByZero"
proof (intro conjI impI ballI)
  assume "numBodies \<noteq> 0 \<and> c0 \<noteq> 0 \<and> c1 \<noteq> 0 \<and> c2 \<noteq> 0 \<and> (\<forall>B \<in> set bodies. SRC B \<noteq> 0)"
  then have "dipoleCorrection bodies dipole numBodies (c0, c1, c2) =
           Inr (map (dipole_corrected dipole numBodies (c0, c1, c2)) bodies)"
    by (intro dipoleCorrection_Inr) auto
  then show "\<exists>bodies'. dipoleCorrection bodies dipole numBodies (c0, c1, c2) = Inr bodies'"
    by blast
next
  fix B assume "B \<in> set bodies" "SRC B = 0"
  then show "dipoleCorrection_body coef dipole numBodies B = Inl DivByZero"
    by (simp add: dipoleCorrection_body_zero_src)
next
  fix B assume "B \<in> set bodies" "SRC B = 0"
  then show "dipoleCorrection bodies dipole numBodies (c0, c1, c2) = Inl DivByZero"
    by (rule dipoleCorrection_zero_src)
next
  show "dipoleCorrection [\<lparr>IBODY = 0, ICELL = 0, WEIGHT = 1, X = (1, 0, 0), SRC = 0, TRG = (0, 0, 0, 0)\<rparr>]
      (1, 0, 0) 1 (1, 1, 1) = Inl DivByZero"
    by (rule dipoleCorrection_zero_src[where B = "\<lparr>IBODY = 0, ICELL = 0, WEIGHT = 1, X = (1, 0, 0), SRC = 0, TRG = (0, 0, 0, 0)\<rparr>"])
      simp_all
qed

text \<open>
  The theorem for one body in the unit box with count 1: with source strength 2 the
  correction returns, with source strength 0 it divides by zero.
\<close>

theorem dipoleCorrection_division_by_zero_witness:
  "(\<exists>bodies'. dipoleCorrection
       [\<lparr>IBODY = 0, ICELL = 0, WEIGHT = 1, X = (1, 0, 0), SRC = 2, TRG = (0, 0, 0, 0)\<rparr>]
       (1, 0, 0) 1 (1, 1, 1) = Inr bodies') \<and>
   dipoleCorrection
       [\<lparr>IBODY = 0, ICELL = 0, WEIGHT = 1, X = (1, 0, 0), SRC = 0, TRG = (0, 0, 0, 0)\<rparr>]
       (1, 0, 0) 1 (1, 1, 1) = Inl DivByZero"
proof
  show "\<exists>bodies'. dipoleCorrection
       [\<lparr>IBODY = 0, ICELL = 0, WEIGHT = 1, X = (1, 0, 0), SRC = 2, TRG = (0, 0, 0, 0)\<rparr>]
       (1, 0, 0) 1 (1, 1, 1) = Inr bodies'"
    using dipoleCorrection_division_by_zero[of 1 1 1 1
        "[\<lparr>IBODY = 0, ICELL = 0, WEIGHT = 1, X = (1, 0, 0), SRC = 2, TRG = (0, 0, 0, 0)\<rparr>]" "(1, 0, 0)" 0]
    by simp
  show "dipoleCorrection
       [\<lparr>IBODY = 0, ICELL = 0, WEIGHT = 1, X = (1, 0, 0), SRC = 0, TRG = (0, 0, 0, 0)\<rparr>]
       (1, 0, 0) 1 (1, 1, 1) = Inl DivByZero"
    using dipoleCorrection_division_by_zero[of 1 1 1 1
        "[\<lparr>IBODY = 0, ICELL = 0, WEIGHT = 1, X = (1, 0, 0), SRC = 0, TRG = (0, 0, 0, 0)\<rparr>]" "(1, 0, 0)" 0]
    by simp
qed

subsection \<open>The transforms\<close>

lemma scale_of_Inr:
  assumes "c0 \<noteq> 0" "c1 \<noteq> 0" "c2 \<noteq> 0"
  shows "scale_of (c0, c1, c2) = Inr (2 * pi / c0, 2 * pi / c1, 2 * pi / c2)"
  by (simp add: scale_of_def fdiv_Inr assms M_PI_def)

lemma phase_theta:
  "phase Kw J (2 * pi / c0, 2 * pi / c1, 2 * pi / c2) = theta Kw J (c0, c1, c2)"
  by (cases Kw; cases J) (simp add: theta_def)

lemma elem_at_Inr: "i < length xs \<Longrightarrow> elem_at xs i = Inr (xs ! i)"
  by (simp add: elem_at_def)

lemma dft_loop:
  assumes "n \<le> length Jbodies"
  shows "for_each [0..<n] (dft_body scale Jbodies) W =
    Inr (W\<lparr>REAL := REAL W + (\<Sum>b<n. src4 (Jbodies ! b) * cos (phase (K W) (Jbodies ! b) scale)),
           IMAG := IMAG W + (\<Sum>b<n. src4 (Jbodies ! b) * sin (phase (K W) (Jbodies ! b) scale))\<rparr>)"
  using assms
proof (induction n)
  case 0
  then show ?case by simp
next
  case (Suc n)
  then have n: "n < length Jbodies" and IH: "for_each [0..<n] (dft_body scale Jbodies) W =
    Inr (W\<lparr>REAL := REAL W + (\<Sum>b<n. src4 (Jbodies ! b) * cos (phase (K W) (Jbodies ! b) scale)),
           IMAG := IMAG W + (\<Sum>b<n. src4 (Jbodies ! b) * sin (phase (K W) (Jbodies ! b) scale))\<rparr>)"
    by simp_all
  have "for_each [0..<Suc n] (dft_body scale Jbodies) W =
      (case for_each [0..<n] (dft_body scale Jbodies) W of Inl e \<Rightarrow> Inl e
       | Inr W' \<Rightarrow> for_each [n] (dft_body scale Jbodies) W')"
    by (simp add: for_each_append)
  also have "\<dots> = Inr (W\<lparr>REAL := REAL W + (\<Sum>b<Suc n. src4 (Jbodies ! b) * cos (phase (K W) (Jbodies ! b) scale)),
           IMAG := IMAG W + (\<Sum>b<Suc n. src4 (Jbodies ! b) * sin (phase (K W) (Jbodies ! b) scale))\<rparr>)"
    unfolding IH by (simp add: dft_body_def elem_at_Inr[OF n] Let_def add.assoc)
  finally show ?case .
qed

lemma int_of_size_le: "int_of_size n \<le> int n"
proof -
  have "(int n + 2147483648) mod 4294967296 \<le> int n + 2147483648"
    by (rule zmod_le_nonneg_dividend) simp
  then show ?thesis by (simp add: int_of_size_def)
qed

lemma int_of_size_small:
  assumes "int n \<le> INT_MAX"
  shows "int_of_size n = int n"
proof -
  have "(int n + 2147483648) mod 4294967296 = int n + 2147483648"
    by (rule mod_pos_pos_trivial) (use assms in \<open>simp_all add: INT_MAX_def\<close>)
  then show ?thesis by (simp add: int_of_size_def)
qed

lemma dft_wave_Inr:
  assumes "nat numBodies \<le> length Jbodies" and "w < length ws"
  shows "dft_wave scale Jbodies numBodies w ws =
    Inr (ws[w := (ws ! w)
      \<lparr>REAL := (\<Sum>b<nat numBodies. src4 (Jbodies ! b) * cos (phase (K (ws ! w)) (Jbodies ! b) scale)),
       IMAG := (\<Sum>b<nat numBodies. src4 (Jbodies ! b) * sin (phase (K (ws ! w)) (Jbodies ! b) scale))\<rparr>])"
  by (simp add: dft_wave_def elem_at_Inr[OF assms(2)] dft_loop[OF assms(1)])

lemma dft_waves:
  assumes "cycle E = (c0, c1, c2)" and "c0 \<noteq> 0" and "c1 \<noteq> 0" and "c2 \<noteq> 0"
    and "numBodies \<le> int (length Jbodies)"
  shows "\<exists>waves'. dft E waves Jbodies numBodies = Inr waves' \<and> length waves' = length waves \<and>
    (\<forall>w < length waves. waves' ! w =
       (if w < nat (int_of_size (length waves))
        then (waves ! w)
          \<lparr>REAL := (\<Sum>b<nat numBodies. src4 (Jbodies ! b) * cos (theta (K (waves ! w)) (Jbodies ! b) (c0, c1, c2))),
           IMAG := (\<Sum>b<nat numBodies. src4 (Jbodies ! b) * sin (theta (K (waves ! w)) (Jbodies ! b) (c0, c1, c2)))\<rparr>
        else waves ! w))"
proof -
  let ?scale = "(2 * pi / c0, 2 * pi / c1, 2 * pi / c2)"
  have n: "nat numBodies \<le> length Jbodies" using assms(5) by simp
  have m: "nat (int_of_size (length waves)) \<le> length waves"
    using int_of_size_le[of "length waves"] by simp
  have body: "dft_wave ?scale Jbodies numBodies w ys =
      Inr (ys[w := (\<lambda>(w::nat) W. W
        \<lparr>REAL := (\<Sum>b<nat numBodies. src4 (Jbodies ! b) * cos (theta (K W) (Jbodies ! b) (c0, c1, c2))),
         IMAG := (\<Sum>b<nat numBodies. src4 (Jbodies ! b) * sin (theta (K W) (Jbodies ! b) (c0, c1, c2)))\<rparr>)
        w (ys ! w)])"
    if "w < nat (int_of_size (length waves))" "length ys = length waves" for w ys
  proof -
    from that m have "w < length ys" by simp
    from dft_wave_Inr[OF n this, of ?scale] show ?thesis by (simp add: phase_theta)
  qed
  have "dft E waves Jbodies numBodies =
      for_each [0..<nat (int_of_size (length waves))] (dft_wave ?scale Jbodies numBodies) waves"
    by (simp add: dft_def assms(1) scale_of_Inr[OF assms(2,3,4)])
  with index_loop[OF m body] show ?thesis by simp
qed

lemma dft_Inr:
  assumes "cycle E = (c0, c1, c2)" and "c0 \<noteq> 0" and "c1 \<noteq> 0" and "c2 \<noteq> 0"
    and "numBodies \<le> int (length Jbodies)" and "int (length waves) \<le> INT_MAX"
  shows "dft E waves Jbodies numBodies =
    Inr (map (\<lambda>W. W\<lparr>REAL := (\<Sum>b<nat numBodies. src4 (Jbodies ! b) * cos (theta (K W) (Jbodies ! b) (c0, c1, c2))),
                     IMAG := (\<Sum>b<nat numBodies. src4 (Jbodies ! b) * sin (theta (K W) (Jbodies ! b) (c0, c1, c2)))\<rparr>)
           waves)"
proof -
  from dft_waves[OF assms(1-5), of waves] obtain waves' where
    w: "dft E waves Jbodies numBodies = Inr waves'" "length waves' = length waves"
      "\<forall>w < length waves. waves' ! w =
       (if w < nat (int_of_size (length waves))
        then (waves ! w)
          \<lparr>REAL := (\<Sum>b<nat numBodies. src4 (Jbodies ! b) * cos (theta (K (waves ! w)) (Jbodies ! b) (c0, c1, c2))),
           IMAG := (\<Sum>b<nat numBodies. src4 (Jbodies ! b) * sin (theta (K (waves ! w)) (Jbodies ! b) (c0, c1, c2)))\<rparr>
        else waves ! w)"
    by blast
  have "nat (int_of_size (length waves)) = length waves"
    using int_of_size_small[OF assms(6)] by simp
  with w(3) have "waves' ! w = (map (\<lambda>W. W\<lparr>REAL := (\<Sum>b<nat numBodies. src4 (Jbodies ! b) * cos (theta (K W) (Jbodies ! b) (c0, c1, c2))),
                     IMAG := (\<Sum>b<nat numBodies. src4 (Jbodies ! b) * sin (theta (K W) (Jbodies ! b) (c0, c1, c2)))\<rparr>)
           waves) ! w" if "w < length waves" for w
    using that by simp
  then have "waves' = map (\<lambda>W. W\<lparr>REAL := (\<Sum>b<nat numBodies. src4 (Jbodies ! b) * cos (theta (K W) (Jbodies ! b) (c0, c1, c2))),
                     IMAG := (\<Sum>b<nat numBodies. src4 (Jbodies ! b) * sin (theta (K W) (Jbodies ! b) (c0, c1, c2)))\<rparr>)
           waves"
    using w(2) by (intro nth_equalityI) simp_all
  with w(1) show ?thesis by simp
qed

lemma dft_skipped:
  assumes "cycle E = (c0, c1, c2)" and "c0 \<noteq> 0" and "c1 \<noteq> 0" and "c2 \<noteq> 0"
    and "int_of_size (length waves) \<le> 0"
  shows "dft E waves Jbodies numBodies = Inr waves"
  by (simp add: dft_def assms(1,5) scale_of_Inr[OF assms(2,3,4)])

text \<open>
  Claim C4, as amended. When no box length is zero and \<open>numBodies\<close> bodies are in the
  array, \<open>dft\<close> returns the waves with their wave numbers unchanged. The loop runs over
  the waves \<open>w\<close> below \<^verbatim>\<open>int(waves.size())\<close>: the amplitude of each of them is
  \<open>(\<Sum>\<^sub>b q\<^sub>b * cos \<theta>\<^sub>b, \<Sum>\<^sub>b q\<^sub>b * sin \<theta>\<^sub>b)\<close> over the bodies \<open>b < numBodies\<close>, where \<open>q\<^sub>b\<close> is the source
  strength of body \<open>b\<close> and \<open>\<theta>\<^sub>b\<close> its phase for the wave number of the wave, and every
  other wave is as it was. For a list of at most \<open>INT_MAX\<close> waves, these are all the waves
  of the list.
\<close>

theorem dft_amplitudes:
  assumes "cycle E = (c0, c1, c2)" and "c0 \<noteq> 0" and "c1 \<noteq> 0" and "c2 \<noteq> 0"
    and "numBodies \<le> int (length Jbodies)"
  shows "\<exists>waves'. dft E waves Jbodies numBodies = Inr waves' \<and>
           length waves' = length waves \<and>
           (\<forall>w < length waves.
              K (waves' ! w) = K (waves ! w) \<and>
              (int w < int_of_size (length waves) \<longrightarrow>
                 REAL (waves' ! w) =
                   (\<Sum>b<nat numBodies. src4 (Jbodies ! b) * cos (theta (K (waves ! w)) (Jbodies ! b) (c0, c1, c2))) \<and>
                 IMAG (waves' ! w) =
                   (\<Sum>b<nat numBodies. src4 (Jbodies ! b) * sin (theta (K (waves ! w)) (Jbodies ! b) (c0, c1, c2)))) \<and>
              (\<not> int w < int_of_size (length waves) \<longrightarrow> waves' ! w = waves ! w)) \<and>
           (int (length waves) \<le> INT_MAX \<longrightarrow>
              (\<forall>w < length waves.
                 REAL (waves' ! w) =
                   (\<Sum>b<nat numBodies. src4 (Jbodies ! b) * cos (theta (K (waves ! w)) (Jbodies ! b) (c0, c1, c2))) \<and>
                 IMAG (waves' ! w) =
                   (\<Sum>b<nat numBodies. src4 (Jbodies ! b) * sin (theta (K (waves ! w)) (Jbodies ! b) (c0, c1, c2)))))"
proof -
  from dft_waves[OF assms, of waves] obtain waves' where
    w: "dft E waves Jbodies numBodies = Inr waves'" "length waves' = length waves"
      "\<forall>w < length waves. waves' ! w =
       (if w < nat (int_of_size (length waves))
        then (waves ! w)
          \<lparr>REAL := (\<Sum>b<nat numBodies. src4 (Jbodies ! b) * cos (theta (K (waves ! w)) (Jbodies ! b) (c0, c1, c2))),
           IMAG := (\<Sum>b<nat numBodies. src4 (Jbodies ! b) * sin (theta (K (waves ! w)) (Jbodies ! b) (c0, c1, c2)))\<rparr>
        else waves ! w)"
    by blast
  have lt: "(w < nat (int_of_size (length waves))) = (int w < int_of_size (length waves))" for w
    by auto
  have all: "int w < int_of_size (length waves)" if "int (length waves) \<le> INT_MAX" "w < length waves" for w
    using int_of_size_small[OF that(1)] that(2) by simp
  show ?thesis
  proof (intro exI[of _ waves'] conjI allI impI)
    show "dft E waves Jbodies numBodies = Inr waves'" by (rule w(1))
    show "length waves' = length waves" by (rule w(2))
  next
    fix w assume "w < length waves"
    with w(3) show "K (waves' ! w) = K (waves ! w)" by simp
  next
    fix w assume "w < length waves" "int w < int_of_size (length waves)"
    with w(3) show "REAL (waves' ! w) =
        (\<Sum>b<nat numBodies. src4 (Jbodies ! b) * cos (theta (K (waves ! w)) (Jbodies ! b) (c0, c1, c2)))"
      by (simp add: lt)
  next
    fix w assume "w < length waves" "int w < int_of_size (length waves)"
    with w(3) show "IMAG (waves' ! w) =
        (\<Sum>b<nat numBodies. src4 (Jbodies ! b) * sin (theta (K (waves ! w)) (Jbodies ! b) (c0, c1, c2)))"
      by (simp add: lt)
  next
    fix w assume "w < length waves" "\<not> int w < int_of_size (length waves)"
    with w(3) show "waves' ! w = waves ! w" by (simp add: lt)
  next
    fix w assume "int (length waves) \<le> INT_MAX" "w < length waves"
    with w(3) all[of w] show "REAL (waves' ! w) =
        (\<Sum>b<nat numBodies. src4 (Jbodies ! b) * cos (theta (K (waves ! w)) (Jbodies ! b) (c0, c1, c2)))"
      by (simp add: lt)
  next
    fix w assume "int (length waves) \<le> INT_MAX" "w < length waves"
    with w(3) all[of w] show "IMAG (waves' ! w) =
        (\<Sum>b<nat numBodies. src4 (Jbodies ! b) * sin (theta (K (waves ! w)) (Jbodies ! b) (c0, c1, c2)))"
      by (simp add: lt)
  qed
qed

text \<open>
  The theorem for the wave number \<open>(0, 0, 1)\<close> in the unit box and two bodies: strength 3
  at the origin, with phase 0, and strength 5 at \<open>(0, 0, 1/2)\<close>, with phase \<open>\<pi>\<close>.
\<close>

theorem dft_amplitudes_witness:
  "\<exists>waves'. dft \<lparr>ksize = 1, alpha = 1, sigma = 1, cutoff = 1, cycle = (1, 1, 1)\<rparr>
       [\<lparr>K = (0, 0, 1), REAL = 7, IMAG = 9\<rparr>] [(0, 0, 0, 3), (0, 0, 1 / 2, 5)] 2 = Inr waves' \<and>
     length waves' = 1 \<and> REAL (waves' ! 0) = - 2 \<and> IMAG (waves' ! 0) = 0"
proof -
  let ?E = "\<lparr>ksize = 1, alpha = 1, sigma = 1, cutoff = 1, cycle = (1, 1, 1)\<rparr>"
  have c: "cycle ?E = (1, 1, 1)" by simp
  have n: "(2::int) \<le> int (length [(0, 0, 0, 3), (0, 0, 1 / 2, 5::real)])" by simp
  have one: "(1::real) \<noteq> 0" by simp
  have two: "{..<2::nat} = {0, 1}" by auto
  have s: "int_of_size (Suc 0) = 1" by (simp add: int_of_size_def)
  from dft_amplitudes[OF c one one one n, of "[\<lparr>K = (0, 0, 1), REAL = 7, IMAG = 9\<rparr>]"]
  have "\<exists>waves'. dft ?E [\<lparr>K = (0, 0, 1), REAL = 7, IMAG = 9\<rparr>] [(0, 0, 0, 3), (0, 0, 1 / 2, 5)] 2 = Inr waves' \<and>
     length waves' = 1 \<and> K (waves' ! 0) = (0, 0, 1) \<and> REAL (waves' ! 0) = - 2 \<and> IMAG (waves' ! 0) = 0"
    by (simp add: theta_def two s INT_MAX_def)
  then show ?thesis by blast
qed

text \<open>
  Claim C4 as stated, for every wave list, fails for a list of more than \<open>INT_MAX\<close> waves.
  For \<open>2\<^sup>3\<^sup>1\<close> waves of wave number \<open>(0, 0, 1)\<close> and amplitude \<open>(7, 9)\<close> in the unit box and one body
  of strength 3 at the origin, \<^verbatim>\<open>int(waves.size())\<close> is \<open>- 2\<^sup>3\<^sup>1\<close> and the loop over waves does not
  run: the first wave keeps the real amplitude 7, where the sum of the claim is 3.
\<close>

theorem dft_narrowing_counterexample:
  "int_of_size (length (replicate 2147483648 \<lparr>K = (0, 0, 1), REAL = 7, IMAG = 9\<rparr>)) = - 2147483648 \<and>
   dft \<lparr>ksize = 1, alpha = 1, sigma = 1, cutoff = 1, cycle = (1, 1, 1)\<rparr>
       (replicate 2147483648 \<lparr>K = (0, 0, 1), REAL = 7, IMAG = 9\<rparr>) [(0, 0, 0, 3)] 1 =
     Inr (replicate 2147483648 \<lparr>K = (0, 0, 1), REAL = 7, IMAG = 9\<rparr>) \<and>
   REAL (replicate 2147483648 \<lparr>K = (0, 0, 1), REAL = 7, IMAG = 9\<rparr> ! 0) = 7 \<and>
   (\<Sum>b<nat 1. src4 ([(0, 0, 0, 3)] ! b)
       * cos (theta (K (replicate 2147483648 \<lparr>K = (0, 0, 1), REAL = 7, IMAG = 9\<rparr> ! 0)) ([(0, 0, 0, 3)] ! b) (1, 1, 1))) = 3"
proof -
  let ?E = "\<lparr>ksize = 1, alpha = 1, sigma = 1, cutoff = 1, cycle = (1, 1, 1)\<rparr>"
  let ?W = "\<lparr>K = (0, 0, 1), REAL = 7, IMAG = 9\<rparr>"
  have l: "int_of_size (length (replicate 2147483648 ?W)) = - 2147483648"
    unfolding length_replicate by (simp add: int_of_size_def)
  have c: "cycle ?E = (1, 1, 1)" by simp
  have one: "(1::real) \<noteq> 0" by simp
  have le: "int_of_size (length (replicate 2147483648 ?W)) \<le> 0" unfolding l by simp
  have d: "dft ?E (replicate 2147483648 ?W) [(0, 0, 0, 3)] 1 = Inr (replicate 2147483648 ?W)"
    by (rule dft_skipped[OF c one one one le])
  have n: "replicate 2147483648 ?W ! 0 = ?W" by (rule nth_replicate) simp
  have r: "REAL (replicate 2147483648 ?W ! 0) = 7" unfolding n by simp
  have a: "(\<Sum>b<nat 1. src4 ([(0, 0, 0, 3)] ! b)
       * cos (theta (K (replicate 2147483648 ?W ! 0)) ([(0, 0, 0, 3)] ! b) (1, 1, 1))) = 3"
    unfolding n by (simp add: theta_def)
  from l d r a show ?thesis by (intro conjI)
qed

lemma idft_wave_Inr:
  assumes "b < length Jbodies"
  shows "idft_wave scale Jbodies b W (t0, t1, t2, t3) =
    Inr (t0 + (REAL W * cos (phase (K W) (Jbodies ! b) scale)
               + IMAG W * sin (phase (K W) (Jbodies ! b) scale)),
         t1 - (REAL W * sin (phase (K W) (Jbodies ! b) scale)
               - IMAG W * cos (phase (K W) (Jbodies ! b) scale)) * fst (K W),
         t2 - (REAL W * sin (phase (K W) (Jbodies ! b) scale)
               - IMAG W * cos (phase (K W) (Jbodies ! b) scale)) * fst (snd (K W)),
         t3 - (REAL W * sin (phase (K W) (Jbodies ! b) scale)
               - IMAG W * cos (phase (K W) (Jbodies ! b) scale)) * snd (snd (K W)))"
  by (cases "K W") (simp add: idft_wave_def elem_at_Inr[OF assms] Let_def)

lemma idft_waves_loop:
  assumes "b < length Jbodies"
  shows "for_each waves (idft_wave scale Jbodies b) (t0, t1, t2, t3) =
    Inr (t0 + (\<Sum>W\<leftarrow>waves. REAL W * cos (phase (K W) (Jbodies ! b) scale)
                              + IMAG W * sin (phase (K W) (Jbodies ! b) scale)),
         t1 - (\<Sum>W\<leftarrow>waves. (REAL W * sin (phase (K W) (Jbodies ! b) scale)
                              - IMAG W * cos (phase (K W) (Jbodies ! b) scale)) * fst (K W)),
         t2 - (\<Sum>W\<leftarrow>waves. (REAL W * sin (phase (K W) (Jbodies ! b) scale)
                              - IMAG W * cos (phase (K W) (Jbodies ! b) scale)) * fst (snd (K W))),
         t3 - (\<Sum>W\<leftarrow>waves. (REAL W * sin (phase (K W) (Jbodies ! b) scale)
                              - IMAG W * cos (phase (K W) (Jbodies ! b) scale)) * snd (snd (K W))))"
proof (induction waves arbitrary: t0 t1 t2 t3)
  case Nil
  then show ?case by simp
next
  case (Cons W waves)
  show ?case
    by (simp add: idft_wave_Inr[OF assms] Cons.IH add.assoc diff_diff_eq)
qed

lemma idft_body_Inr:
  assumes "b < length Jbodies" and "b < length Ibodies"
  shows "idft_body (2 * pi / c0, 2 * pi / c1, 2 * pi / c2) waves Jbodies b Ibodies =
     Inr (Ibodies[b := vadd4 (Ibodies ! b) (idft_increment waves (Jbodies ! b) (c0, c1, c2))])"
  unfolding idft_body_def idft_waves_loop[OF assms(1)] sum.case prod.case elem_at_Inr[OF assms(2)]
  by (simp add: idft_increment_def phase_theta)

text \<open>
  Claim C5. When no box length is zero and both arrays hold \<open>numBodies\<close> bodies, \<open>idft\<close>
  returns the target array in which every body \<open>b < numBodies\<close> has gained, on top of
  the values it had, the potential \<open>\<Sum>\<^sub>W (real\<^sub>W * cos \<theta>\<^sub>W + imag\<^sub>W * sin \<theta>\<^sub>W)\<close> and for each axis
  \<open>d\<close> the force \<open>- (\<Sum>\<^sub>W dtmp\<^sub>W * K\<^sub>W[d]) * (2\<pi> / cycle[d])\<close>, with the phase \<open>\<theta>\<^sub>W\<close> of the forward
  transform and \<open>dtmp\<^sub>W = real\<^sub>W * sin \<theta>\<^sub>W - imag\<^sub>W * cos \<theta>\<^sub>W\<close>; the other bodies keep their values.
\<close>

theorem idft_adds_increment:
  assumes "cycle E = (c0, c1, c2)" and "c0 \<noteq> 0" and "c1 \<noteq> 0" and "c2 \<noteq> 0"
    and "numBodies \<le> int (length Jbodies)" and "numBodies \<le> int (length Ibodies)"
  shows "\<exists>Ibodies'. idft E waves Ibodies Jbodies numBodies = Inr Ibodies' \<and>
           length Ibodies' = length Ibodies \<and>
           (\<forall>b < length Ibodies.
              Ibodies' ! b =
                (if int b < numBodies
                 then vadd4 (Ibodies ! b) (idft_increment waves (Jbodies ! b) (c0, c1, c2))
                 else Ibodies ! b))"
proof -
  let ?scale = "(2 * pi / c0, 2 * pi / c1, 2 * pi / c2)"
  have n: "nat numBodies \<le> length Ibodies" using assms(6) by simp
  have body: "idft_body ?scale waves Jbodies b ys =
      Inr (ys[b := (\<lambda>b I. vadd4 I (idft_increment waves (Jbodies ! b) (c0, c1, c2))) b (ys ! b)])"
    if "b < nat numBodies" "length ys = length Ibodies" for b ys
    using that assms(5,6) by (intro idft_body_Inr) auto
  have lt: "(b < nat numBodies) = (int b < numBodies)" for b by auto
  have "idft E waves Ibodies Jbodies numBodies =
      for_each [0..<nat numBodies] (idft_body ?scale waves Jbodies) Ibodies"
    by (simp add: idft_def assms(1) scale_of_Inr[OF assms(2,3,4)])
  with index_loop[OF n body] show ?thesis
    unfolding lt by simp
qed

text \<open>
  The theorem for one wave \<open>(0, 0, 1)\<close> of amplitude \<open>(2, 3)\<close> in the unit box and one body
  at the origin.
\<close>

theorem idft_adds_increment_witness:
  "\<exists>Ibodies'. idft \<lparr>ksize = 1, alpha = 1, sigma = 1, cutoff = 1, cycle = (1, 1, 1)\<rparr>
       [\<lparr>K = (0, 0, 1), REAL = 2, IMAG = 3\<rparr>] [(10, 20, 30, 40)] [(0, 0, 0, 1)] 1 = Inr Ibodies' \<and>
     length Ibodies' = 1 \<and> Ibodies' ! 0 = (12, 20, 30, 40 + 6 * pi)"
proof -
  let ?E = "\<lparr>ksize = 1, alpha = 1, sigma = 1, cutoff = 1, cycle = (1, 1, 1)\<rparr>"
  have c: "cycle ?E = (1, 1, 1)" by simp
  have n: "(1::int) \<le> int (length [(0, 0, 0, 1::real)])" by simp
  have m: "(1::int) \<le> int (length [(10, 20, 30, 40::real)])" by simp
  have one: "(1::real) \<noteq> 0" by simp
  from idft_adds_increment[OF c one one one n m, of "[\<lparr>K = (0, 0, 1), REAL = 2, IMAG = 3\<rparr>]"]
  have "\<exists>Ibodies'. idft ?E [\<lparr>K = (0, 0, 1), REAL = 2, IMAG = 3\<rparr>] [(10, 20, 30, 40)] [(0, 0, 0, 1)] 1 = Inr Ibodies' \<and>
     length Ibodies' = 1 \<and> Ibodies' ! 0 = (12, 20, 30, 40 + 6 * pi)"
    by (simp add: idft_increment_def theta_def)
  then show ?thesis .
qed

subsection \<open>The reciprocal filter\<close>

lemma wave_coef_Inr:
  assumes "cycle E = (c0, c1, c2)" and "c0 \<noteq> 0" and "c1 \<noteq> 0" and "c2 \<noteq> 0" and "sigma E \<noteq> 0"
  shows "wave_coef E = Inr (2 / (sigma E * c0 * c1 * c2))"
  by (simp add: wave_coef_def assms fdiv_Inr mult.assoc)

lemma norm_vmul_scale:
  "norm_vec3 (vmul Kw (2 * pi / c0, 2 * pi / c1, 2 * pi / c2)) = K2_scaled Kw (c0, c1, c2)"
  by (cases Kw) (simp add: K2_scaled_def power2_eq_square)

lemma sum3_sq_pos:
  fixes a b c :: real
  assumes "a \<noteq> 0 \<or> b \<noteq> 0 \<or> c \<noteq> 0"
  shows "0 < a\<^sup>2 + b\<^sup>2 + c\<^sup>2"
proof -
  have n: "0 \<le> a\<^sup>2" "0 \<le> b\<^sup>2" "0 \<le> c\<^sup>2" by simp_all
  from assms consider "0 < a\<^sup>2" | "0 < b\<^sup>2" | "0 < c\<^sup>2" by auto
  then show ?thesis using n by cases linarith+
qed

lemma K2_scaled_pos:
  assumes "c0 \<noteq> 0" and "c1 \<noteq> 0" and "c2 \<noteq> 0" and "Kw \<noteq> (0, 0, 0)"
  shows "0 < K2_scaled Kw (c0, c1, c2)"
proof -
  obtain k0 k1 k2 where k: "Kw = (k0, k1, k2)" by (cases Kw) auto
  have s: "2 * pi / c0 \<noteq> 0" "2 * pi / c1 \<noteq> 0" "2 * pi / c2 \<noteq> 0" using assms(1,2,3) by simp_all
  from assms(4) k have "k0 \<noteq> 0 \<or> k1 \<noteq> 0 \<or> k2 \<noteq> 0" by simp
  then have "k0 * (2 * pi / c0) \<noteq> 0 \<or> k1 * (2 * pi / c1) \<noteq> 0 \<or> k2 * (2 * pi / c2) \<noteq> 0"
    using s by simp
  then have "0 < (k0 * (2 * pi / c0))\<^sup>2 + (k1 * (2 * pi / c1))\<^sup>2 + (k2 * (2 * pi / c2))\<^sup>2"
    by (rule sum3_sq_pos)
  then show ?thesis by (simp add: K2_scaled_def k)
qed

lemma wave_factor_Inr:
  assumes "cycle E = (c0, c1, c2)" and "K2_scaled (K W) (c0, c1, c2) \<noteq> 0"
  shows "wave_factor (2 * pi / c0, 2 * pi / c1, 2 * pi / c2) (2 / (sigma E * c0 * c1 * c2))
           (1 / (4 * alpha E * alpha E)) W =
         Inr (W\<lparr>REAL := REAL W * filter_factor E (K W), IMAG := IMAG W * filter_factor E (K W)\<rparr>)"
  unfolding wave_factor_def Let_def norm_vmul_scale fdiv_Inr[OF assms(2)] sum.case
  by (simp add: filter_factor_def assms(1) power2_eq_square)

lemma wavePart_filter_Inr:
  assumes "cycle E = (c0, c1, c2)" and "c0 \<noteq> 0" and "c1 \<noteq> 0" and "c2 \<noteq> 0"
    and "sigma E \<noteq> 0" and "alpha E \<noteq> 0" and "\<And>W. W \<in> set waves \<Longrightarrow> K W \<noteq> (0, 0, 0)"
  shows "wavePart_filter E waves =
    Inr (map (\<lambda>W. W\<lparr>REAL := REAL W * filter_factor E (K W), IMAG := IMAG W * filter_factor E (K W)\<rparr>) waves)"
proof -
  have a: "4 * alpha E * alpha E \<noteq> 0" using assms(6) by simp
  have "wavePart_filter E waves =
      map_each (wave_factor (2 * pi / c0, 2 * pi / c1, 2 * pi / c2) (2 / (sigma E * c0 * c1 * c2))
           (1 / (4 * alpha E * alpha E))) waves"
    unfolding wavePart_filter_def assms(1) scale_of_Inr[OF assms(2,3,4)] sum.case
      wave_coef_Inr[OF assms(1,2,3,4,5)] fdiv_Inr[OF a] by simp
  also have "\<dots> = Inr (map (\<lambda>W. W\<lparr>REAL := REAL W * filter_factor E (K W), IMAG := IMAG W * filter_factor E (K W)\<rparr>) waves)"
  proof (rule map_each_Inr)
    fix W assume "W \<in> set waves"
    then have "K W \<noteq> (0, 0, 0)" by (rule assms(7))
    then have "K2_scaled (K W) (c0, c1, c2) \<noteq> 0"
      using K2_scaled_pos[OF assms(2,3,4), of "K W"] by simp
    then show "wave_factor (2 * pi / c0, 2 * pi / c1, 2 * pi / c2) (2 / (sigma E * c0 * c1 * c2))
           (1 / (4 * alpha E * alpha E)) W =
         Inr (W\<lparr>REAL := REAL W * filter_factor E (K W), IMAG := IMAG W * filter_factor E (K W)\<rparr>)"
      by (rule wave_factor_Inr[OF assms(1)])
  qed
  finally show ?thesis .
qed

lemma initWaves_K_nonzero:
  assumes "initWaves E = Inr waves" and "W \<in> set waves"
  shows "K W \<noteq> (0, 0, 0)"
proof (cases "0 \<le> ksize E")
  case True
  have "3 * (ksize E * ksize E) \<le> INT_MAX"
  proof (rule ccontr)
    assume "\<not> 3 * (ksize E * ksize E) \<le> INT_MAX"
    then have "initWaves E = Inl IntOverflow" using True by (intro initWaves_overflow) simp_all
    with assms(1) show False by simp
  qed
  with True have "initWaves E = Inr (map mkWave (lattice_list (ksize E)))" by (rule initWaves_list)
  with assms obtain v where v: "v \<in> set (lattice_list (ksize E))" "W = mkWave v" by auto
  then have "v \<in> wave_set (ksize E)" using set_lattice_list[OF True] by simp
  then have "vec_of_int v \<noteq> (0, 0, 0)" by (auto simp: wave_set_def vec_of_int_def)
  then show ?thesis by (simp add: v(2) K_mkWave)
next
  case False
  then have "[0..ksize E] = []" by simp
  then have "initWaves E = Inr [] \<or> (\<exists>e. initWaves E = Inl e)"
    by (cases "cint (ksize E * ksize E)") (simp_all add: initWaves_def Let_def)
  with assms show ?thesis by auto
qed

lemma dft_body_K: "dft_body scale Jbodies b W = Inr W' \<Longrightarrow> K W' = K W"
  by (auto simp: dft_body_def Let_def split: sum.splits)

lemma dft_loop_K: "for_each bs (dft_body scale Jbodies) W = Inr W' \<Longrightarrow> K W' = K W"
proof (induction bs arbitrary: W)
  case Nil
  then show ?case by simp
next
  case (Cons b bs)
  then obtain W1 where 1: "dft_body scale Jbodies b W = Inr W1"
    and 2: "for_each bs (dft_body scale Jbodies) W1 = Inr W'"
    by (auto split: sum.splits)
  from Cons.IH[OF 2] dft_body_K[OF 1] show ?case by simp
qed

lemma dft_wave_K:
  assumes "dft_wave scale Jbodies numBodies w ws = Inr ws'"
  shows "map K ws' = map K ws"
proof -
  from assms obtain W' where w: "w < length ws"
    and 1: "for_each [0..<nat numBodies] (dft_body scale Jbodies) ((ws ! w)\<lparr>REAL := 0, IMAG := 0\<rparr>) = Inr W'"
    and 2: "ws' = ws[w := W']"
    by (auto simp: dft_wave_def elem_at_def split: if_splits sum.splits)
  from dft_loop_K[OF 1] have "K W' = K (ws ! w)" by simp
  then have "(map K ws)[w := K W'] = map K ws" using w by (simp add: list_update_same_conv)
  then show ?thesis unfolding 2 by (simp add: map_update)
qed

lemma dft_K:
  assumes "dft E waves Jbodies numBodies = Inr waves'"
  shows "map K waves' = map K waves"
proof (cases "scale_of (cycle E)")
  case (Inl e)
  with assms show ?thesis by (simp add: dft_def)
next
  case (Inr scale)
  with assms have m: "for_each [0..<nat (int_of_size (length waves))]
      (dft_wave scale Jbodies numBodies) waves = Inr waves'"
    by (simp add: dft_def)
  show ?thesis
    by (rule for_each_preserves[OF m]) (rule dft_wave_K)
qed

text \<open>
  Claim C3. Let no box length be zero, and \<open>sigma\<close> and \<open>alpha\<close> not zero. In \<open>wavePart\<close>
  the waves that \<open>dft\<close> returns for the wave set of \<open>initWaves\<close> all have \<open>K\<^sup>2 \<noteq> 0\<close>, for
  the wave number scaled componentwise by \<open>2\<pi> / cycle[d]\<close>; the filter step returns them
  with the real and the imaginary amplitude both multiplied by
  \<open>coef * exp (- K\<^sup>2 / (4 * alpha\<^sup>2)) / K\<^sup>2\<close>, where \<open>coef = 2 / (sigma * cycle_x * cycle_y * cycle_z)\<close>,
  and the wave numbers as they were; \<open>idft\<close> then runs on these waves.
\<close>

theorem wavePart_filter_factor:
  assumes "cycle E = (c0, c1, c2)" and "c0 \<noteq> 0" and "c1 \<noteq> 0" and "c2 \<noteq> 0"
    and "sigma E \<noteq> 0" and "alpha E \<noteq> 0"
    and "initWaves E = Inr waves0" and "dft E waves0 Jbodies numBodies = Inr waves"
  shows "\<exists>waves'. wavePart_filter E waves = Inr waves' \<and>
           wavePart E Ibodies Jbodies numBodies = idft E waves' Ibodies Jbodies numBodies \<and>
           length waves' = length waves \<and>
           (\<forall>w < length waves.
              K2_scaled (K (waves ! w)) (c0, c1, c2) \<noteq> 0 \<and>
              K (waves' ! w) = K (waves ! w) \<and>
              REAL (waves' ! w) = REAL (waves ! w) * filter_factor E (K (waves ! w)) \<and>
              IMAG (waves' ! w) = IMAG (waves ! w) * filter_factor E (K (waves ! w)))"
proof -
  let ?ws = "map (\<lambda>W. W\<lparr>REAL := REAL W * filter_factor E (K W), IMAG := IMAG W * filter_factor E (K W)\<rparr>) waves"
  have nz: "K W \<noteq> (0, 0, 0)" if "W \<in> set waves" for W
  proof -
    from that have "K W \<in> set (map K waves)" by simp
    then have "K W \<in> set (map K waves0)" using dft_K[OF assms(8)] by simp
    then obtain W0 where "W0 \<in> set waves0" "K W0 = K W" by auto
    then show ?thesis using initWaves_K_nonzero[OF assms(7), of W0] by simp
  qed
  have 1: "wavePart_filter E waves = Inr ?ws"
    using assms(1-6) nz by (rule wavePart_filter_Inr)
  have 2: "wavePart E Ibodies Jbodies numBodies = idft E ?ws Ibodies Jbodies numBodies"
    by (simp add: wavePart_def assms(7,8) 1)
  have 3: "length ?ws = length waves" by simp
  have 4: "K2_scaled (K (waves ! w)) (c0, c1, c2) \<noteq> 0" if "w < length waves" for w
    using K2_scaled_pos[OF assms(2,3,4), of "K (waves ! w)"] nz[of "waves ! w"] that by simp
  have 5: "K (?ws ! w) = K (waves ! w)" if "w < length waves" for w
    using that by simp
  have 6: "REAL (?ws ! w) = REAL (waves ! w) * filter_factor E (K (waves ! w))" if "w < length waves" for w
    using that by simp
  have 7: "IMAG (?ws ! w) = IMAG (waves ! w) * filter_factor E (K (waves ! w))" if "w < length waves" for w
    using that by simp
  show ?thesis
  proof (intro exI[of _ ?ws] conjI allI impI)
    show "wavePart_filter E waves = Inr ?ws" by (rule 1)
    show "wavePart E Ibodies Jbodies numBodies = idft E ?ws Ibodies Jbodies numBodies" by (rule 2)
    show "length ?ws = length waves" by (rule 3)
  next
    fix w assume w: "w < length waves"
    show "K2_scaled (K (waves ! w)) (c0, c1, c2) \<noteq> 0" by (rule 4[OF w])
    show "K (?ws ! w) = K (waves ! w)" by (rule 5[OF w])
    show "REAL (?ws ! w) = REAL (waves ! w) * filter_factor E (K (waves ! w))" by (rule 6[OF w])
    show "IMAG (?ws ! w) = IMAG (waves ! w) * filter_factor E (K (waves ! w))" by (rule 7[OF w])
  qed
qed

text \<open>The theorem for \<open>ksize = 1\<close> in the unit box and one body of strength 1 at the origin.\<close>

theorem wavePart_filter_factor_witness:
  "\<exists>waves0 waves waves'.
      initWaves \<lparr>ksize = 1, alpha = 1, sigma = 1, cutoff = 1, cycle = (1, 1, 1)\<rparr> = Inr waves0 \<and>
      dft \<lparr>ksize = 1, alpha = 1, sigma = 1, cutoff = 1, cycle = (1, 1, 1)\<rparr> waves0 [(0, 0, 0, 1)] 1 = Inr waves \<and>
      wavePart_filter \<lparr>ksize = 1, alpha = 1, sigma = 1, cutoff = 1, cycle = (1, 1, 1)\<rparr> waves = Inr waves' \<and>
      length waves' = 3 \<and>
      REAL (waves' ! 0) = REAL (waves ! 0)
         * filter_factor \<lparr>ksize = 1, alpha = 1, sigma = 1, cutoff = 1, cycle = (1, 1, 1)\<rparr> (K (waves ! 0))"
proof -
  let ?E = "\<lparr>ksize = 1, alpha = 1, sigma = 1, cutoff = 1, cycle = (1, 1, 1)\<rparr>"
  let ?ws0 = "map mkWave (lattice_list (ksize ?E))"
  define waves where "waves =
     map (\<lambda>W. W\<lparr>REAL := (\<Sum>b<nat 1. src4 ([(0, 0, 0, 1)] ! b) * cos (theta (K W) ([(0, 0, 0, 1)] ! b) (1, 1, 1))),
                IMAG := (\<Sum>b<nat 1. src4 ([(0, 0, 0, 1)] ! b) * sin (theta (K W) ([(0, 0, 0, 1)] ! b) (1, 1, 1)))\<rparr>)
       ?ws0"
  have c: "cycle ?E = (1, 1, 1)" by simp
  have one: "(1::real) \<noteq> 0" by simp
  have s: "sigma ?E \<noteq> 0" and a: "alpha ?E \<noteq> 0" by simp_all
  have i: "initWaves ?E = Inr ?ws0"
    by (rule initWaves_list) (simp_all add: INT_MAX_def)
  have n: "(1::int) \<le> int (length [(0, 0, 0, 1::real)])" by simp
  have m: "int (length ?ws0) \<le> INT_MAX" by (simp add: lattice_list_1 INT_MAX_def)
  have d: "dft ?E ?ws0 [(0, 0, 0, 1)] 1 = Inr waves"
    unfolding waves_def by (rule dft_Inr[OF c one one one n m])
  have l: "length waves = 3" by (simp add: waves_def lattice_list_1)
  from wavePart_filter_factor[OF c one one one s a i d]
  obtain waves' where w: "wavePart_filter ?E waves = Inr waves'"
    and len: "length waves' = length waves"
    and re: "\<forall>w < length waves. REAL (waves' ! w) = REAL (waves ! w) * filter_factor ?E (K (waves ! w))"
    by blast
  have l3: "length waves' = 3" using len l by simp
  have "0 < length waves" using l by simp
  with re have r0: "REAL (waves' ! 0) = REAL (waves ! 0) * filter_factor ?E (K (waves ! 0))"
    by blast
  from i d w l3 r0 show ?thesis by blast
qed

subsection \<open>The kernel P2P\<close>

lemma norm_vec3_nonneg: "0 \<le> norm_vec3 v"
  by (cases v) simp

lemma vadd4_zero: "vadd4 t (0, 0, 0, 0) = t"
  by (cases t) simp

lemma P2P_kernel_terms:
  fixes R2 a q M e :: real
  assumes "0 < R2" and "0 < a"
  defines "Rs \<equiv> sqrt R2 * a"
  shows "sqrt (R2 * a * a) = Rs" and "0 < Rs" and "R2 * a * a = Rs\<^sup>2"
    and "q * e * (1 / Rs) * a = q * e / (sqrt R2 * a) * a"
    and "q * (M * exp (- (R2 * a * a)) * (1 / Rs * (1 / Rs)) + e * (1 / Rs * (1 / Rs) * (1 / Rs))) * (a * a * a)
         = q * (M * exp (- Rs\<^sup>2) / Rs\<^sup>2 + e / Rs ^ 3) * a ^ 3"
proof -
  have "sqrt (R2 * a * a) = sqrt R2 * sqrt (a * a)"
    by (simp add: real_sqrt_mult mult.assoc)
  also have "sqrt (a * a) = a" using assms(2) by simp
  finally show 1: "sqrt (R2 * a * a) = Rs" by (simp add: Rs_def)
  show 2: "0 < Rs" using assms(1,2) by (simp add: Rs_def)
  show 3: "R2 * a * a = Rs\<^sup>2"
    using assms(1) by (simp add: Rs_def power2_eq_square algebra_simps)
  show "q * e * (1 / Rs) * a = q * e / (sqrt R2 * a) * a"
    by (simp add: Rs_def)
  have p2: "1 / Rs * (1 / Rs) = 1 / Rs\<^sup>2" by (simp add: power2_eq_square)
  have p3: "1 / Rs * (1 / Rs) * (1 / Rs) = 1 / Rs ^ 3" by (simp add: power3_eq_cube)
  have a3: "a * a * a = a ^ 3" by (simp add: power3_eq_cube)
  show "q * (M * exp (- (R2 * a * a)) * (1 / Rs * (1 / Rs)) + e * (1 / Rs * (1 / Rs) * (1 / Rs))) * (a * a * a)
         = q * (M * exp (- Rs\<^sup>2) / Rs\<^sup>2 + e / Rs ^ 3) * a ^ 3"
    unfolding p3 unfolding p2 a3 3 by (simp only: times_divide_eq_right mult.right_neutral)
qed

lemma P2P_pair_eq:
  assumes "0 < alpha E"
  shows "P2P_pair erfc E Xperiodic Bi Bj =
           Inr (Bi\<lparr>TRG := vadd4 (TRG Bi) (P2P_increment erfc E Xperiodic Bi Bj)\<rparr>)"
proof -
  define dX where "dX = vsub (vsub (Body.X Bi) (Body.X Bj)) Xperiodic"
  define R2 where "R2 = norm_vec3 dX"
  obtain d0 d1 d2 where d: "dX = (d0, d1, d2)" by (cases dX) auto
  obtain t0 t1 t2 t3 where t: "TRG Bi = (t0, t1, t2, t3)" by (cases "TRG Bi") auto
  show ?thesis
  proof (cases "0 < R2 \<and> R2 < cutoff E * cutoff E")
    case False
    have "P2P_pair erfc E Xperiodic Bi Bj = Inr Bi"
      unfolding P2P_pair_def Let_def
      unfolding dX_def[symmetric]
      unfolding R2_def[symmetric]
      unfolding if_not_P[OF False]
      by (rule refl)
    moreover have "P2P_increment erfc E Xperiodic Bi Bj = (0, 0, 0, 0)"
      unfolding P2P_increment_def Let_def power2_eq_square
      unfolding dX_def[symmetric]
      unfolding R2_def[symmetric]
      unfolding if_not_P[OF False]
      by (rule refl)
    ultimately show ?thesis by (simp add: vadd4_zero)
  next
    case True
    then have pos: "0 < R2" by simp
    note k = P2P_kernel_terms[OF pos assms]
    have inc: "P2P_increment erfc E Xperiodic Bi Bj = P2P_contribution erfc E dX (SRC Bj)"
      unfolding P2P_increment_def Let_def power2_eq_square
      unfolding dX_def[symmetric]
      unfolding R2_def[symmetric]
      unfolding if_P[OF True]
      by (rule refl)
    have nz: "sqrt R2 * alpha E \<noteq> 0" using pos assms by simp
    have "P2P_pair erfc E Xperiodic Bi Bj =
        Inr (Bi\<lparr>TRG := (t0 + SRC Bj * erfc (sqrt R2 * alpha E) * (1 / (sqrt R2 * alpha E)) * alpha E,
              t1 - d0 * (SRC Bj * (M_2_SQRTPI * exp (- (R2 * alpha E * alpha E))
                    * (1 / (sqrt R2 * alpha E) * (1 / (sqrt R2 * alpha E)))
                  + erfc (sqrt R2 * alpha E) * (1 / (sqrt R2 * alpha E) * (1 / (sqrt R2 * alpha E)) * (1 / (sqrt R2 * alpha E))))
                  * (alpha E * alpha E * alpha E)),
              t2 - d1 * (SRC Bj * (M_2_SQRTPI * exp (- (R2 * alpha E * alpha E))
                    * (1 / (sqrt R2 * alpha E) * (1 / (sqrt R2 * alpha E)))
                  + erfc (sqrt R2 * alpha E) * (1 / (sqrt R2 * alpha E) * (1 / (sqrt R2 * alpha E)) * (1 / (sqrt R2 * alpha E))))
                  * (alpha E * alpha E * alpha E)),
              t3 - d2 * (SRC Bj * (M_2_SQRTPI * exp (- (R2 * alpha E * alpha E))
                    * (1 / (sqrt R2 * alpha E) * (1 / (sqrt R2 * alpha E)))
                  + erfc (sqrt R2 * alpha E) * (1 / (sqrt R2 * alpha E) * (1 / (sqrt R2 * alpha E)) * (1 / (sqrt R2 * alpha E))))
                  * (alpha E * alpha E * alpha E)))\<rparr>)"
      unfolding P2P_pair_def Let_def
      unfolding dX_def[symmetric]
      unfolding R2_def[symmetric]
      unfolding if_P[OF True] k(1) fdiv_Inr[OF nz] sum.case
      unfolding d t prod.case
      by (rule refl)
    also have "\<dots> = Inr (Bi\<lparr>TRG := vadd4 (TRG Bi) (P2P_contribution erfc E dX (SRC Bj))\<rparr>)"
      unfolding k(4) k(5) P2P_contribution_def Let_def
      unfolding R2_def[symmetric]
      unfolding d t prod.case vadd4.simps M_2_SQRTPI_def
      by simp
    finally show ?thesis unfolding inc .
  qed
qed

lemma P2P_increment_cong:
  assumes "Body.X Bi' = Body.X Bi" and "Body.X Bj' = Body.X Bj" and "SRC Bj' = SRC Bj"
  shows "P2P_increment erfc E Xperiodic Bi' Bj' = P2P_increment erfc E Xperiodic Bi Bj"
  by (simp add: P2P_increment_def Let_def assms)

lemma same_sources_refl: "same_sources bodies bodies"
  by (simp add: same_sources_def)

lemma same_sources_update:
  assumes "same_sources bodies cur" and "i < length bodies"
    and "Body.X B = Body.X (bodies ! i)" and "SRC B = SRC (bodies ! i)"
  shows "same_sources bodies (cur[i := B])"
  unfolding same_sources_def
proof (intro conjI allI impI)
  show "length (cur[i := B]) = length bodies" using assms(1) by (simp add: same_sources_def)
next
  fix k assume k: "k < length bodies"
  show "Body.X (cur[i := B] ! k) = Body.X (bodies ! k)"
    using assms k by (cases "k = i") (simp_all add: same_sources_def)
  show "SRC (cur[i := B] ! k) = SRC (bodies ! k)"
    using assms k by (cases "k = i") (simp_all add: same_sources_def)
qed

lemma P2P_target_cong:
  assumes "same_sources bodies cur" and "\<And>j. j \<in> set js \<Longrightarrow> j < length bodies"
  shows "P2P_target erfc E Xperiodic cur js Bi = P2P_target erfc E Xperiodic bodies js Bi"
proof -
  have "map (\<lambda>j. P2P_increment erfc E Xperiodic Bi (cur ! j)) js =
        map (\<lambda>j. P2P_increment erfc E Xperiodic Bi (bodies ! j)) js"
  proof (rule map_cong[OF refl])
    fix j assume "j \<in> set js"
    then have "j < length bodies" by (rule assms(2))
    with assms(1) have "Body.X (cur ! j) = Body.X (bodies ! j)" "SRC (cur ! j) = SRC (bodies ! j)"
      by (simp_all add: same_sources_def)
    then show "P2P_increment erfc E Xperiodic Bi (cur ! j) = P2P_increment erfc E Xperiodic Bi (bodies ! j)"
      by (intro P2P_increment_cong) simp_all
  qed
  then show ?thesis unfolding P2P_target_def by (simp only:)
qed

lemma P2P_target_fields:
  "Body.X (P2P_target erfc E Xperiodic bodies js Bi) = Body.X Bi"
  "SRC (P2P_target erfc E Xperiodic bodies js Bi) = SRC Bi"
  by (simp_all add: P2P_target_def)

lemma P2P_step:
  assumes "0 < alpha E" and "i < length bodies" and "j < length bodies"
  shows "(case elem_at bodies i of Inl e \<Rightarrow> Inl e
          | Inr Bi \<Rightarrow>
         (case elem_at bodies j of Inl e \<Rightarrow> Inl e
          | Inr Bj \<Rightarrow>
         (case P2P_pair erfc E Xperiodic Bi Bj of Inl e \<Rightarrow> Inl e
          | Inr Bi' \<Rightarrow> Inr (bodies[i := Bi'])))) =
    Inr (bodies[i := (bodies ! i)\<lparr>TRG := vadd4 (TRG (bodies ! i))
                       (P2P_increment erfc E Xperiodic (bodies ! i) (bodies ! j))\<rparr>])"
  unfolding elem_at_Inr[OF assms(2)] elem_at_Inr[OF assms(3)] sum.case P2P_pair_eq[OF assms(1)]
  by (rule refl)

lemma P2P_inner_loop:
  assumes "0 < alpha E" and "i < length bodies" and "\<And>j. j \<in> set js \<Longrightarrow> j < length bodies"
  shows "for_each js (\<lambda>j bodies.
           case elem_at bodies i of Inl e \<Rightarrow> Inl e
           | Inr Bi \<Rightarrow>
          (case elem_at bodies j of Inl e \<Rightarrow> Inl e
           | Inr Bj \<Rightarrow>
          (case P2P_pair erfc E Xperiodic Bi Bj of Inl e \<Rightarrow> Inl e
           | Inr Bi' \<Rightarrow> Inr (bodies[i := Bi'])))) bodies =
    Inr (bodies[i := P2P_target erfc E Xperiodic bodies js (bodies ! i)])"
  using assms(2,3)
proof (induction js arbitrary: bodies)
  case Nil
  then show ?case by (simp add: P2P_target_def)
next
  case (Cons j js)
  define B1 where "B1 = (bodies ! i)\<lparr>TRG := vadd4 (TRG (bodies ! i))
                       (P2P_increment erfc E Xperiodic (bodies ! i) (bodies ! j))\<rparr>"
  define bodies1 where "bodies1 = bodies[i := B1]"
  have j: "j < length bodies" using Cons.prems(2) by simp
  have i1: "i < length bodies1" using Cons.prems(1) by (simp add: bodies1_def)
  have js1: "\<And>j. j \<in> set js \<Longrightarrow> j < length bodies1"
    using Cons.prems(2) by (simp add: bodies1_def)
  have ss: "same_sources bodies bodies1"
    unfolding bodies1_def
    by (rule same_sources_update[OF same_sources_refl Cons.prems(1)]) (simp_all add: B1_def)
  have b1i: "bodies1 ! i = B1" using Cons.prems(1) by (simp add: bodies1_def)
  have "P2P_target erfc E Xperiodic bodies1 js B1 = P2P_target erfc E Xperiodic bodies js B1"
    using ss Cons.prems(2) by (intro P2P_target_cong) simp_all
  also have "\<dots> = P2P_target erfc E Xperiodic bodies (j # js) (bodies ! i)"
  proof -
    have m: "map (\<lambda>j. P2P_increment erfc E Xperiodic B1 (bodies ! j)) js =
          map (\<lambda>j. P2P_increment erfc E Xperiodic (bodies ! i) (bodies ! j)) js"
    proof (rule map_cong[OF refl])
      fix j' assume "j' \<in> set js"
      show "P2P_increment erfc E Xperiodic B1 (bodies ! j') =
            P2P_increment erfc E Xperiodic (bodies ! i) (bodies ! j')"
        by (rule P2P_increment_cong) (simp_all add: B1_def)
    qed
    have t1: "TRG B1 = vadd4 (TRG (bodies ! i)) (P2P_increment erfc E Xperiodic (bodies ! i) (bodies ! j))"
      by (simp add: B1_def)
    have f: "foldl vadd4 (TRG B1) (map (\<lambda>j. P2P_increment erfc E Xperiodic B1 (bodies ! j)) js) =
        foldl vadd4 (TRG (bodies ! i))
          (map (\<lambda>j. P2P_increment erfc E Xperiodic (bodies ! i) (bodies ! j)) (j # js))"
      unfolding m t1 by simp
    have "B1\<lparr>TRG := t\<rparr> = (bodies ! i)\<lparr>TRG := t\<rparr>" for t
      by (simp add: B1_def)
    then show ?thesis unfolding P2P_target_def f by simp
  qed
  finally have t: "P2P_target erfc E Xperiodic bodies1 js B1 =
      P2P_target erfc E Xperiodic bodies (j # js) (bodies ! i)" .
  have "for_each (j # js) (\<lambda>j bodies.
           case elem_at bodies i of Inl e \<Rightarrow> Inl e
           | Inr Bi \<Rightarrow>
          (case elem_at bodies j of Inl e \<Rightarrow> Inl e
           | Inr Bj \<Rightarrow>
          (case P2P_pair erfc E Xperiodic Bi Bj of Inl e \<Rightarrow> Inl e
           | Inr Bi' \<Rightarrow> Inr (bodies[i := Bi'])))) bodies =
        for_each js (\<lambda>j bodies.
           case elem_at bodies i of Inl e \<Rightarrow> Inl e
           | Inr Bi \<Rightarrow>
          (case elem_at bodies j of Inl e \<Rightarrow> Inl e
           | Inr Bj \<Rightarrow>
          (case P2P_pair erfc E Xperiodic Bi Bj of Inl e \<Rightarrow> Inl e
           | Inr Bi' \<Rightarrow> Inr (bodies[i := Bi'])))) bodies1"
    unfolding for_each.simps P2P_step[OF assms(1) Cons.prems(1) j] sum.case bodies1_def B1_def
    by (rule refl)
  also have "\<dots> = Inr (bodies1[i := P2P_target erfc E Xperiodic bodies1 js (bodies1 ! i)])"
    using i1 js1 by (rule Cons.IH)
  also have "\<dots> = Inr (bodies[i := P2P_target erfc E Xperiodic bodies (j # js) (bodies ! i)])"
    unfolding b1i t by (simp add: bodies1_def)
  finally show ?case .
qed

lemma P2P_outer_loop:
  assumes "0 < alpha E" and "distinct is" and "\<And>i. i \<in> set is \<Longrightarrow> i < length bodies"
    and "\<And>j. j \<in> set js \<Longrightarrow> j < length bodies" and "same_sources bodies cur"
  shows "\<exists>cur'. for_each is (\<lambda>i bodies.
           for_each js (\<lambda>j bodies.
             case elem_at bodies i of Inl e \<Rightarrow> Inl e
             | Inr Bi \<Rightarrow>
            (case elem_at bodies j of Inl e \<Rightarrow> Inl e
             | Inr Bj \<Rightarrow>
            (case P2P_pair erfc E Xperiodic Bi Bj of Inl e \<Rightarrow> Inl e
             | Inr Bi' \<Rightarrow> Inr (bodies[i := Bi'])))) bodies) cur = Inr cur' \<and>
         length cur' = length bodies \<and>
         (\<forall>k < length bodies.
            cur' ! k = (if k \<in> set is then P2P_target erfc E Xperiodic bodies js (cur ! k) else cur ! k))"
  using assms(2,3,5)
proof (induction "is" arbitrary: cur)
  case Nil
  then show ?case by (simp add: same_sources_def)
next
  case (Cons i "is")
  let ?inner = "\<lambda>i bodies. for_each js (\<lambda>j bodies.
             case elem_at bodies i of Inl e \<Rightarrow> Inl e
             | Inr Bi \<Rightarrow>
            (case elem_at bodies j of Inl e \<Rightarrow> Inl e
             | Inr Bj \<Rightarrow>
            (case P2P_pair erfc E Xperiodic Bi Bj of Inl e \<Rightarrow> Inl e
             | Inr Bi' \<Rightarrow> Inr (bodies[i := Bi'])))) bodies"
  have len: "length cur = length bodies" using Cons.prems(3) by (simp add: same_sources_def)
  have i: "i < length bodies" using Cons.prems(2) by simp
  then have ic: "i < length cur" using len by simp
  have jc: "\<And>j. j \<in> set js \<Longrightarrow> j < length cur" using assms(4) len by simp
  define cur1 where "cur1 = cur[i := P2P_target erfc E Xperiodic bodies js (cur ! i)]"
  have "?inner i cur = Inr (cur[i := P2P_target erfc E Xperiodic cur js (cur ! i)])"
    using assms(1) ic jc by (rule P2P_inner_loop)
  also have "P2P_target erfc E Xperiodic cur js (cur ! i) = P2P_target erfc E Xperiodic bodies js (cur ! i)"
    using Cons.prems(3) assms(4) by (rule P2P_target_cong)
  finally have inner: "?inner i cur = Inr cur1" by (simp add: cur1_def)
  have ss1: "same_sources bodies cur1"
    unfolding cur1_def
  proof (rule same_sources_update[OF Cons.prems(3) i])
    show "Body.X (P2P_target erfc E Xperiodic bodies js (cur ! i)) = Body.X (bodies ! i)"
      using Cons.prems(3) i by (simp add: P2P_target_fields same_sources_def)
    show "SRC (P2P_target erfc E Xperiodic bodies js (cur ! i)) = SRC (bodies ! i)"
      using Cons.prems(3) i by (simp add: P2P_target_fields same_sources_def)
  qed
  have d: "distinct is" and ni: "i \<notin> set is" using Cons.prems(1) by simp_all
  have r: "\<And>i. i \<in> set is \<Longrightarrow> i < length bodies" using Cons.prems(2) by simp
  from Cons.IH[OF d r ss1] obtain cur' where
    c: "for_each is ?inner cur1 = Inr cur'" "length cur' = length bodies"
    "\<forall>k < length bodies. cur' ! k = (if k \<in> set is then P2P_target erfc E Xperiodic bodies js (cur1 ! k) else cur1 ! k)"
    by blast
  have "for_each (i # is) ?inner cur = Inr cur'"
    by (simp add: inner c(1))
  moreover have "cur' ! k = (if k \<in> set (i # is) then P2P_target erfc E Xperiodic bodies js (cur ! k) else cur ! k)"
    if k: "k < length bodies" for k
  proof (cases "k = i")
    case True
    then have "cur' ! k = cur1 ! i" using c(3) k ni by simp
    also have "\<dots> = P2P_target erfc E Xperiodic bodies js (cur ! i)"
      using ic by (simp add: cur1_def)
    finally show ?thesis using True by simp
  next
    case False
    then have "cur1 ! k = cur ! k" by (simp add: cur1_def)
    with c(3) k False show ?thesis by simp
  qed
  ultimately show ?case using c(2) by blast
qed

lemma P2P_eq:
  assumes "0 < alpha E"
    and "BODY Ci + NBODY Ci \<le> length bodies" and "BODY Cj + NBODY Cj \<le> length bodies"
  shows "\<exists>bodies'. P2P erfc E Ci Cj Xperiodic bodies = Inr bodies' \<and>
           length bodies' = length bodies \<and>
           (\<forall>k < length bodies.
              bodies' ! k =
                (if BODY Ci \<le> k \<and> k < BODY Ci + NBODY Ci
                 then P2P_target erfc E Xperiodic bodies [BODY Cj..<BODY Cj + NBODY Cj] (bodies ! k)
                 else bodies ! k))"
proof -
  have 1: "distinct [BODY Ci..<BODY Ci + NBODY Ci]" by simp
  have 2: "\<And>i. i \<in> set [BODY Ci..<BODY Ci + NBODY Ci] \<Longrightarrow> i < length bodies"
    using assms(2) by simp
  have 3: "\<And>j. j \<in> set [BODY Cj..<BODY Cj + NBODY Cj] \<Longrightarrow> j < length bodies"
    using assms(3) by simp
  have s: "(k \<in> set [BODY Ci..<BODY Ci + NBODY Ci]) = (BODY Ci \<le> k \<and> k < BODY Ci + NBODY Ci)" for k
    by simp
  from P2P_outer_loop[OF assms(1) 1 2 3 same_sources_refl, where erfc = erfc and Xperiodic = Xperiodic]
  show ?thesis unfolding P2P_def s .
qed

lemma P2P_contribution_nonzero:
  assumes "0 < alpha E" and "0 < norm_vec3 dX" and "q \<noteq> 0"
    and "0 \<le> erfc (sqrt (norm_vec3 dX) * alpha E)"
  shows "P2P_contribution erfc E dX q \<noteq> (0, 0, 0, 0)"
proof -
  obtain d0 d1 d2 where d: "dX = (d0, d1, d2)" by (cases dX) auto
  define Rs where "Rs = sqrt (norm_vec3 dX) * alpha E"
  define dtmp where "dtmp = q * (2 / sqrt pi * exp (- Rs\<^sup>2) / Rs\<^sup>2 + erfc Rs / Rs ^ 3) * alpha E ^ 3"
  have Rs: "0 < Rs" using assms(1,2) by (simp add: Rs_def)
  have "0 < 2 / sqrt pi * exp (- Rs\<^sup>2) / Rs\<^sup>2" using Rs by simp
  moreover have "0 \<le> erfc Rs / Rs ^ 3" using Rs assms(4) by (simp add: Rs_def)
  ultimately have "0 < 2 / sqrt pi * exp (- Rs\<^sup>2) / Rs\<^sup>2 + erfc Rs / Rs ^ 3" by linarith
  then have dt: "dtmp \<noteq> 0" using assms(1,3) by (simp add: dtmp_def)
  have "d0 \<noteq> 0 \<or> d1 \<noteq> 0 \<or> d2 \<noteq> 0"
  proof (rule ccontr)
    assume "\<not> (d0 \<noteq> 0 \<or> d1 \<noteq> 0 \<or> d2 \<noteq> 0)"
    then have "norm_vec3 dX = 0" by (simp add: d)
    with assms(2) show False by simp
  qed
  then have "- d0 * dtmp \<noteq> 0 \<or> - d1 * dtmp \<noteq> 0 \<or> - d2 * dtmp \<noteq> 0" using dt by simp
  moreover have "P2P_contribution erfc E dX q =
      (q * erfc Rs / (sqrt (norm_vec3 dX) * alpha E) * alpha E, - d0 * dtmp, - d1 * dtmp, - d2 * dtmp)"
    unfolding P2P_contribution_def Let_def Rs_def[symmetric] dtmp_def[symmetric]
    unfolding d prod.case by (rule refl)
  ultimately show ?thesis by auto
qed

text \<open>
  Claim C1, as amended. Let \<open>alpha\<close> be positive, \<open>dX = x\<^sub>i - x\<^sub>j - X\<^sub>p\<close> and \<open>R\<^sup>2 = |dX|\<^sup>2\<close>.
  For a target body \<open>Bi\<close> and a source body \<open>Bj\<close> the kernel adds the contribution of the
  spec (potential \<open>q\<^sub>j * erfc (R * alpha) / (R * alpha) * alpha\<close>, force \<open>- dX[d] * dtmp\<close>) to the
  target values of \<open>Bi\<close> when \<open>0 < R\<^sup>2 < cutoff\<^sup>2\<close>, and leaves \<open>Bi\<close> as it is otherwise: a pair
  with \<open>R\<^sup>2 = 0\<close> or \<open>R\<^sup>2 \<ge> cutoff\<^sup>2\<close> contributes exactly zero. The contribution of a pair
  inside the cutoff is not zero when the source strength \<open>q\<^sub>j\<close> is not zero (for a
  function \<open>erfc\<close> that is not negative there, as the complementary error function is).
  For two cells whose bodies lie in the vector of bodies, \<open>P2P\<close> returns the bodies in
  which every body of the target cell has gained the sum of these additions over the
  bodies of the source cell, and no other body has changed.
\<close>

theorem P2P_cutoff_kernel:
  assumes "0 < alpha E"
    and "dX = vsub (vsub (Body.X Bi) (Body.X Bj)) Xperiodic" and "R2 = norm_vec3 dX"
  shows "P2P_pair erfc E Xperiodic Bi Bj =
           Inr (Bi\<lparr>TRG := vadd4 (TRG Bi)
                   (if 0 < R2 \<and> R2 < (cutoff E)\<^sup>2 then P2P_contribution erfc E dX (SRC Bj)
                    else (0, 0, 0, 0))\<rparr>) \<and>
         (\<not> (0 < R2 \<and> R2 < (cutoff E)\<^sup>2) \<longrightarrow> P2P_pair erfc E Xperiodic Bi Bj = Inr Bi) \<and>
         (0 < R2 \<and> R2 < (cutoff E)\<^sup>2 \<and> SRC Bj \<noteq> 0 \<and> 0 \<le> erfc (sqrt R2 * alpha E) \<longrightarrow>
            P2P_contribution erfc E dX (SRC Bj) \<noteq> (0, 0, 0, 0)) \<and>
         (BODY Ci + NBODY Ci \<le> length bodies \<and> BODY Cj + NBODY Cj \<le> length bodies \<longrightarrow>
            (\<exists>bodies'. P2P erfc E Ci Cj Xperiodic bodies = Inr bodies' \<and>
               length bodies' = length bodies \<and>
               (\<forall>k < length bodies.
                  bodies' ! k =
                    (if BODY Ci \<le> k \<and> k < BODY Ci + NBODY Ci
                     then (bodies ! k)\<lparr>TRG := foldl vadd4 (TRG (bodies ! k))
                            (map (\<lambda>j. P2P_increment erfc E Xperiodic (bodies ! k) (bodies ! j))
                               [BODY Cj..<BODY Cj + NBODY Cj])\<rparr>
                     else bodies ! k))))"
proof (intro conjI impI)
  have inc: "P2P_increment erfc E Xperiodic Bi Bj =
      (if 0 < R2 \<and> R2 < (cutoff E)\<^sup>2 then P2P_contribution erfc E dX (SRC Bj) else (0, 0, 0, 0))"
    by (simp add: P2P_increment_def Let_def assms(2,3))
  show 1: "P2P_pair erfc E Xperiodic Bi Bj =
           Inr (Bi\<lparr>TRG := vadd4 (TRG Bi)
                   (if 0 < R2 \<and> R2 < (cutoff E)\<^sup>2 then P2P_contribution erfc E dX (SRC Bj)
                    else (0, 0, 0, 0))\<rparr>)"
    unfolding inc[symmetric] by (rule P2P_pair_eq[OF assms(1)])
  show "P2P_pair erfc E Xperiodic Bi Bj = Inr Bi" if "\<not> (0 < R2 \<and> R2 < (cutoff E)\<^sup>2)"
    unfolding 1 if_not_P[OF that] by (simp add: vadd4_zero)
next
  assume "0 < R2 \<and> R2 < (cutoff E)\<^sup>2 \<and> SRC Bj \<noteq> 0 \<and> 0 \<le> erfc (sqrt R2 * alpha E)"
  then show "P2P_contribution erfc E dX (SRC Bj) \<noteq> (0, 0, 0, 0)"
    using assms(1) unfolding assms(3) by (intro P2P_contribution_nonzero) simp_all
next
  assume "BODY Ci + NBODY Ci \<le> length bodies \<and> BODY Cj + NBODY Cj \<le> length bodies"
  then have "BODY Ci + NBODY Ci \<le> length bodies" "BODY Cj + NBODY Cj \<le> length bodies"
    by simp_all
  from P2P_eq[OF assms(1) this, of erfc Xperiodic]
  show "\<exists>bodies'. P2P erfc E Ci Cj Xperiodic bodies = Inr bodies' \<and>
               length bodies' = length bodies \<and>
               (\<forall>k < length bodies.
                  bodies' ! k =
                    (if BODY Ci \<le> k \<and> k < BODY Ci + NBODY Ci
                     then (bodies ! k)\<lparr>TRG := foldl vadd4 (TRG (bodies ! k))
                            (map (\<lambda>j. P2P_increment erfc E Xperiodic (bodies ! k) (bodies ! j))
                               [BODY Cj..<BODY Cj + NBODY Cj])\<rparr>
                     else bodies ! k))"
    unfolding P2P_target_def .
qed

text \<open>
  The theorem for \<open>alpha = 1\<close> and \<open>cutoff = 2\<close>, a target body at the origin and a source
  body of strength 2 at \<open>(1, 0, 0)\<close>, so that \<open>R\<^sup>2 = 1\<close>: the target values gain
  \<open>2 * erfc 1\<close> and \<open>2 * (2/\<surd>\<pi> * exp (- 1) + erfc 1)\<close> on the first axis, for every function
  \<open>erfc\<close>; the two last parts are shown with \<open>exp (- x)\<close>, which is positive, in the place
  of \<open>erfc\<close>.
\<close>

theorem P2P_cutoff_kernel_witness:
  "(\<forall>erfc. P2P_pair erfc \<lparr>ksize = 1, alpha = 1, sigma = 1, cutoff = 2, cycle = (4, 4, 4)\<rparr> (0, 0, 0)
       \<lparr>IBODY = 0, ICELL = 0, WEIGHT = 1, X = (0, 0, 0), SRC = 1, TRG = (0, 0, 0, 0)\<rparr>
       \<lparr>IBODY = 1, ICELL = 0, WEIGHT = 1, X = (1, 0, 0), SRC = 2, TRG = (0, 0, 0, 0)\<rparr> =
     Inr \<lparr>IBODY = 0, ICELL = 0, WEIGHT = 1, X = (0, 0, 0), SRC = 1,
          TRG = (2 * erfc 1, 2 * (2 / sqrt pi * exp (- 1) + erfc 1), 0, 0)\<rparr>) \<and>
   P2P_contribution (\<lambda>x. exp (- x)) \<lparr>ksize = 1, alpha = 1, sigma = 1, cutoff = 2, cycle = (4, 4, 4)\<rparr>
       (- 1, 0, 0) 2 \<noteq> (0, 0, 0, 0) \<and>
   (\<exists>bodies'. P2P (\<lambda>x. exp (- x)) \<lparr>ksize = 1, alpha = 1, sigma = 1, cutoff = 2, cycle = (4, 4, 4)\<rparr>
       \<lparr>ICHILD = 0, NCHILD = 0, BODY = 0, NBODY = 1, X = (0, 0, 0), R = 1\<rparr>
       \<lparr>ICHILD = 0, NCHILD = 0, BODY = 1, NBODY = 1, X = (1, 0, 0), R = 1\<rparr>
       (0, 0, 0)
       [\<lparr>IBODY = 0, ICELL = 0, WEIGHT = 1, X = (0, 0, 0), SRC = 1, TRG = (0, 0, 0, 0)\<rparr>,
        \<lparr>IBODY = 1, ICELL = 0, WEIGHT = 1, X = (1, 0, 0), SRC = 2, TRG = (0, 0, 0, 0)\<rparr>] = Inr bodies' \<and>
      length bodies' = 2 \<and>
      bodies' ! 1 = \<lparr>IBODY = 1, ICELL = 0, WEIGHT = 1, X = (1, 0, 0), SRC = 2, TRG = (0, 0, 0, 0)\<rparr>)"
proof -
  let ?E = "\<lparr>ksize = 1, alpha = 1, sigma = 1, cutoff = 2, cycle = (4, 4, 4)\<rparr>"
  let ?B0 = "\<lparr>IBODY = 0, ICELL = 0, WEIGHT = 1, X = (0, 0, 0), SRC = 1, TRG = (0, 0, 0, 0)\<rparr>"
  let ?B1 = "\<lparr>IBODY = 1, ICELL = 0, WEIGHT = 1, X = (1, 0, 0), SRC = 2, TRG = (0, 0, 0, 0)\<rparr>"
  let ?Ci = "\<lparr>ICHILD = 0, NCHILD = 0, BODY = 0, NBODY = 1, X = (0, 0, 0), R = 1\<rparr>"
  let ?Cj = "\<lparr>ICHILD = 0, NCHILD = 0, BODY = 1, NBODY = 1, X = (1, 0, 0), R = 1\<rparr>"
  have a: "0 < alpha ?E" by simp
  have dx: "(- 1, 0, 0) = vsub (vsub (Body.X ?B0) (Body.X ?B1)) (0, 0, 0)" by simp
  have r2: "(1::real) = norm_vec3 (- 1, 0, 0)" by simp
  note th = P2P_cutoff_kernel[OF a dx r2, where Ci = ?Ci and Cj = ?Cj and bodies = "[?B0, ?B1]"]
  have 1: "P2P_pair erfc ?E (0, 0, 0) ?B0 ?B1 =
     Inr \<lparr>IBODY = 0, ICELL = 0, WEIGHT = 1, X = (0, 0, 0), SRC = 1,
          TRG = (2 * erfc 1, 2 * (2 / sqrt pi * exp (- 1) + erfc 1), 0, 0)\<rparr>" for erfc
    using th[of erfc] by (simp add: P2P_contribution_def)
  have 2: "P2P_contribution (\<lambda>x. exp (- x)) ?E (- 1, 0, 0) 2 \<noteq> (0, 0, 0, 0)"
    using th[of "\<lambda>x. exp (- x)"] by simp
  have "\<exists>bodies'. P2P (\<lambda>x. exp (- x)) ?E ?Ci ?Cj (0, 0, 0) [?B0, ?B1] = Inr bodies' \<and>
      length bodies' = length [?B0, ?B1] \<and>
      (\<forall>k < length [?B0, ?B1].
                  bodies' ! k =
                    (if BODY ?Ci \<le> k \<and> k < BODY ?Ci + NBODY ?Ci
                     then ([?B0, ?B1] ! k)\<lparr>TRG := foldl vadd4 (TRG ([?B0, ?B1] ! k))
                            (map (\<lambda>j. P2P_increment (\<lambda>x. exp (- x)) ?E (0, 0, 0) ([?B0, ?B1] ! k) ([?B0, ?B1] ! j))
                               [BODY ?Cj..<BODY ?Cj + NBODY ?Cj])\<rparr>
                     else [?B0, ?B1] ! k))"
    using th[of "\<lambda>x. exp (- x)"] by simp
  then obtain bodies' where b: "P2P (\<lambda>x. exp (- x)) ?E ?Ci ?Cj (0, 0, 0) [?B0, ?B1] = Inr bodies'"
    "length bodies' = length [?B0, ?B1]"
    "\<forall>k < length [?B0, ?B1].
                  bodies' ! k =
                    (if BODY ?Ci \<le> k \<and> k < BODY ?Ci + NBODY ?Ci
                     then ([?B0, ?B1] ! k)\<lparr>TRG := foldl vadd4 (TRG ([?B0, ?B1] ! k))
                            (map (\<lambda>j. P2P_increment (\<lambda>x. exp (- x)) ?E (0, 0, 0) ([?B0, ?B1] ! k) ([?B0, ?B1] ! j))
                               [BODY ?Cj..<BODY ?Cj + NBODY ?Cj])\<rparr>
                     else [?B0, ?B1] ! k)"
    by blast
  have "(1::nat) < length [?B0, ?B1]" by simp
  with b(3) have "bodies' ! 1 = (if BODY ?Ci \<le> 1 \<and> 1 < BODY ?Ci + NBODY ?Ci
                     then ([?B0, ?B1] ! 1)\<lparr>TRG := foldl vadd4 (TRG ([?B0, ?B1] ! 1))
                            (map (\<lambda>j. P2P_increment (\<lambda>x. exp (- x)) ?E (0, 0, 0) ([?B0, ?B1] ! 1) ([?B0, ?B1] ! j))
                               [BODY ?Cj..<BODY ?Cj + NBODY ?Cj])\<rparr>
                     else [?B0, ?B1] ! 1)"
    by blast
  then have "bodies' ! 1 = ?B1" by simp
  with b(1,2) have 3: "\<exists>bodies'. P2P (\<lambda>x. exp (- x)) ?E ?Ci ?Cj (0, 0, 0) [?B0, ?B1] = Inr bodies' \<and>
      length bodies' = 2 \<and> bodies' ! 1 = ?B1"
    by simp
  from 1 2 3 show ?thesis by blast
qed

text \<open>
  Claim C1 as stated fails for a source body of strength zero: with \<open>alpha = 1\<close> and
  \<open>cutoff = 2\<close>, the pair of a target body at the origin and a source body of strength 0
  at \<open>(1, 0, 0)\<close> is inside the cutoff, \<open>0 < R\<^sup>2 = 1 < 4\<close>, and the kernel leaves the target
  body as it is, whatever \<open>erfc\<close> is.
\<close>

theorem P2P_zero_source_counterexample:
  "0 < norm_vec3 (vsub (vsub (0, 0, 0) (1, 0, 0)) (0, 0, 0)) \<and>
   norm_vec3 (vsub (vsub (0, 0, 0) (1, 0, 0)) (0, 0, 0))
     < (cutoff \<lparr>ksize = 1, alpha = 1, sigma = 1, cutoff = 2, cycle = (4, 4, 4)\<rparr>)\<^sup>2 \<and>
   (\<forall>erfc. P2P_pair erfc \<lparr>ksize = 1, alpha = 1, sigma = 1, cutoff = 2, cycle = (4, 4, 4)\<rparr> (0, 0, 0)
       \<lparr>IBODY = 0, ICELL = 0, WEIGHT = 1, X = (0, 0, 0), SRC = 1, TRG = (5, 6, 7, 8)\<rparr>
       \<lparr>IBODY = 1, ICELL = 0, WEIGHT = 1, X = (1, 0, 0), SRC = 0, TRG = (0, 0, 0, 0)\<rparr> =
     Inr \<lparr>IBODY = 0, ICELL = 0, WEIGHT = 1, X = (0, 0, 0), SRC = 1, TRG = (5, 6, 7, 8)\<rparr>)"
proof (intro conjI allI)
  show "0 < norm_vec3 (vsub (vsub (0, 0, 0) (1, 0, 0)) (0, 0, 0))" by simp
  show "norm_vec3 (vsub (vsub (0, 0, 0) (1, 0, 0)) (0, 0, 0))
     < (cutoff \<lparr>ksize = 1, alpha = 1, sigma = 1, cutoff = 2, cycle = (4, 4, 4)\<rparr>)\<^sup>2" by simp
next
  fix erfc :: "real \<Rightarrow> real"
  let ?E = "\<lparr>ksize = 1, alpha = 1, sigma = 1, cutoff = 2, cycle = (4, 4, 4)\<rparr>"
  have a: "0 < alpha ?E" by simp
  show "P2P_pair erfc ?E (0, 0, 0)
       \<lparr>IBODY = 0, ICELL = 0, WEIGHT = 1, X = (0, 0, 0), SRC = 1, TRG = (5, 6, 7, 8)\<rparr>
       \<lparr>IBODY = 1, ICELL = 0, WEIGHT = 1, X = (1, 0, 0), SRC = 0, TRG = (0, 0, 0, 0)\<rparr> =
     Inr \<lparr>IBODY = 0, ICELL = 0, WEIGHT = 1, X = (0, 0, 0), SRC = 1, TRG = (5, 6, 7, 8)\<rparr>"
    unfolding P2P_pair_eq[OF a]
    by (simp add: P2P_increment_def P2P_contribution_def)
qed

lemma norm_vec3_neg: "norm_vec3 (vsub b a) = norm_vec3 (vsub a b)"
  by (cases a; cases b) (simp add: algebra_simps)

lemma vsub_zero: "vsub v (0, 0, 0) = v"
  by (cases v) simp

text \<open>
  Claim C7, as amended. Let \<open>alpha\<close> be positive and let two bodies \<open>Bi\<close> and \<open>Bj\<close> have a
  separation that is not zero and below the cutoff, with no periodic offset. The kernel
  adds \<open>(pot\<^sub>i, f\<^sub>i)\<close> to the target values of \<open>Bi\<close> when \<open>Bj\<close> is the source and \<open>(pot\<^sub>j, f\<^sub>j)\<close>
  to those of \<open>Bj\<close> when \<open>Bi\<close> is the source. Each addition carries the strength of its
  source only: \<open>q\<^sub>i * f\<^sub>i = - (q\<^sub>j * f\<^sub>j)\<close> on every axis and \<open>q\<^sub>i * pot\<^sub>i = q\<^sub>j * pot\<^sub>j\<close>, and the
  potential \<open>pot\<^sub>i = q\<^sub>j * erfc (R * alpha) / (R * alpha) * alpha\<close> depends on the separation
  \<open>R\<close> and the strength of the source. When the two strengths are equal, the forces are
  exact negations of each other and the potentials are equal.
\<close>

theorem P2P_pair_symmetry:
  assumes "0 < alpha E"
    and "0 < norm_vec3 (vsub (Body.X Bi) (Body.X Bj))"
    and "norm_vec3 (vsub (Body.X Bi) (Body.X Bj)) < (cutoff E)\<^sup>2"
    and "P2P_increment erfc E (0, 0, 0) Bi Bj = (pot_i, fi0, fi1, fi2)"
    and "P2P_increment erfc E (0, 0, 0) Bj Bi = (pot_j, fj0, fj1, fj2)"
    and "r = sqrt (norm_vec3 (vsub (Body.X Bi) (Body.X Bj)))"
  shows "P2P_pair erfc E (0, 0, 0) Bi Bj = Inr (Bi\<lparr>TRG := vadd4 (TRG Bi) (pot_i, fi0, fi1, fi2)\<rparr>) \<and>
         P2P_pair erfc E (0, 0, 0) Bj Bi = Inr (Bj\<lparr>TRG := vadd4 (TRG Bj) (pot_j, fj0, fj1, fj2)\<rparr>) \<and>
         SRC Bi * fi0 = - (SRC Bj * fj0) \<and>
         SRC Bi * fi1 = - (SRC Bj * fj1) \<and>
         SRC Bi * fi2 = - (SRC Bj * fj2) \<and>
         SRC Bi * pot_i = SRC Bj * pot_j \<and>
         pot_i = SRC Bj * erfc (r * alpha E) / (r * alpha E) * alpha E \<and>
         pot_j = SRC Bi * erfc (r * alpha E) / (r * alpha E) * alpha E \<and>
         (SRC Bi = SRC Bj \<longrightarrow> fi0 = - fj0 \<and> fi1 = - fj1 \<and> fi2 = - fj2 \<and> pot_i = pot_j)"
proof -
  obtain d0 d1 d2 where d: "vsub (Body.X Bi) (Body.X Bj) = (d0, d1, d2)"
    by (cases "vsub (Body.X Bi) (Body.X Bj)") auto
  have d': "vsub (Body.X Bj) (Body.X Bi) = (- d0, - d1, - d2)"
    using d by (cases "Body.X Bi"; cases "Body.X Bj") auto
  have n': "norm_vec3 (- d0, - d1, - d2) = norm_vec3 (d0, d1, d2)" by simp
  define G where "G = (2 / sqrt pi * exp (- (r * alpha E)\<^sup>2) / (r * alpha E)\<^sup>2
      + erfc (r * alpha E) / (r * alpha E) ^ 3) * alpha E ^ 3"
  have g: "0 < norm_vec3 (d0, d1, d2) \<and> norm_vec3 (d0, d1, d2) < (cutoff E)\<^sup>2"
    using assms(2,3) unfolding d by simp
  have Rd: "r = sqrt (norm_vec3 (d0, d1, d2))" using assms(6) unfolding d .
  have i: "P2P_increment erfc E (0, 0, 0) Bi Bj =
      (SRC Bj * erfc (r * alpha E) / (r * alpha E) * alpha E,
       - d0 * (SRC Bj * G), - d1 * (SRC Bj * G), - d2 * (SRC Bj * G))"
    unfolding P2P_increment_def Let_def vsub_zero d if_P[OF g] P2P_contribution_def prod.case
      Rd[symmetric] G_def
    by (simp add: mult.assoc)
  have j: "P2P_increment erfc E (0, 0, 0) Bj Bi =
      (SRC Bi * erfc (r * alpha E) / (r * alpha E) * alpha E,
       d0 * (SRC Bi * G), d1 * (SRC Bi * G), d2 * (SRC Bi * G))"
    unfolding P2P_increment_def Let_def vsub_zero d' n' if_P[OF g] P2P_contribution_def prod.case
      Rd[symmetric] G_def
    by (simp add: mult.assoc)
  from i assms(4) have vi: "pot_i = SRC Bj * erfc (r * alpha E) / (r * alpha E) * alpha E"
    "fi0 = - d0 * (SRC Bj * G)" "fi1 = - d1 * (SRC Bj * G)" "fi2 = - d2 * (SRC Bj * G)"
    by simp_all
  from j assms(5) have vj: "pot_j = SRC Bi * erfc (r * alpha E) / (r * alpha E) * alpha E"
    "fj0 = d0 * (SRC Bi * G)" "fj1 = d1 * (SRC Bi * G)" "fj2 = d2 * (SRC Bi * G)"
    by simp_all
  have 1: "P2P_pair erfc E (0, 0, 0) Bi Bj = Inr (Bi\<lparr>TRG := vadd4 (TRG Bi) (pot_i, fi0, fi1, fi2)\<rparr>)"
    unfolding assms(4)[symmetric] by (rule P2P_pair_eq[OF assms(1)])
  have 2: "P2P_pair erfc E (0, 0, 0) Bj Bi = Inr (Bj\<lparr>TRG := vadd4 (TRG Bj) (pot_j, fj0, fj1, fj2)\<rparr>)"
    unfolding assms(5)[symmetric] by (rule P2P_pair_eq[OF assms(1)])
  have 3: "SRC Bi * fi0 = - (SRC Bj * fj0)" unfolding vi vj by simp
  have 4: "SRC Bi * fi1 = - (SRC Bj * fj1)" unfolding vi vj by simp
  have 5: "SRC Bi * fi2 = - (SRC Bj * fj2)" unfolding vi vj by simp
  have 6: "SRC Bi * pot_i = SRC Bj * pot_j" unfolding vi vj by simp
  have 7: "SRC Bi = SRC Bj \<longrightarrow> fi0 = - fj0 \<and> fi1 = - fj1 \<and> fi2 = - fj2 \<and> pot_i = pot_j"
    unfolding vi vj by simp
  from 1 2 3 4 5 6 vi(1) vj(1) 7 show ?thesis by blast
qed

lemma P2P_pair_unit_example:
  "P2P_pair erfc \<lparr>ksize = 1, alpha = 1, sigma = 1, cutoff = 2, cycle = (4, 4, 4)\<rparr> (0, 0, 0)
       \<lparr>IBODY = 0, ICELL = 0, WEIGHT = 1, X = (0, 0, 0), SRC = 1, TRG = (0, 0, 0, 0)\<rparr>
       \<lparr>IBODY = 1, ICELL = 0, WEIGHT = 1, X = (1, 0, 0), SRC = 2, TRG = (0, 0, 0, 0)\<rparr> =
     Inr \<lparr>IBODY = 0, ICELL = 0, WEIGHT = 1, X = (0, 0, 0), SRC = 1,
          TRG = (2 * erfc 1, 2 * (2 / sqrt pi * exp (- 1) + erfc 1), 0, 0)\<rparr>"
  "P2P_pair erfc \<lparr>ksize = 1, alpha = 1, sigma = 1, cutoff = 2, cycle = (4, 4, 4)\<rparr> (0, 0, 0)
       \<lparr>IBODY = 1, ICELL = 0, WEIGHT = 1, X = (1, 0, 0), SRC = 2, TRG = (0, 0, 0, 0)\<rparr>
       \<lparr>IBODY = 0, ICELL = 0, WEIGHT = 1, X = (0, 0, 0), SRC = 1, TRG = (0, 0, 0, 0)\<rparr> =
     Inr \<lparr>IBODY = 1, ICELL = 0, WEIGHT = 1, X = (1, 0, 0), SRC = 2,
          TRG = (erfc 1, - (2 / sqrt pi * exp (- 1) + erfc 1), 0, 0)\<rparr>"
proof -
  let ?E = "\<lparr>ksize = 1, alpha = 1, sigma = 1, cutoff = 2, cycle = (4, 4, 4)\<rparr>"
  have a: "0 < alpha ?E" by simp
  show "P2P_pair erfc ?E (0, 0, 0)
       \<lparr>IBODY = 0, ICELL = 0, WEIGHT = 1, X = (0, 0, 0), SRC = 1, TRG = (0, 0, 0, 0)\<rparr>
       \<lparr>IBODY = 1, ICELL = 0, WEIGHT = 1, X = (1, 0, 0), SRC = 2, TRG = (0, 0, 0, 0)\<rparr> =
     Inr \<lparr>IBODY = 0, ICELL = 0, WEIGHT = 1, X = (0, 0, 0), SRC = 1,
          TRG = (2 * erfc 1, 2 * (2 / sqrt pi * exp (- 1) + erfc 1), 0, 0)\<rparr>"
    unfolding P2P_pair_eq[OF a] by (simp add: P2P_increment_def P2P_contribution_def)
  show "P2P_pair erfc ?E (0, 0, 0)
       \<lparr>IBODY = 1, ICELL = 0, WEIGHT = 1, X = (1, 0, 0), SRC = 2, TRG = (0, 0, 0, 0)\<rparr>
       \<lparr>IBODY = 0, ICELL = 0, WEIGHT = 1, X = (0, 0, 0), SRC = 1, TRG = (0, 0, 0, 0)\<rparr> =
     Inr \<lparr>IBODY = 1, ICELL = 0, WEIGHT = 1, X = (1, 0, 0), SRC = 2,
          TRG = (erfc 1, - (2 / sqrt pi * exp (- 1) + erfc 1), 0, 0)\<rparr>"
    unfolding P2P_pair_eq[OF a] by (simp add: P2P_increment_def P2P_contribution_def)
qed

text \<open>
  The theorem for \<open>alpha = 1\<close> and \<open>cutoff = 2\<close>, a body of strength 1 at the origin and a
  body of strength 2 at \<open>(1, 0, 0)\<close>, for every function \<open>erfc\<close>.
\<close>

theorem P2P_pair_symmetry_witness:
  "\<forall>erfc.
     P2P_pair erfc \<lparr>ksize = 1, alpha = 1, sigma = 1, cutoff = 2, cycle = (4, 4, 4)\<rparr> (0, 0, 0)
       \<lparr>IBODY = 0, ICELL = 0, WEIGHT = 1, X = (0, 0, 0), SRC = 1, TRG = (0, 0, 0, 0)\<rparr>
       \<lparr>IBODY = 1, ICELL = 0, WEIGHT = 1, X = (1, 0, 0), SRC = 2, TRG = (0, 0, 0, 0)\<rparr> =
     Inr \<lparr>IBODY = 0, ICELL = 0, WEIGHT = 1, X = (0, 0, 0), SRC = 1,
          TRG = (2 * erfc 1, 2 * (2 / sqrt pi * exp (- 1) + erfc 1), 0, 0)\<rparr> \<and>
     P2P_pair erfc \<lparr>ksize = 1, alpha = 1, sigma = 1, cutoff = 2, cycle = (4, 4, 4)\<rparr> (0, 0, 0)
       \<lparr>IBODY = 1, ICELL = 0, WEIGHT = 1, X = (1, 0, 0), SRC = 2, TRG = (0, 0, 0, 0)\<rparr>
       \<lparr>IBODY = 0, ICELL = 0, WEIGHT = 1, X = (0, 0, 0), SRC = 1, TRG = (0, 0, 0, 0)\<rparr> =
     Inr \<lparr>IBODY = 1, ICELL = 0, WEIGHT = 1, X = (1, 0, 0), SRC = 2,
          TRG = (erfc 1, - (2 / sqrt pi * exp (- 1) + erfc 1), 0, 0)\<rparr> \<and>
     1 * (2 * (2 / sqrt pi * exp (- 1) + erfc 1)) = - (2 * - (2 / sqrt pi * exp (- 1) + erfc 1)) \<and>
     1 * (2 * erfc 1) = 2 * erfc 1"
proof
  fix erfc :: "real \<Rightarrow> real"
  let ?E = "\<lparr>ksize = 1, alpha = 1, sigma = 1, cutoff = 2, cycle = (4, 4, 4)\<rparr>"
  let ?B0 = "\<lparr>IBODY = 0, ICELL = 0, WEIGHT = 1, X = (0, 0, 0), SRC = 1, TRG = (0, 0, 0, 0)\<rparr>"
  let ?B1 = "\<lparr>IBODY = 1, ICELL = 0, WEIGHT = 1, X = (1, 0, 0), SRC = 2, TRG = (0, 0, 0, 0)\<rparr>"
  have a: "0 < alpha ?E" by simp
  have n1: "0 < norm_vec3 (vsub (Body.X ?B0) (Body.X ?B1))" by simp
  have n2: "norm_vec3 (vsub (Body.X ?B0) (Body.X ?B1)) < (cutoff ?E)\<^sup>2" by simp
  have i: "P2P_increment erfc ?E (0, 0, 0) ?B0 ?B1 =
      (2 * erfc 1, 2 * (2 / sqrt pi * exp (- 1) + erfc 1), 0, 0)"
    by (simp add: P2P_increment_def P2P_contribution_def)
  have j: "P2P_increment erfc ?E (0, 0, 0) ?B1 ?B0 =
      (erfc 1, - (2 / sqrt pi * exp (- 1) + erfc 1), 0, 0)"
    by (simp add: P2P_increment_def P2P_contribution_def)
  have r: "1 = sqrt (norm_vec3 (vsub (Body.X ?B0) (Body.X ?B1)))" by simp
  from P2P_pair_symmetry[OF a n1 n2 i j r]
  show "P2P_pair erfc ?E (0, 0, 0) ?B0 ?B1 =
     Inr \<lparr>IBODY = 0, ICELL = 0, WEIGHT = 1, X = (0, 0, 0), SRC = 1,
          TRG = (2 * erfc 1, 2 * (2 / sqrt pi * exp (- 1) + erfc 1), 0, 0)\<rparr> \<and>
     P2P_pair erfc ?E (0, 0, 0) ?B1 ?B0 =
     Inr \<lparr>IBODY = 1, ICELL = 0, WEIGHT = 1, X = (1, 0, 0), SRC = 2,
          TRG = (erfc 1, - (2 / sqrt pi * exp (- 1) + erfc 1), 0, 0)\<rparr> \<and>
     1 * (2 * (2 / sqrt pi * exp (- 1) + erfc 1)) = - (2 * - (2 / sqrt pi * exp (- 1) + erfc 1)) \<and>
     1 * (2 * erfc 1) = 2 * erfc 1"
    by simp
qed

text \<open>
  Claim C7 as stated fails when the two strengths differ. For the same two bodies, of
  strengths 1 and 2 at distance 1 with \<open>alpha = 1\<close> and \<open>cutoff = 2\<close>, and both starting
  from zero target values: whatever \<open>erfc\<close> is, the forces that the kernel gives them are
  not negations of each other, or the potentials differ.
\<close>

theorem P2P_third_law_counterexample:
  "\<forall>erfc. \<not> (\<exists>pot_i fi0 fi1 fi2 pot_j fj0 fj1 fj2.
     P2P_pair erfc \<lparr>ksize = 1, alpha = 1, sigma = 1, cutoff = 2, cycle = (4, 4, 4)\<rparr> (0, 0, 0)
       \<lparr>IBODY = 0, ICELL = 0, WEIGHT = 1, X = (0, 0, 0), SRC = 1, TRG = (0, 0, 0, 0)\<rparr>
       \<lparr>IBODY = 1, ICELL = 0, WEIGHT = 1, X = (1, 0, 0), SRC = 2, TRG = (0, 0, 0, 0)\<rparr> =
     Inr \<lparr>IBODY = 0, ICELL = 0, WEIGHT = 1, X = (0, 0, 0), SRC = 1, TRG = (pot_i, fi0, fi1, fi2)\<rparr> \<and>
     P2P_pair erfc \<lparr>ksize = 1, alpha = 1, sigma = 1, cutoff = 2, cycle = (4, 4, 4)\<rparr> (0, 0, 0)
       \<lparr>IBODY = 1, ICELL = 0, WEIGHT = 1, X = (1, 0, 0), SRC = 2, TRG = (0, 0, 0, 0)\<rparr>
       \<lparr>IBODY = 0, ICELL = 0, WEIGHT = 1, X = (0, 0, 0), SRC = 1, TRG = (0, 0, 0, 0)\<rparr> =
     Inr \<lparr>IBODY = 1, ICELL = 0, WEIGHT = 1, X = (1, 0, 0), SRC = 2, TRG = (pot_j, fj0, fj1, fj2)\<rparr> \<and>
     fi0 = - fj0 \<and> fi1 = - fj1 \<and> fi2 = - fj2 \<and> pot_i = pot_j)"
proof (intro allI notI)
  fix erfc :: "real \<Rightarrow> real"
  assume "\<exists>pot_i fi0 fi1 fi2 pot_j fj0 fj1 fj2.
     P2P_pair erfc \<lparr>ksize = 1, alpha = 1, sigma = 1, cutoff = 2, cycle = (4, 4, 4)\<rparr> (0, 0, 0)
       \<lparr>IBODY = 0, ICELL = 0, WEIGHT = 1, X = (0, 0, 0), SRC = 1, TRG = (0, 0, 0, 0)\<rparr>
       \<lparr>IBODY = 1, ICELL = 0, WEIGHT = 1, X = (1, 0, 0), SRC = 2, TRG = (0, 0, 0, 0)\<rparr> =
     Inr \<lparr>IBODY = 0, ICELL = 0, WEIGHT = 1, X = (0, 0, 0), SRC = 1, TRG = (pot_i, fi0, fi1, fi2)\<rparr> \<and>
     P2P_pair erfc \<lparr>ksize = 1, alpha = 1, sigma = 1, cutoff = 2, cycle = (4, 4, 4)\<rparr> (0, 0, 0)
       \<lparr>IBODY = 1, ICELL = 0, WEIGHT = 1, X = (1, 0, 0), SRC = 2, TRG = (0, 0, 0, 0)\<rparr>
       \<lparr>IBODY = 0, ICELL = 0, WEIGHT = 1, X = (0, 0, 0), SRC = 1, TRG = (0, 0, 0, 0)\<rparr> =
     Inr \<lparr>IBODY = 1, ICELL = 0, WEIGHT = 1, X = (1, 0, 0), SRC = 2, TRG = (pot_j, fj0, fj1, fj2)\<rparr> \<and>
     fi0 = - fj0 \<and> fi1 = - fj1 \<and> fi2 = - fj2 \<and> pot_i = pot_j"
  then have "2 * (2 / sqrt pi * exp (- 1) + erfc 1) = - (- (2 / sqrt pi * exp (- 1) + erfc 1))"
    and "2 * erfc 1 = erfc 1"
    unfolding P2P_pair_unit_example by auto
  then have "erfc 1 = 0" and "2 / sqrt pi * exp (- 1) + erfc 1 = 0" by simp_all
  then have "2 / sqrt pi * exp (- 1) = (0::real)" by simp
  then show False by simp
qed

subsection \<open>The traversal of the source cells\<close>

lemma sum_case_id: "(case x of Inl e \<Rightarrow> Inl e | Inr s \<Rightarrow> Inr s) = x"
  by (cases x) simp_all

lemma Neighbor_unfold:
  assumes "j < length jcells"
  shows "Neighbor (Suc fuel) p2p wrap E Ci jcells j s =
     (if close_to wrap E Ci (jcells ! j) then
        (case (if NCHILD (jcells ! j) = 0
               then p2p Ci (jcells ! j) (periodic_offset wrap E Ci (jcells ! j)) s else Inr s) of
           Inl e \<Rightarrow> Inl e
         | Inr s' \<Rightarrow>
             for_each [ICHILD (jcells ! j)..<ICHILD (jcells ! j) + NCHILD (jcells ! j)]
               (\<lambda>CC s. Neighbor fuel p2p wrap E Ci jcells CC s) s')
      else Inr s)"
  by (simp add: elem_at_Inr[OF assms] Let_def cells_close_def close_to_def wrapped_dX_def
      periodic_offset_def)

declare Neighbor.simps(2) [simp del]

lemma Neighbor_pruned:
  assumes "j < length jcells" and "\<not> close_to wrap E Ci (jcells ! j)"
  shows "Neighbor (Suc fuel) p2p wrap E Ci jcells j s = Inr s"
  unfolding Neighbor_unfold[OF assms(1)] if_not_P[OF assms(2)] by (rule refl)

lemma Neighbor_leaf:
  assumes "j < length jcells" and "close_to wrap E Ci (jcells ! j)" and "NCHILD (jcells ! j) = 0"
  shows "Neighbor (Suc fuel) p2p wrap E Ci jcells j s =
           p2p Ci (jcells ! j) (periodic_offset wrap E Ci (jcells ! j)) s"
  unfolding Neighbor_unfold[OF assms(1)] if_P[OF assms(2)] if_P[OF assms(3)] assms(3)
  by (cases "p2p Ci (jcells ! j) (periodic_offset wrap E Ci (jcells ! j)) s") simp_all

lemma Neighbor_internal:
  assumes "j < length jcells" and "close_to wrap E Ci (jcells ! j)" and "NCHILD (jcells ! j) \<noteq> 0"
  shows "Neighbor (Suc fuel) p2p wrap E Ci jcells j s =
           for_each [ICHILD (jcells ! j)..<ICHILD (jcells ! j) + NCHILD (jcells ! j)]
             (\<lambda>CC s. Neighbor fuel p2p wrap E Ci jcells CC s) s"
  unfolding Neighbor_unfold[OF assms(1)] if_P[OF assms(2)] if_not_P[OF assms(3)] by simp

lemma visited_cases:
  "visited wrap E Ci jcells j k \<longleftrightarrow>
     k = j \<or> (j < length jcells \<and> close_to wrap E Ci (jcells ! j) \<and>
       (\<exists>c. ICHILD (jcells ! j) \<le> c \<and> c < ICHILD (jcells ! j) + NCHILD (jcells ! j) \<and>
            visited wrap E Ci jcells c k))"
proof
  assume "visited wrap E Ci jcells j k"
  then show "k = j \<or> (j < length jcells \<and> close_to wrap E Ci (jcells ! j) \<and>
       (\<exists>c. ICHILD (jcells ! j) \<le> c \<and> c < ICHILD (jcells ! j) + NCHILD (jcells ! j) \<and>
            visited wrap E Ci jcells c k))"
  proof (induction rule: visited.induct)
    case root
    then show ?case by simp
  next
    case (child m k)
    from child.IH show ?case
    proof
      assume "m = j"
      with child.hyps show ?thesis using visited.root[of wrap E Ci jcells k] by blast
    next
      assume "j < length jcells \<and> close_to wrap E Ci (jcells ! j) \<and>
       (\<exists>c. ICHILD (jcells ! j) \<le> c \<and> c < ICHILD (jcells ! j) + NCHILD (jcells ! j) \<and>
            visited wrap E Ci jcells c m)"
      then obtain c where c: "j < length jcells" "close_to wrap E Ci (jcells ! j)"
        "ICHILD (jcells ! j) \<le> c" "c < ICHILD (jcells ! j) + NCHILD (jcells ! j)"
        "visited wrap E Ci jcells c m" by blast
      from visited.child[OF c(5) child.hyps(2,3,4,5)] have "visited wrap E Ci jcells c k" .
      with c show ?thesis by blast
    qed
  qed
next
  assume a: "k = j \<or> (j < length jcells \<and> close_to wrap E Ci (jcells ! j) \<and>
       (\<exists>c. ICHILD (jcells ! j) \<le> c \<and> c < ICHILD (jcells ! j) + NCHILD (jcells ! j) \<and>
            visited wrap E Ci jcells c k))"
  show "visited wrap E Ci jcells j k"
  proof (cases "k = j")
    case True
    then show ?thesis by (simp add: visited.root)
  next
    case False
    with a obtain c where c: "j < length jcells" "close_to wrap E Ci (jcells ! j)"
        "ICHILD (jcells ! j) \<le> c" "c < ICHILD (jcells ! j) + NCHILD (jcells ! j)"
        "visited wrap E Ci jcells c k" by blast
    from c(5) show ?thesis
    proof (induction rule: visited.induct)
      case root
      show ?case by (rule visited.child[OF visited.root c(1,2,3,4)])
    next
      case (child m k)
      show ?case by (rule visited.child[OF child.IH child.hyps(2,3,4,5)])
    qed
  qed
qed

lemma record_call_replay: "for_each [call] (replay p2p) s = replay p2p call s"
  by (cases "replay p2p call s") simp_all

lemma replay_call: "replay p2p (Ci, Cj, Xperiodic) s = p2p Ci Cj Xperiodic s"
  by (simp add: replay_def)

lemma for_each_children:
  assumes "\<And>c. c \<in> set cs \<Longrightarrow>
      \<exists>new. (\<forall>calls. W c calls = Inr (calls @ new)) \<and> set new = S c \<and>
            (\<forall>p s. N p c s = for_each new (r p) s)"
  shows "\<exists>news. (\<forall>calls. for_each cs W calls = Inr (calls @ news)) \<and>
           set news = (\<Union>c \<in> set cs. S c) \<and>
           (\<forall>p s. for_each cs (N p) s = for_each news (r p) s)"
  using assms
proof (induction cs)
  case Nil
  show ?case by (rule exI[of _ "[]"]) simp
next
  case (Cons c cs)
  from Cons.prems[of c] obtain new where
    new: "\<forall>calls. W c calls = Inr (calls @ new)" "set new = S c"
    "\<forall>p s. N p c s = for_each new (r p) s"
    by auto
  have "\<And>c. c \<in> set cs \<Longrightarrow>
      \<exists>new. (\<forall>calls. W c calls = Inr (calls @ new)) \<and> set new = S c \<and>
            (\<forall>p s. N p c s = for_each new (r p) s)"
    using Cons.prems by simp
  from Cons.IH[OF this] obtain news where
    news: "\<forall>calls. for_each cs W calls = Inr (calls @ news)" "set news = (\<Union>c \<in> set cs. S c)"
    "\<forall>p s. for_each cs (N p) s = for_each news (r p) s"
    by blast
  have 1: "for_each (c # cs) W calls = Inr (calls @ (new @ news))" for calls
    using new(1) news(1) by simp
  have 2: "set (new @ news) = (\<Union>c \<in> set (c # cs). S c)"
    using new(2) news(2) by simp
  have 3: "for_each (c # cs) (N p) s = for_each (new @ news) (r p) s" for p s
    using new(3) news(3) by (simp add: for_each_append cong: sum.case_cong)
  from 1 2 3 show ?case by blast
qed

lemma leaf_calls_pruned:
  assumes "j < length jcells" and "\<not> close_to wrap E Ci (jcells ! j)"
  shows "leaf_calls wrap E Ci jcells j = {}"
proof -
  have "k = j" if "visited wrap E Ci jcells j k" for k
    using that assms(2) by (subst (asm) visited_cases) simp
  then show ?thesis using assms(2) by (auto simp: leaf_calls_def)
qed

lemma leaf_calls_leaf:
  assumes "j < length jcells" and "close_to wrap E Ci (jcells ! j)" and "NCHILD (jcells ! j) = 0"
  shows "leaf_calls wrap E Ci jcells j = {(Ci, jcells ! j, periodic_offset wrap E Ci (jcells ! j))}"
proof -
  have "k = j" if "visited wrap E Ci jcells j k" for k
    using that assms(3) by (subst (asm) visited_cases) auto
  then show ?thesis using assms visited.root[of wrap E Ci jcells j]
    by (auto simp: leaf_calls_def)
qed

lemma leaf_calls_internal:
  assumes "j < length jcells" and "close_to wrap E Ci (jcells ! j)" and "NCHILD (jcells ! j) \<noteq> 0"
  shows "leaf_calls wrap E Ci jcells j =
    (\<Union>c \<in> set [ICHILD (jcells ! j)..<ICHILD (jcells ! j) + NCHILD (jcells ! j)].
        leaf_calls wrap E Ci jcells c)"
proof -
  have v: "visited wrap E Ci jcells j k \<longleftrightarrow>
      k = j \<or> (\<exists>c. ICHILD (jcells ! j) \<le> c \<and> c < ICHILD (jcells ! j) + NCHILD (jcells ! j) \<and>
            visited wrap E Ci jcells c k)" for k
    using assms(1,2) by (subst visited_cases) simp
  show ?thesis
  proof (intro set_eqI iffI)
    fix x assume "x \<in> leaf_calls wrap E Ci jcells j"
    then obtain k where k: "x = (Ci, jcells ! k, periodic_offset wrap E Ci (jcells ! k))"
      "visited wrap E Ci jcells j k" "k < length jcells" "close_to wrap E Ci (jcells ! k)"
      "NCHILD (jcells ! k) = 0"
      by (auto simp: leaf_calls_def)
    from k(5) assms(3) have "k \<noteq> j" by auto
    with k(2) v obtain c where c: "ICHILD (jcells ! j) \<le> c"
      "c < ICHILD (jcells ! j) + NCHILD (jcells ! j)" "visited wrap E Ci jcells c k"
      by blast
    from c(3) k have "x \<in> leaf_calls wrap E Ci jcells c" by (auto simp: leaf_calls_def)
    with c(1,2) show "x \<in> (\<Union>c \<in> set [ICHILD (jcells ! j)..<ICHILD (jcells ! j) + NCHILD (jcells ! j)].
        leaf_calls wrap E Ci jcells c)"
      by auto
  next
    fix x assume "x \<in> (\<Union>c \<in> set [ICHILD (jcells ! j)..<ICHILD (jcells ! j) + NCHILD (jcells ! j)].
        leaf_calls wrap E Ci jcells c)"
    then obtain c k where c: "ICHILD (jcells ! j) \<le> c"
      "c < ICHILD (jcells ! j) + NCHILD (jcells ! j)"
      and k: "x = (Ci, jcells ! k, periodic_offset wrap E Ci (jcells ! k))"
      "visited wrap E Ci jcells c k" "k < length jcells" "close_to wrap E Ci (jcells ! k)"
      "NCHILD (jcells ! k) = 0"
      by (auto simp: leaf_calls_def)
    from c k(2) v have "visited wrap E Ci jcells j k" by blast
    with k show "x \<in> leaf_calls wrap E Ci jcells j" by (auto simp: leaf_calls_def)
  qed
qed

lemma Neighbor_calls:
  assumes "children_follow jcells" and "j < length jcells" and "length jcells - j \<le> fuel"
  shows "\<exists>new. (\<forall>calls. Neighbor fuel record_call wrap E Ci jcells j calls = Inr (calls @ new)) \<and>
           set new = leaf_calls wrap E Ci jcells j \<and>
           (\<forall>p2p (s::'s). Neighbor fuel p2p wrap E Ci jcells j s = for_each new (replay p2p) s)"
  using assms(2,3)
proof (induction fuel arbitrary: j)
  case 0
  then show ?case by simp
next
  case (Suc fuel)
  note j = Suc.prems(1)
  consider (pruned) "\<not> close_to wrap E Ci (jcells ! j)"
    | (leaf) "close_to wrap E Ci (jcells ! j)" "NCHILD (jcells ! j) = 0"
    | (internal) "close_to wrap E Ci (jcells ! j)" "NCHILD (jcells ! j) \<noteq> 0"
    by blast
  then show ?case
  proof cases
    case pruned
    show ?thesis
      by (rule exI[of _ "[]"])
        (simp add: Neighbor_pruned[OF j pruned] leaf_calls_pruned[OF j pruned])
  next
    case leaf
    show ?thesis
      by (rule exI[of _ "[(Ci, jcells ! j, periodic_offset wrap E Ci (jcells ! j))]"])
        (simp add: Neighbor_leaf[OF j leaf] leaf_calls_leaf[OF j leaf] record_call_def
          record_call_replay replay_call del: for_each.simps)
  next
    case internal
    let ?cs = "[ICHILD (jcells ! j)..<ICHILD (jcells ! j) + NCHILD (jcells ! j)]"
    from assms(1) j internal(2) have wf: "j < ICHILD (jcells ! j)"
      "ICHILD (jcells ! j) + NCHILD (jcells ! j) \<le> length jcells"
      by (simp_all add: children_follow_def)
    have "\<exists>new. (\<forall>calls. Neighbor fuel record_call wrap E Ci jcells c calls = Inr (calls @ new)) \<and>
           set new = leaf_calls wrap E Ci jcells c \<and>
           (\<forall>p2p (s::'s). Neighbor fuel p2p wrap E Ci jcells c s = for_each new (replay p2p) s)"
      if "c \<in> set ?cs" for c
    proof (rule Suc.IH)
      from that wf show "c < length jcells" by simp
      from that wf Suc.prems(2) show "length jcells - c \<le> fuel" by auto
    qed
    from for_each_children[where W = "\<lambda>c calls. Neighbor fuel record_call wrap E Ci jcells c calls"
        and N = "\<lambda>p2p c (s::'s). Neighbor fuel p2p wrap E Ci jcells c s" and r = replay
        and S = "leaf_calls wrap E Ci jcells" and cs = ?cs, OF this]
    obtain news where
      news: "\<forall>calls. for_each ?cs (\<lambda>c calls. Neighbor fuel record_call wrap E Ci jcells c calls) calls
               = Inr (calls @ news)"
      "set news = (\<Union>c \<in> set ?cs. leaf_calls wrap E Ci jcells c)"
      "\<forall>p2p (s::'s). for_each ?cs (\<lambda>c s. Neighbor fuel p2p wrap E Ci jcells c s) s
               = for_each news (replay p2p) s"
      by blast
    show ?thesis
      by (rule exI[of _ news])
        (simp add: Neighbor_internal[OF j internal] leaf_calls_internal[OF j internal] news)
  qed
qed

lemma realPart_Nil: "realPart fuel erfc wrap E [] jcells bodies = Inr bodies"
  by (simp add: realPart_def realPart_cells_def)

lemma realPart_Cons:
  "realPart fuel erfc wrap E (C # cells) jcells bodies =
     (case (if NCHILD C = 0 then Neighbor fuel (P2P erfc E) wrap E C jcells 0 bodies else Inr bodies) of
        Inl e \<Rightarrow> Inl e
      | Inr bodies' \<Rightarrow> realPart fuel erfc wrap E cells jcells bodies')"
  by (simp add: realPart_def realPart_cells_def cong: sum.case_cong)

text \<open>
  Claim C6, as amended. For a target cell \<open>Ci\<close> and the source cell \<open>Cj\<close> at index \<open>j\<close>, let
  \<open>dX\<close> be the wrapped distance vector of the centres, \<open>Xperiodic\<close> the periodic offset
  derived from it, and \<open>gap\<close> the wrapped centre distance minus the two radii. The
  threshold is \<^verbatim>\<open>sqrtf(3)\<close> \<open>* cutoff\<close>, with the single-precision constant \<open>14529495 / 2\<^sup>2\<^sup>3\<close>.
  \<^item> When the gap is not below the threshold, the traversal returns at once: whatever
    \<^verbatim>\<open>P2P\<close> is, the state is unchanged, no call is recorded, and no call is owed for the
    cell or any cell below it.
  \<^item> When the gap is below the threshold and \<open>Cj\<close> has no children, the traversal is
    exactly one call of \<^verbatim>\<open>P2P\<close> for \<open>Ci\<close> and \<open>Cj\<close> with \<open>Xperiodic\<close>.
  \<^item> When the gap is below the threshold and \<open>Cj\<close> has children, the traversal makes no
    call for \<open>Cj\<close> itself and recurses into each child in turn, with the same \<open>Ci\<close>.
  \<^item> \<open>realPart\<close> goes through the target cells in order: for a target cell without
    children it runs the traversal from the source root (index 0) on the bodies, and
    for a target cell with children it does nothing.
  \<^item> In a vector of source cells whose children follow their parents, fuel equal to
    the number of cells is enough: the traversal from the root returns, the calls it
    makes are those of the reached close leaves, and with any \<^verbatim>\<open>P2P\<close> it does what these
    calls do in their order.
\<close>

theorem Neighbor_realPart_traversal:
  assumes "j < length jcells" and "Cj = jcells ! j"
    and "dX = wrap (vsub (Cell.X Ci) (Cell.X Cj)) (cycle E)"
    and "Xperiodic = vsub (vsub (Cell.X Ci) (Cell.X Cj)) dX"
    and "gap = sqrt (norm_vec3 dX) - Cell.R Ci - Cell.R Cj"
  shows "(\<not> gap < sqrtf_3 * cutoff E \<longrightarrow>
            Neighbor (Suc fuel) p2p wrap E Ci jcells j s = Inr s \<and>
            Neighbor (Suc fuel) record_call wrap E Ci jcells j calls = Inr calls \<and>
            leaf_calls wrap E Ci jcells j = {}) \<and>
         (gap < sqrtf_3 * cutoff E \<and> NCHILD Cj = 0 \<longrightarrow>
            Neighbor (Suc fuel) p2p wrap E Ci jcells j s = p2p Ci Cj Xperiodic s \<and>
            Neighbor (Suc fuel) record_call wrap E Ci jcells j calls =
              Inr (calls @ [(Ci, Cj, Xperiodic)])) \<and>
         (gap < sqrtf_3 * cutoff E \<and> NCHILD Cj \<noteq> 0 \<longrightarrow>
            Neighbor (Suc fuel) p2p wrap E Ci jcells j s =
              for_each [ICHILD Cj..<ICHILD Cj + NCHILD Cj]
                (\<lambda>CC s. Neighbor fuel p2p wrap E Ci jcells CC s) s) \<and>
         realPart fuel erfc wrap E [] jcells bodies = Inr bodies \<and>
         realPart fuel erfc wrap E (C # cells) jcells bodies =
           (case (if NCHILD C = 0 then Neighbor fuel (P2P erfc E) wrap E C jcells 0 bodies
                  else Inr bodies) of
              Inl e \<Rightarrow> Inl e
            | Inr bodies' \<Rightarrow> realPart fuel erfc wrap E cells jcells bodies') \<and>
         (children_follow jcells \<longrightarrow>
            (\<exists>new. (\<forall>calls. Neighbor (length jcells) record_call wrap E Ci jcells 0 calls
                               = Inr (calls @ new)) \<and>
                   set new = leaf_calls wrap E Ci jcells 0 \<and>
                   (\<forall>p2p (s::'s). Neighbor (length jcells) p2p wrap E Ci jcells 0 s
                                    = for_each new (replay p2p) s)))"
proof -
  have c: "close_to wrap E Ci (jcells ! j) \<longleftrightarrow> gap < sqrtf_3 * cutoff E"
    by (simp add: close_to_def wrapped_dX_def assms(2,3,5))
  have x: "periodic_offset wrap E Ci (jcells ! j) = Xperiodic"
    by (simp add: periodic_offset_def wrapped_dX_def assms(2,3,4))
  have 1: "Neighbor (Suc fuel) p2p wrap E Ci jcells j s = Inr s \<and>
            Neighbor (Suc fuel) record_call wrap E Ci jcells j calls = Inr calls \<and>
            leaf_calls wrap E Ci jcells j = {}"
    if "\<not> gap < sqrtf_3 * cutoff E"
  proof -
    from that c have n: "\<not> close_to wrap E Ci (jcells ! j)" by simp
    show ?thesis
      by (simp add: Neighbor_pruned[OF assms(1) n] leaf_calls_pruned[OF assms(1) n])
  qed
  have 2: "Neighbor (Suc fuel) p2p wrap E Ci jcells j s = p2p Ci Cj Xperiodic s \<and>
            Neighbor (Suc fuel) record_call wrap E Ci jcells j calls =
              Inr (calls @ [(Ci, Cj, Xperiodic)])"
    if "gap < sqrtf_3 * cutoff E \<and> NCHILD Cj = 0"
  proof -
    from that c have n: "close_to wrap E Ci (jcells ! j)" "NCHILD (jcells ! j) = 0"
      by (simp_all add: assms(2))
    show ?thesis
      by (simp add: Neighbor_leaf[OF assms(1) n] x record_call_def assms(2))
  qed
  have 3: "Neighbor (Suc fuel) p2p wrap E Ci jcells j s =
              for_each [ICHILD Cj..<ICHILD Cj + NCHILD Cj]
                (\<lambda>CC s. Neighbor fuel p2p wrap E Ci jcells CC s) s"
    if "gap < sqrtf_3 * cutoff E \<and> NCHILD Cj \<noteq> 0"
  proof -
    from that c have n: "close_to wrap E Ci (jcells ! j)" "NCHILD (jcells ! j) \<noteq> 0"
      by (simp_all add: assms(2))
    show ?thesis
      unfolding Neighbor_internal[OF assms(1) n] assms(2) by (rule refl)
  qed
  have 4: "\<exists>new. (\<forall>calls. Neighbor (length jcells) record_call wrap E Ci jcells 0 calls
                               = Inr (calls @ new)) \<and>
                   set new = leaf_calls wrap E Ci jcells 0 \<and>
                   (\<forall>p2p (s::'s). Neighbor (length jcells) p2p wrap E Ci jcells 0 s
                                    = for_each new (replay p2p) s)"
    if "children_follow jcells"
  proof (rule Neighbor_calls[OF that])
    show "0 < length jcells" using assms(1) by auto
    show "length jcells - 0 \<le> length jcells" by simp
  qed
  from 1 2 3 4 realPart_Nil realPart_Cons show ?thesis by blast
qed

text \<open>
  The theorem for a target leaf at the origin and three source cells: a root with two
  children, a leaf at the origin and a leaf at \<open>(100, 0, 0)\<close>, all of radius 1, with
  \<open>cutoff = 1\<close> and a \<^verbatim>\<open>wrap\<close> that leaves the vector as it is. The far leaf is pruned, the
  near leaf gives one call, and the traversal from the root makes exactly that call.
\<close>

theorem Neighbor_realPart_traversal_witness:
  "Neighbor (Suc 0) record_call (\<lambda>dX c. dX)
      \<lparr>ksize = 1, alpha = 1, sigma = 1, cutoff = 1, cycle = (1000, 1000, 1000)\<rparr>
      \<lparr>ICHILD = 0, NCHILD = 0, BODY = 0, NBODY = 1, X = (0, 0, 0), R = 1\<rparr>
      [\<lparr>ICHILD = 1, NCHILD = 2, BODY = 0, NBODY = 2, X = (0, 0, 0), R = 1\<rparr>,
       \<lparr>ICHILD = 0, NCHILD = 0, BODY = 0, NBODY = 1, X = (0, 0, 0), R = 1\<rparr>,
       \<lparr>ICHILD = 0, NCHILD = 0, BODY = 1, NBODY = 1, X = (100, 0, 0), R = 1\<rparr>] 2 [] = Inr [] \<and>
   Neighbor (Suc 0) record_call (\<lambda>dX c. dX)
      \<lparr>ksize = 1, alpha = 1, sigma = 1, cutoff = 1, cycle = (1000, 1000, 1000)\<rparr>
      \<lparr>ICHILD = 0, NCHILD = 0, BODY = 0, NBODY = 1, X = (0, 0, 0), R = 1\<rparr>
      [\<lparr>ICHILD = 1, NCHILD = 2, BODY = 0, NBODY = 2, X = (0, 0, 0), R = 1\<rparr>,
       \<lparr>ICHILD = 0, NCHILD = 0, BODY = 0, NBODY = 1, X = (0, 0, 0), R = 1\<rparr>,
       \<lparr>ICHILD = 0, NCHILD = 0, BODY = 1, NBODY = 1, X = (100, 0, 0), R = 1\<rparr>] 1 [] =
     Inr [(\<lparr>ICHILD = 0, NCHILD = 0, BODY = 0, NBODY = 1, X = (0, 0, 0), R = 1\<rparr>,
           \<lparr>ICHILD = 0, NCHILD = 0, BODY = 0, NBODY = 1, X = (0, 0, 0), R = 1\<rparr>, (0, 0, 0))] \<and>
   Neighbor (Suc (Suc 0)) record_call (\<lambda>dX c. dX)
      \<lparr>ksize = 1, alpha = 1, sigma = 1, cutoff = 1, cycle = (1000, 1000, 1000)\<rparr>
      \<lparr>ICHILD = 0, NCHILD = 0, BODY = 0, NBODY = 1, X = (0, 0, 0), R = 1\<rparr>
      [\<lparr>ICHILD = 1, NCHILD = 2, BODY = 0, NBODY = 2, X = (0, 0, 0), R = 1\<rparr>,
       \<lparr>ICHILD = 0, NCHILD = 0, BODY = 0, NBODY = 1, X = (0, 0, 0), R = 1\<rparr>,
       \<lparr>ICHILD = 0, NCHILD = 0, BODY = 1, NBODY = 1, X = (100, 0, 0), R = 1\<rparr>] 0 [] =
     Inr [(\<lparr>ICHILD = 0, NCHILD = 0, BODY = 0, NBODY = 1, X = (0, 0, 0), R = 1\<rparr>,
           \<lparr>ICHILD = 0, NCHILD = 0, BODY = 0, NBODY = 1, X = (0, 0, 0), R = 1\<rparr>, (0, 0, 0))] \<and>
   (\<exists>new. \<forall>calls. Neighbor 3 record_call (\<lambda>dX c. dX)
      \<lparr>ksize = 1, alpha = 1, sigma = 1, cutoff = 1, cycle = (1000, 1000, 1000)\<rparr>
      \<lparr>ICHILD = 0, NCHILD = 0, BODY = 0, NBODY = 1, X = (0, 0, 0), R = 1\<rparr>
      [\<lparr>ICHILD = 1, NCHILD = 2, BODY = 0, NBODY = 2, X = (0, 0, 0), R = 1\<rparr>,
       \<lparr>ICHILD = 0, NCHILD = 0, BODY = 0, NBODY = 1, X = (0, 0, 0), R = 1\<rparr>,
       \<lparr>ICHILD = 0, NCHILD = 0, BODY = 1, NBODY = 1, X = (100, 0, 0), R = 1\<rparr>] 0 calls =
     Inr (calls @ new))"
proof -
  let ?E = "\<lparr>ksize = 1, alpha = 1, sigma = 1, cutoff = 1, cycle = (1000, 1000, 1000)\<rparr>"
  let ?Ci = "\<lparr>ICHILD = 0, NCHILD = 0, BODY = 0, NBODY = 1, X = (0, 0, 0), R = 1\<rparr>"
  let ?root = "\<lparr>ICHILD = 1, NCHILD = 2, BODY = 0, NBODY = 2, X = (0, 0, 0), R = 1\<rparr>"
  let ?near = "\<lparr>ICHILD = 0, NCHILD = 0, BODY = 0, NBODY = 1, X = (0, 0, 0), R = 1\<rparr>"
  let ?far = "\<lparr>ICHILD = 0, NCHILD = 0, BODY = 1, NBODY = 1, X = (100, 0, 0), R = 1\<rparr>"
  let ?jcells = "[?root, ?near, ?far]"
  let ?wrap = "\<lambda>(dX::vec3) (c::vec3). dX"
  have s3: "sqrtf_3 < 2" and m2: "- 2 < sqrtf_3"
    by (simp_all add: sqrtf_3_def)
  have s100: "sqrt 10000 = 100" by (rule real_sqrt_unique) simp_all
  have wf: "children_follow ?jcells"
    by (simp add: children_follow_def less_Suc_eq numeral_3_eq_3)
  \<comment> \<open>the far leaf\<close>
  have j2: "2 < length ?jcells" "?far = ?jcells ! 2"
    "(- 100, 0, 0) = ?wrap (vsub (Cell.X ?Ci) (Cell.X ?far)) (cycle ?E)"
    "(0, 0, 0) = vsub (vsub (Cell.X ?Ci) (Cell.X ?far)) (- 100, 0, 0)"
    "98 = sqrt (norm_vec3 (- 100, 0, 0)) - Cell.R ?Ci - Cell.R ?far"
    by (simp_all add: s100)
  have g2: "\<not> 98 < sqrtf_3 * cutoff ?E" using s3 by simp
  from Neighbor_realPart_traversal[where wrap = ?wrap, OF j2, where fuel = 0 and calls = "[]" and p2p = record_call and s = "[]"] g2
  have a: "Neighbor (Suc 0) record_call ?wrap ?E ?Ci ?jcells 2 [] = Inr []" by blast
  \<comment> \<open>the near leaf\<close>
  have j1: "1 < length ?jcells" "?near = ?jcells ! 1"
    "(0, 0, 0) = ?wrap (vsub (Cell.X ?Ci) (Cell.X ?near)) (cycle ?E)"
    "(0, 0, 0) = vsub (vsub (Cell.X ?Ci) (Cell.X ?near)) (0, 0, 0)"
    "- 2 = sqrt (norm_vec3 (0, 0, 0)) - Cell.R ?Ci - Cell.R ?near"
    by simp_all
  have g1: "- 2 < sqrtf_3 * cutoff ?E \<and> NCHILD ?near = 0" using m2 by simp
  from Neighbor_realPart_traversal[where wrap = ?wrap, OF j1, where fuel = 0 and calls = "[]" and p2p = record_call and s = "[]"] g1
  have b: "Neighbor (Suc 0) record_call ?wrap ?E ?Ci ?jcells 1 [] = Inr ([] @ [(?Ci, ?near, (0, 0, 0))])"
    by blast
  \<comment> \<open>the root\<close>
  have j0: "0 < length ?jcells" "?root = ?jcells ! 0"
    "(0, 0, 0) = ?wrap (vsub (Cell.X ?Ci) (Cell.X ?root)) (cycle ?E)"
    "(0, 0, 0) = vsub (vsub (Cell.X ?Ci) (Cell.X ?root)) (0, 0, 0)"
    "- 2 = sqrt (norm_vec3 (0, 0, 0)) - Cell.R ?Ci - Cell.R ?root"
    by simp_all
  have g0: "- 2 < sqrtf_3 * cutoff ?E \<and> NCHILD ?root \<noteq> 0" using m2 by simp
  note th0 = Neighbor_realPart_traversal[where wrap = ?wrap, OF j0, where fuel = "Suc 0" and calls = "[]" and p2p = record_call and s = "[]"]
  from th0 g0
  have "Neighbor (Suc (Suc 0)) record_call ?wrap ?E ?Ci ?jcells 0 [] =
      for_each [ICHILD ?root..<ICHILD ?root + NCHILD ?root]
        (\<lambda>CC s. Neighbor (Suc 0) record_call ?wrap ?E ?Ci ?jcells CC s) []"
    by blast
  also have "[ICHILD ?root..<ICHILD ?root + NCHILD ?root] = [1, 2]"
    by (simp add: upt_rec)
  also have "for_each [1, 2] (\<lambda>CC s. Neighbor (Suc 0) record_call ?wrap ?E ?Ci ?jcells CC s) [] =
      (case Neighbor (Suc 0) record_call ?wrap ?E ?Ci ?jcells 1 [] of Inl e \<Rightarrow> Inl e
       | Inr s' \<Rightarrow> (case Neighbor (Suc 0) record_call ?wrap ?E ?Ci ?jcells 2 s' of Inl e \<Rightarrow> Inl e
           | Inr s'' \<Rightarrow> Inr s''))"
    unfolding for_each.simps by (rule refl)
  finally have c0: "Neighbor (Suc (Suc 0)) record_call ?wrap ?E ?Ci ?jcells 0 [] =
      (case Neighbor (Suc 0) record_call ?wrap ?E ?Ci ?jcells 1 [] of Inl e \<Rightarrow> Inl e
       | Inr s' \<Rightarrow> (case Neighbor (Suc 0) record_call ?wrap ?E ?Ci ?jcells 2 s' of Inl e \<Rightarrow> Inl e
           | Inr s'' \<Rightarrow> Inr s''))" .
  from Neighbor_realPart_traversal[where wrap = ?wrap, OF j2, where fuel = 0 and calls = "[(?Ci, ?near, (0, 0, 0))]"
      and p2p = record_call and s = "[]"] g2
  have a': "Neighbor (Suc 0) record_call ?wrap ?E ?Ci ?jcells 2 [(?Ci, ?near, (0, 0, 0))] =
      Inr [(?Ci, ?near, (0, 0, 0))]" by blast
  have c: "Neighbor (Suc (Suc 0)) record_call ?wrap ?E ?Ci ?jcells 0 [] = Inr [(?Ci, ?near, (0, 0, 0))]"
    unfolding c0 b append_Nil sum.case a' by (rule refl)
  from th0 wf have d: "\<exists>new. \<forall>calls. Neighbor (length ?jcells) record_call ?wrap ?E ?Ci ?jcells 0 calls =
     Inr (calls @ new)" by blast
  have l: "length ?jcells = 3" by simp
  from a b c d[unfolded l] show ?thesis by simp
qed

text \<open>
  Claim C6 as stated, with the threshold \<open>\<surd>3 * cutoff\<close>, fails for a gap between the two
  constants. Let \<open>cutoff = 1\<close>, the target leaf at the origin and one source leaf at
  \<open>(1.73205079, 0, 0)\<close>, both of radius 0, and a \<^verbatim>\<open>wrap\<close> that leaves the vector as it is.
  The gap 1.73205079 is below \<open>\<surd>3 * cutoff\<close>, where the claim has one call of \<^verbatim>\<open>P2P\<close>; it is
  not below \<^verbatim>\<open>sqrtf(3)\<close> \<open>* cutoff\<close>, and the traversal makes no call.
\<close>

theorem Neighbor_threshold_counterexample:
  "sqrt (norm_vec3 (vsub (0, 0, 0) (173205079 / 100000000, 0, 0))) - 0 - 0 < sqrt 3 * 1 \<and>
   NCHILD \<lparr>ICHILD = 0, NCHILD = 0, BODY = 0, NBODY = 1, X = (173205079 / 100000000, 0, 0), R = 0\<rparr> = 0 \<and>
   Neighbor (Suc 0) record_call (\<lambda>dX c. dX)
      \<lparr>ksize = 1, alpha = 1, sigma = 1, cutoff = 1, cycle = (1000, 1000, 1000)\<rparr>
      \<lparr>ICHILD = 0, NCHILD = 0, BODY = 0, NBODY = 1, X = (0, 0, 0), R = 0\<rparr>
      [\<lparr>ICHILD = 0, NCHILD = 0, BODY = 0, NBODY = 1, X = (173205079 / 100000000, 0, 0), R = 0\<rparr>] 0 [] =
     Inr []"
proof -
  let ?E = "\<lparr>ksize = 1, alpha = 1, sigma = 1, cutoff = 1, cycle = (1000, 1000, 1000)\<rparr>"
  let ?Ci = "\<lparr>ICHILD = 0, NCHILD = 0, BODY = 0, NBODY = 1, X = (0, 0, 0), R = 0\<rparr>"
  let ?Cj = "\<lparr>ICHILD = 0, NCHILD = 0, BODY = 0, NBODY = 1, X = (173205079 / 100000000, 0, 0), R = 0\<rparr>"
  let ?wrap = "\<lambda>(dX::vec3) (c::vec3). dX"
  have r0: "sqrt (29999999391396241 / 10000000000000000) = 173205079 / 100000000"
    by (rule real_sqrt_unique) (simp_all add: power2_eq_square)
  have r: "sqrt (norm_vec3 (vsub (0, 0, 0) (173205079 / 100000000, 0, 0))) = 173205079 / 100000000"
    by (simp add: r0)
  have "(173205079 / 100000000 :: real) < sqrt 3"
    by (rule real_less_rsqrt) (simp add: power2_eq_square)
  then have 1: "sqrt (norm_vec3 (vsub (0, 0, 0) (173205079 / 100000000, 0, 0))) - 0 - 0 < sqrt 3 * 1"
    unfolding r by simp
  have j: "0 < length [?Cj]" by simp
  have "\<not> close_to ?wrap ?E ?Ci ([?Cj] ! 0)"
    by (simp add: close_to_def wrapped_dX_def r0 sqrtf_3_def)
  from Neighbor_pruned[OF j this]
  have 2: "Neighbor (Suc 0) record_call ?wrap ?E ?Ci [?Cj] 0 [] = Inr []" .
  from 1 2 show ?thesis by simp
qed

end
